(* ===== verification/Prelude.thy ===== *)
theory Prelude
  imports Main
begin

text \<open>
  The shared layer of the development. A Go function that returns \<open>(T, error)\<close> and
  touches the database, the clock or another service is an \<open>act\<close>: it takes the state and
  gives either an error (\<open>Inl\<close>) or a value (\<open>Inr\<close>), together with the new state.
  The error side keeps the state, since what a Go function did before it returned an error
  has happened.

  The combinators are the idioms of the source:
  \<^item> \<open>bind_act m f\<close> is \<open>x, err := m; if err != nil { return err }; f(x)\<close>;
  \<^item> \<open>map_err g m\<close> is \<open>mapErr(m)\<close>, and \<open>or_else m e\<close> is
    \<open>if err != nil { return e }\<close>;
  \<^item> \<open>attempt m\<close> hands the error to the caller as a value, and \<open>ignore m\<close> is
    \<open>_ = m\<close>.

  The locale \<open>transition\<close> is the contract of a relation between the state before and the
  state after: any reflexive and transitive relation is kept by a composed action when the
  parts keep it. It is interpreted for invariants here and for tenant isolation and
  append-only tables by the components.
\<close>

named_theorems act_simps \<open>running the combinators\<close>
named_theorems keeps_intros \<open>actions that keep a relation between the states\<close>

type_synonym ('s, 'e, 'a) act = "'s \<Rightarrow> 's \<times> ('e + 'a)"

section \<open>Combinators\<close>

definition ret :: "'a \<Rightarrow> ('s, 'e, 'a) act" where
  "ret x s = (s, Inr x)"

definition raise :: "'e \<Rightarrow> ('s, 'e, 'a) act" where
  "raise e s = (s, Inl e)"

definition bind_act :: "('s, 'e, 'a) act \<Rightarrow> ('a \<Rightarrow> ('s, 'e, 'b) act) \<Rightarrow> ('s, 'e, 'b) act" where
  "bind_act m f s = (case m s of (s', Inl e) \<Rightarrow> (s', Inl e) | (s', Inr x) \<Rightarrow> f x s')"

definition map_err :: "('e \<Rightarrow> 'f) \<Rightarrow> ('s, 'e, 'a) act \<Rightarrow> ('s, 'f, 'a) act" where
  "map_err g m s = (case m s of (s', Inl e) \<Rightarrow> (s', Inl (g e)) | (s', Inr x) \<Rightarrow> (s', Inr x))"

definition or_else :: "('s, 'e, 'a) act \<Rightarrow> 'f \<Rightarrow> ('s, 'f, 'a) act" where
  "or_else m e = map_err (\<lambda>_. e) m"

definition attempt :: "('s, 'e, 'a) act \<Rightarrow> ('s, 'f, 'e + 'a) act" where
  "attempt m s = (case m s of (s', r) \<Rightarrow> (s', Inr r))"

definition ignore :: "('s, 'e, 'a) act \<Rightarrow> ('s, 'f, unit) act" where
  "ignore m s = (case m s of (s', r) \<Rightarrow> (s', Inr ()))"

definition gets :: "('s \<Rightarrow> 'a) \<Rightarrow> ('s, 'e, 'a) act" where
  "gets f s = (s, Inr (f s))"

definition modify :: "('s \<Rightarrow> 's) \<Rightarrow> ('s, 'e, unit) act" where
  "modify f s = (f s, Inr ())"

definition check :: "bool \<Rightarrow> 'e \<Rightarrow> ('s, 'e, unit) act" where
  "check b e = (if b then ret () else raise e)"

definition lift :: "'e + 'a \<Rightarrow> ('s, 'e, 'a) act" where
  "lift r s = (s, r)"

fun for_each :: "'a list \<Rightarrow> ('a \<Rightarrow> ('s, 'e, 'b) act) \<Rightarrow> ('s, 'e, 'b list) act" where
  "for_each [] f = ret []"
| "for_each (x # xs) f = bind_act (f x) (\<lambda>y. bind_act (for_each xs f) (\<lambda>ys. ret (y # ys)))"

lemma ret_run [simp, act_simps]: "ret x s = (s, Inr x)"
  by (simp add: ret_def)

lemma raise_run [simp, act_simps]: "raise e s = (s, Inl e)"
  by (simp add: raise_def)

lemma gets_run [simp, act_simps]: "gets f s = (s, Inr (f s))"
  by (simp add: gets_def)

lemma modify_run [simp, act_simps]: "modify f s = (f s, Inr ())"
  by (simp add: modify_def)

lemma lift_run [simp, act_simps]: "lift r s = (s, r)"
  by (simp add: lift_def)

lemma check_run [simp, act_simps]: "check b e s = (s, if b then Inr () else Inl e)"
  by (simp add: check_def)

lemma bind_run_Inr [simp, act_simps]: "m s = (s', Inr x) \<Longrightarrow> bind_act m f s = f x s'"
  by (simp add: bind_act_def)

lemma bind_run_Inl [simp, act_simps]: "m s = (s', Inl e) \<Longrightarrow> bind_act m f s = (s', Inl e)"
  by (simp add: bind_act_def)

lemma bind_ret [simp]: "bind_act (ret x) f = f x"
  by (rule ext) (simp add: bind_act_def)

lemma bind_raise [simp]: "bind_act (raise e) f = raise e"
  by (rule ext) (simp add: bind_act_def)

lemma bind_gets [simp]: "bind_act (gets g) f s = f (g s) s"
  by (simp add: bind_act_def)

lemma bind_modify [simp]: "bind_act (modify g) f s = f () (g s)"
  by (simp add: bind_act_def)

lemma bind_check: "bind_act (check b e) f s = (if b then f () s else (s, Inl e))"
  by (simp add: bind_act_def)

lemma bind_assoc: "bind_act (bind_act m f) g = bind_act m (\<lambda>x. bind_act (f x) g)"
  by (rule ext) (simp add: bind_act_def split: prod.splits sum.splits)

lemma bind_split:
  "P (bind_act m f s) \<longleftrightarrow>
     (\<forall>e s'. m s = (s', Inl e) \<longrightarrow> P (s', Inl e)) \<and> (\<forall>x s'. m s = (s', Inr x) \<longrightarrow> P (f x s'))"
  by (auto simp: bind_act_def split: prod.splits sum.splits)

lemma bind_Inr_iff:
  "bind_act m f s = (t, Inr y) \<longleftrightarrow> (\<exists>x s'. m s = (s', Inr x) \<and> f x s' = (t, Inr y))"
  by (auto simp: bind_act_def split: prod.splits sum.splits)

lemma bind_InrE:
  assumes "bind_act m f s = (t, Inr y)"
  obtains x s' where "m s = (s', Inr x)" and "f x s' = (t, Inr y)"
  using assms by (auto simp: bind_Inr_iff)

lemma bind_Inl_iff:
  "bind_act m f s = (t, Inl e) \<longleftrightarrow>
     m s = (t, Inl e) \<or> (\<exists>x s'. m s = (s', Inr x) \<and> f x s' = (t, Inl e))"
  by (auto simp: bind_act_def split: prod.splits sum.splits)

lemma map_err_Inr_iff [simp]: "map_err g m s = (t, Inr x) \<longleftrightarrow> m s = (t, Inr x)"
  by (auto simp: map_err_def split: prod.splits sum.splits)

lemma or_else_Inr_iff [simp]: "or_else m e s = (t, Inr x) \<longleftrightarrow> m s = (t, Inr x)"
  by (simp add: or_else_def)

lemma map_err_Inl_iff: "map_err g m s = (t, Inl e) \<longleftrightarrow> (\<exists>e'. m s = (t, Inl e') \<and> e = g e')"
  by (auto simp: map_err_def split: prod.splits sum.splits)

lemma or_else_Inl_iff: "or_else m e s = (t, Inl e') \<longleftrightarrow> e' = e \<and> (\<exists>e0. m s = (t, Inl e0))"
  by (auto simp: or_else_def map_err_Inl_iff)

lemma map_err_run_Inl [simp, act_simps]: "m s = (t, Inl e) \<Longrightarrow> map_err g m s = (t, Inl (g e))"
  by (simp add: map_err_def)

lemma or_else_run_Inl [simp, act_simps]: "m s = (t, Inl e') \<Longrightarrow> or_else m e s = (t, Inl e)"
  by (simp add: or_else_def)

lemma attempt_run: "attempt m s = (fst (m s), Inr (snd (m s)))"
  by (simp add: attempt_def split: prod.splits)

lemma ignore_run: "ignore m s = (fst (m s), Inr ())"
  by (simp add: ignore_def split: prod.splits)

lemma bind_attempt: "bind_act (attempt m) f s = f (snd (m s)) (fst (m s))"
  by (simp add: bind_act_def attempt_run)

lemma bind_ignore: "bind_act (ignore m) f s = f () (fst (m s))"
  by (simp add: bind_act_def ignore_run)

lemma fst_map_err [simp]: "fst (map_err g m s) = fst (m s)"
  by (simp add: map_err_def split: prod.splits sum.splits)

lemma fst_or_else [simp]: "fst (or_else m e s) = fst (m s)"
  by (simp add: or_else_def)

lemmas act_defs = bind_act_def map_err_def or_else_def attempt_def ignore_def

section \<open>Relations between the state before and the state after\<close>

definition keeps :: "('s \<Rightarrow> 's \<Rightarrow> bool) \<Rightarrow> ('s, 'e, 'a) act \<Rightarrow> bool" where
  "keeps R m \<longleftrightarrow> (\<forall>s. R s (fst (m s)))"

lemma keepsI: "(\<And>s. R s (fst (m s))) \<Longrightarrow> keeps R m"
  by (simp add: keeps_def)

lemma keepsD: "keeps R m \<Longrightarrow> R s (fst (m s))"
  by (simp add: keeps_def)

lemma keepsD': "keeps R m \<Longrightarrow> m s = (t, r) \<Longrightarrow> R s t"
  using keepsD [of R m s] by simp

locale transition =
  fixes R :: "'s \<Rightarrow> 's \<Rightarrow> bool"
  assumes stay: "R s s"
    and chain: "R s t \<Longrightarrow> R t u \<Longrightarrow> R s u"
begin

lemma keeps_ret: "keeps R (ret x)"
  by (simp add: keeps_def stay)

lemma keeps_raise: "keeps R (raise e)"
  by (simp add: keeps_def stay)

lemma keeps_gets: "keeps R (gets f)"
  by (simp add: keeps_def stay)

lemma keeps_check: "keeps R (check b e)"
  by (simp add: keeps_def stay)

lemma keeps_lift: "keeps R (lift r)"
  by (simp add: keeps_def stay)

lemma keeps_bind:
  assumes m: "keeps R m" and f: "\<And>x. keeps R (f x)"
  shows "keeps R (bind_act m f)"
proof (rule keepsI)
  fix s
  obtain t r where run: "m s = (t, r)" by fastforce
  with m have "R s t" by (rule keepsD')
  then show "R s (fst (bind_act m f s))"
    using run chain keepsD [OF f] by (cases r) (auto simp: bind_act_def)
qed

lemma keeps_map_err: "keeps R m \<Longrightarrow> keeps R (map_err g m)"
  by (simp add: keeps_def)

lemma keeps_or_else: "keeps R m \<Longrightarrow> keeps R (or_else m e)"
  by (simp add: keeps_def)

lemma keeps_attempt: "keeps R m \<Longrightarrow> keeps R (attempt m)"
  by (simp add: keeps_def attempt_run)

lemma keeps_ignore: "keeps R m \<Longrightarrow> keeps R (ignore m)"
  by (simp add: keeps_def ignore_run)

lemma keeps_if: "(b \<Longrightarrow> keeps R m) \<Longrightarrow> (\<not> b \<Longrightarrow> keeps R n) \<Longrightarrow> keeps R (if b then m else n)"
  by simp

lemma keeps_case_sum:
  "(\<And>e. r = Inl e \<Longrightarrow> keeps R (f e)) \<Longrightarrow> (\<And>x. r = Inr x \<Longrightarrow> keeps R (g x)) \<Longrightarrow>
   keeps R (case r of Inl e \<Rightarrow> f e | Inr x \<Rightarrow> g x)"
  by (cases r) simp_all

lemma keeps_case_option:
  "(r = None \<Longrightarrow> keeps R m) \<Longrightarrow> (\<And>x. r = Some x \<Longrightarrow> keeps R (f x)) \<Longrightarrow>
   keeps R (case r of None \<Rightarrow> m | Some x \<Rightarrow> f x)"
  by (cases r) simp_all

lemma keeps_case_prod: "(\<And>x y. p = (x, y) \<Longrightarrow> keeps R (f x y)) \<Longrightarrow> keeps R (case p of (x, y) \<Rightarrow> f x y)"
  by (cases p) simp

lemma keeps_Let: "keeps R (f x) \<Longrightarrow> keeps R (Let x f)"
  by (simp add: Let_def)

lemma keeps_for_each: "(\<And>x. x \<in> set xs \<Longrightarrow> keeps R (f x)) \<Longrightarrow> keeps R (for_each xs f)"
proof (induction xs)
  case Nil
  show ?case unfolding for_each.simps by (rule keeps_ret)
next
  case (Cons x xs)
  have "keeps R (f x)" and "keeps R (for_each xs f)"
    using Cons by simp_all
  then show ?case
    unfolding for_each.simps by (intro keeps_bind keeps_ret)
qed

lemmas keeps_combinators =
  keeps_ret keeps_raise keeps_gets keeps_check keeps_lift keeps_bind keeps_map_err
  keeps_or_else keeps_attempt keeps_ignore keeps_if keeps_case_sum keeps_case_option
  keeps_case_prod keeps_Let
  keeps_for_each

end

definition inv_rel :: "('s \<Rightarrow> bool) \<Rightarrow> 's \<Rightarrow> 's \<Rightarrow> bool" where
  "inv_rel I s t \<longleftrightarrow> (I s \<longrightarrow> I t)"

definition same :: "('s \<Rightarrow> 'v) \<Rightarrow> 's \<Rightarrow> 's \<Rightarrow> bool" where
  "same f s t \<longleftrightarrow> f t = f s"

interpretation inv: transition "inv_rel I" for I
  by unfold_locales (auto simp: inv_rel_def)

interpretation const: transition "same f" for f
  by unfold_locales (auto simp: same_def)

section \<open>Lists\<close>

lemma find_Some_iff':
  "find P xs = Some x \<Longrightarrow> P x \<and> x \<in> set xs"
  by (induction xs) (auto split: if_splits)

lemma find_None_filter: "find P xs = None \<longleftrightarrow> filter P xs = []"
  by (induction xs) auto

lemma filter_map_frame:
  "(\<And>x. x \<in> set xs \<Longrightarrow> P x \<Longrightarrow> f x = x) \<Longrightarrow> (\<And>x. x \<in> set xs \<Longrightarrow> P (f x) = P x) \<Longrightarrow>
   filter P (map f xs) = filter P xs"
  by (induction xs) auto

lemma filter_filter_frame:
  "(\<And>x. x \<in> set xs \<Longrightarrow> P x \<Longrightarrow> Q x) \<Longrightarrow> filter P (filter Q xs) = filter P xs"
  by (induction xs) auto

lemma find_map_key:
  "(\<And>x. x \<in> set xs \<Longrightarrow> P (f x) = P x) \<Longrightarrow> find P (map f xs) = map_option f (find P xs)"
  by (induction xs) auto

lemma distinct_map_unique:
  "distinct (map k xs) \<Longrightarrow> x \<in> set xs \<Longrightarrow> y \<in> set xs \<Longrightarrow> k x = k y \<Longrightarrow> x = y"
  by (simp add: distinct_map inj_on_def)

lemma find_unique:
  assumes "distinct (map k xs)" and "x \<in> set xs" and "P x" and "\<And>y. P y \<Longrightarrow> k y = k x"
  shows "find P xs = Some x"
proof (cases "find P xs")
  case None
  with assms(2,3) show ?thesis by (auto simp: find_None_iff)
next
  case (Some y)
  then have "P y" and "y \<in> set xs"
    by (auto dest: find_Some_iff')
  with assms have "y = x" by (metis distinct_map_unique)
  with Some show ?thesis by simp
qed

end
