(* ===== verification/GoStrings.thy ===== *)
theory GoStrings
  imports Prelude
begin

text \<open>
  The parts of Go's \<open>strings\<close>, \<open>strconv\<close> and \<open>unicode/utf8\<close> that the source uses.
  A Go string is a sequence of bytes, so \<open>string\<close> (a list of 8-bit characters) holds it and
  \<open>length\<close> is Go's \<open>len\<close>. Case mapping and white space are those of the ASCII range;
  bytes from 128 on are left as they are. \<open>runes\<close> is the loop \<open>for _, r := range s\<close>:
  it decodes UTF-8 as Go does, one U+FFFD for every byte that starts no valid sequence.
\<close>

section \<open>Characters\<close>

definition code :: "char \<Rightarrow> nat" where
  "code c = of_char c"

lemma code_less: "code c < 256"
proof -
  have "(of_char c :: nat) = of_char c mod 256" by simp
  also have "\<dots> < 256" by simp
  finally show ?thesis by (simp add: code_def)
qed

lemma code_char_of [simp]: "n < 256 \<Longrightarrow> code (char_of n) = n"
  by (simp add: code_def)

lemma char_of_code [simp]: "char_of (code c) = c"
  by (simp add: code_def)

lemma code_inject: "code c = code d \<longleftrightarrow> c = d"
  by (metis char_of_code)

definition is_upper :: "char \<Rightarrow> bool" where
  "is_upper c \<longleftrightarrow> 65 \<le> code c \<and> code c \<le> 90"

definition is_lower :: "char \<Rightarrow> bool" where
  "is_lower c \<longleftrightarrow> 97 \<le> code c \<and> code c \<le> 122"

definition is_digit :: "char \<Rightarrow> bool" where
  "is_digit c \<longleftrightarrow> 48 \<le> code c \<and> code c \<le> 57"

definition is_space :: "char \<Rightarrow> bool" where
  "is_space c \<longleftrightarrow> code c = 32 \<or> (9 \<le> code c \<and> code c \<le> 13)"

definition lower_char :: "char \<Rightarrow> char" where
  "lower_char c = (if is_upper c then char_of (code c + 32) else c)"

definition upper_char :: "char \<Rightarrow> char" where
  "upper_char c = (if is_lower c then char_of (code c - 32) else c)"

lemma lower_char_idem [simp]: "lower_char (lower_char c) = lower_char c"
  by (simp add: lower_char_def is_upper_def)

lemma is_space_lower_char [simp]: "is_space (lower_char c) = is_space c"
  by (simp add: lower_char_def is_upper_def is_space_def)

section \<open>The strings package\<close>

definition ToLower :: "string \<Rightarrow> string" where
  "ToLower s = map lower_char s"

definition ToUpper :: "string \<Rightarrow> string" where
  "ToUpper s = map upper_char s"

definition trim_if :: "(char \<Rightarrow> bool) \<Rightarrow> string \<Rightarrow> string" where
  "trim_if p s = rev (dropWhile p (rev (dropWhile p s)))"

definition TrimSpace :: "string \<Rightarrow> string" where
  "TrimSpace s = trim_if is_space s"

definition HasPrefix :: "string \<Rightarrow> string \<Rightarrow> bool" where
  "HasPrefix s p \<longleftrightarrow> take (length p) s = p"

definition TrimPrefix :: "string \<Rightarrow> string \<Rightarrow> string" where
  "TrimPrefix s p = (if HasPrefix s p then drop (length p) s else s)"

definition HasSuffix :: "string \<Rightarrow> string \<Rightarrow> bool" where
  "HasSuffix s p \<longleftrightarrow> length p \<le> length s \<and> drop (length s - length p) s = p"

definition TrimSuffix :: "string \<Rightarrow> string \<Rightarrow> string" where
  "TrimSuffix s p = (if HasSuffix s p then take (length s - length p) s else s)"

fun Index :: "string \<Rightarrow> string \<Rightarrow> nat option" where
  "Index [] sub = (if sub = [] then Some 0 else None)"
| "Index (c # cs) sub =
     (if HasPrefix (c # cs) sub then Some 0 else map_option Suc (Index cs sub))"

definition Contains :: "string \<Rightarrow> string \<Rightarrow> bool" where
  "Contains s sub \<longleftrightarrow> Index s sub \<noteq> None"

fun Split :: "string \<Rightarrow> char \<Rightarrow> string list" where
  "Split [] sep = [[]]"
| "Split (c # cs) sep =
     (if c = sep then [] # Split cs sep
      else (case Split cs sep of [] \<Rightarrow> [[c]] | x # xs \<Rightarrow> (c # x) # xs))"

fun SplitN2 :: "string \<Rightarrow> char \<Rightarrow> string list" where
  "SplitN2 [] sep = [[]]"
| "SplitN2 (c # cs) sep =
     (if c = sep then [[], cs]
      else (case SplitN2 cs sep of [] \<Rightarrow> [[c]] | x # xs \<Rightarrow> (c # x) # xs))"

fun Join :: "string list \<Rightarrow> string \<Rightarrow> string" where
  "Join [] sep = []"
| "Join [x] sep = x"
| "Join (x # y # ys) sep = x @ sep @ Join (y # ys) sep"

definition Repeat :: "string \<Rightarrow> nat \<Rightarrow> string" where
  "Repeat s n = concat (replicate n s)"

function ReplaceAll :: "string \<Rightarrow> string \<Rightarrow> string \<Rightarrow> string" where
  "ReplaceAll s old new =
     (case s of [] \<Rightarrow> []
      | c # cs \<Rightarrow>
        (if old \<noteq> [] \<and> HasPrefix s old then new @ ReplaceAll (drop (length old) s) old new
         else c # ReplaceAll cs old new))"
  by pat_completeness auto
termination
  by (relation "measure (\<lambda>(s, old, new). length s)") auto

declare ReplaceAll.simps [simp del]

lemma ToLower_idem [simp]: "ToLower (ToLower s) = ToLower s"
  by (simp add: ToLower_def)

lemma length_ToLower [simp]: "length (ToLower s) = length s"
  by (simp add: ToLower_def)

lemma dropWhile_hd: "dropWhile p s = [] \<or> \<not> p (hd (dropWhile p s))"
  by (induction s) auto

lemma trim_if_hd: "trim_if p s = [] \<or> \<not> p (hd (trim_if p s))"
proof -
  let ?t = "dropWhile p s"
  have "\<exists>zs. ?t = trim_if p s @ zs"
    unfolding trim_if_def
    by (metis rev_append rev_rev_ident takeWhile_dropWhile_id)
  then obtain zs where zs: "?t = trim_if p s @ zs" by blast
  show ?thesis
  proof (cases "trim_if p s")
    case (Cons c cs)
    with zs have t: "?t = c # cs @ zs" by simp
    with dropWhile_hd [of p s] have "\<not> p (hd ?t)" by (metis list.distinct(1))
    with t Cons show ?thesis by simp
  qed simp
qed

lemma trim_if_last: "trim_if p s = [] \<or> \<not> p (last (trim_if p s))"
proof -
  have "dropWhile p (rev (dropWhile p s)) = [] \<or> \<not> p (hd (dropWhile p (rev (dropWhile p s))))"
    by (rule dropWhile_hd)
  then show ?thesis by (auto simp: trim_if_def last_rev)
qed

lemma dropWhile_fix: "xs = [] \<or> \<not> p (hd xs) \<Longrightarrow> dropWhile p xs = xs"
  by (cases xs) auto

lemma trim_if_fix: "t = [] \<or> \<not> p (hd t) \<and> \<not> p (last t) \<Longrightarrow> trim_if p t = t"
  by (auto simp: trim_if_def dropWhile_fix hd_rev)

lemma trim_if_idem [simp]: "trim_if p (trim_if p s) = trim_if p s"
  using trim_if_hd [of p s] trim_if_last [of p s] by (intro trim_if_fix) auto

lemma TrimSpace_idem [simp]: "TrimSpace (TrimSpace s) = TrimSpace s"
  by (simp add: TrimSpace_def)

lemma set_trim_if: "set (trim_if p s) \<subseteq> set s"
  by (auto simp: trim_if_def dest!: set_dropWhileD)

lemma trim_if_Nil_iff: "trim_if p s = [] \<longleftrightarrow> (\<forall>c \<in> set s. p c)"
proof
  assume "trim_if p s = []"
  then have "\<forall>c \<in> set (dropWhile p s). p c"
    unfolding trim_if_def by (metis dropWhile_eq_Nil_conv rev_is_Nil_conv set_rev)
  then have "dropWhile p s = []"
    using dropWhile_hd [of p s] by (metis list.set_sel(1))
  then show "\<forall>c \<in> set s. p c" by (simp add: dropWhile_eq_Nil_conv)
next
  assume "\<forall>c \<in> set s. p c"
  then have "dropWhile p s = []" by (simp add: dropWhile_eq_Nil_conv)
  then show "trim_if p s = []" unfolding trim_if_def by (simp only: dropWhile.simps rev.simps)
qed

lemma dropWhile_map_lower: "dropWhile is_space (map lower_char s) = map lower_char (dropWhile is_space s)"
  by (induction s) auto

lemma TrimSpace_ToLower: "TrimSpace (ToLower s) = ToLower (TrimSpace s)"
  by (simp add: TrimSpace_def trim_if_def ToLower_def dropWhile_map_lower rev_map)

lemma HasPrefix_append [simp]: "HasPrefix (p @ s) p"
  by (simp add: HasPrefix_def)

lemma HasPrefix_iff: "HasPrefix s p \<longleftrightarrow> (\<exists>t. s = p @ t)"
  by (auto simp: HasPrefix_def) (metis append_take_drop_id)

lemma TrimPrefix_append [simp]: "TrimPrefix (p @ s) p = s"
  by (simp add: TrimPrefix_def)

lemma HasSuffix_append [simp]: "HasSuffix (s @ p) p"
  by (simp add: HasSuffix_def)

lemma TrimSuffix_append [simp]: "TrimSuffix (s @ p) p = s"
  by (simp add: TrimSuffix_def)

lemma Index_Some_append: "Index s sub = Some i \<Longrightarrow> i \<le> length s \<and> (\<exists>r. s = take i s @ sub @ r)"
proof (induction s arbitrary: i)
  case Nil
  then show ?case by (auto split: if_splits)
next
  case (Cons c cs)
  then show ?case
    by (auto simp: HasPrefix_iff split: if_splits)
qed

lemma Contains_iff: "Contains s sub \<longleftrightarrow> (\<exists>l r. s = l @ sub @ r)"
proof
  assume "Contains s sub"
  then show "\<exists>l r. s = l @ sub @ r"
    by (auto simp: Contains_def dest!: Index_Some_append)
next
  have hit: "Index (sub @ r) sub = Some 0" for r
    by (cases "sub @ r") (simp_all, metis HasPrefix_append)
  have "Index (l @ sub @ r) sub \<noteq> None" for l r
    by (induction l) (simp_all add: hit)
  then show "\<exists>l r. s = l @ sub @ r \<Longrightarrow> Contains s sub"
    by (auto simp: Contains_def)
qed

lemma Split_nonempty [simp]: "Split s sep \<noteq> []"
  by (induction s) (auto split: list.splits)

lemma Join_Split: "Join (Split s sep) [sep] = s"
proof (induction s)
  case Nil
  show ?case by simp
next
  case (Cons c cs)
  obtain x xs where x: "Split cs sep = x # xs"
    using Split_nonempty by (metis neq_Nil_conv)
  with Cons have "Join (x # xs) [sep] = cs" by simp
  then show ?case
    by (cases xs) (auto simp: x)
qed

lemma Split_no_sep: "sep \<notin> set s \<Longrightarrow> Split s sep = [s]"
  by (induction s) auto

lemma Split_append: "sep \<notin> set s \<Longrightarrow> Split (s @ sep # r) sep = s # Split r sep"
  by (induction s) auto

lemma Split_parts: "x \<in> set (Split s sep) \<Longrightarrow> sep \<notin> set x"
  by (induction s arbitrary: x) (auto split: list.splits if_splits)

section \<open>The strconv package\<close>

definition digit :: "nat \<Rightarrow> char" where
  "digit n = char_of (48 + n)"

definition digit_val :: "char \<Rightarrow> nat" where
  "digit_val c = code c - 48"

lemma is_digit_digit [simp]: "n < 10 \<Longrightarrow> is_digit (digit n)"
  by (simp add: is_digit_def digit_def)

lemma digit_val_digit [simp]: "n < 10 \<Longrightarrow> digit_val (digit n) = n"
  by (simp add: digit_val_def digit_def)

fun show_nat :: "nat \<Rightarrow> string" where
  "show_nat n = (if n < 10 then [digit n] else show_nat (n div 10) @ [digit (n mod 10)])"

declare show_nat.simps [simp del]

definition Itoa :: "int \<Rightarrow> string" where
  "Itoa n = (if n < 0 then CHR ''-'' # show_nat (nat (- n)) else show_nat (nat n))"

definition nat_of_digits :: "string \<Rightarrow> nat" where
  "nat_of_digits s = foldl (\<lambda>v c. v * 10 + digit_val c) 0 s"

definition int64_max :: int where
  "int64_max = 2 ^ 63 - 1"

definition int64_min :: int where
  "int64_min = - (2 ^ 63)"

text \<open>
  \<open>Atoi\<close> gives the value and whether the error is nil: a syntax error gives 0, a value out
  of the range of an int64 gives the nearest bound, both with an error.
\<close>

definition Atoi :: "string \<Rightarrow> int \<times> bool" where
  "Atoi s =
     (let (neg, ds) = (case s of [] \<Rightarrow> (False, [])
                       | c # cs \<Rightarrow> if c = CHR ''-'' then (True, cs)
                                  else if c = CHR ''+'' then (False, cs) else (False, c # cs));
          v = (if neg then - int (nat_of_digits ds) else int (nat_of_digits ds))
      in if ds = [] \<or> \<not> list_all is_digit ds then (0, False)
         else if v < int64_min then (int64_min, False)
         else if v > int64_max then (int64_max, False)
         else (v, True))"

definition ParseBool :: "string \<Rightarrow> bool option" where
  "ParseBool s =
     (if s \<in> set [''1'', ''t'', ''T'', ''TRUE'', ''true'', ''True''] then Some True
      else if s \<in> set [''0'', ''f'', ''F'', ''FALSE'', ''false'', ''False''] then Some False
      else None)"

lemma show_nat_digits: "list_all is_digit (show_nat n)"
proof (induction n rule: show_nat.induct)
  case (1 n)
  then show ?case by (subst show_nat.simps) auto
qed

lemma show_nat_nonempty [simp]: "show_nat n \<noteq> []"
  by (subst show_nat.simps) simp

lemma nat_of_digits_snoc [simp]: "nat_of_digits (s @ [c]) = nat_of_digits s * 10 + digit_val c"
  by (simp add: nat_of_digits_def)

lemma nat_of_digits_show [simp]: "nat_of_digits (show_nat n) = n"
proof (induction n rule: show_nat.induct)
  case (1 n)
  show ?case
  proof (cases "n < 10")
    case True
    then show ?thesis by (subst show_nat.simps) (simp add: nat_of_digits_def)
  next
    case False
    with "1" show ?thesis by (subst show_nat.simps) simp
  qed
qed

lemma hd_show_nat: "is_digit (hd (show_nat n))"
  using show_nat_digits [of n] by (cases "show_nat n") auto

lemma not_digit_signs: "\<not> is_digit (CHR ''-'')" "\<not> is_digit (CHR ''+'')"
  by (simp_all add: is_digit_def code_def)

lemma Atoi_show_nat: "int n \<le> int64_max \<Longrightarrow> Atoi (show_nat n) = (int n, True)"
proof -
  assume le: "int n \<le> int64_max"
  obtain c cs where s: "show_nat n = c # cs"
    using show_nat_nonempty by (metis neq_Nil_conv)
  with hd_show_nat [of n] have "c \<noteq> CHR ''-''" and "c \<noteq> CHR ''+''"
    using not_digit_signs by auto
  with s le show_nat_digits [of n] nat_of_digits_show [of n] show ?thesis
    by (simp add: Atoi_def int64_min_def)
qed

lemma Atoi_Itoa: "int64_min \<le> n \<Longrightarrow> n \<le> int64_max \<Longrightarrow> Atoi (Itoa n) = (n, True)"
proof (cases "n < 0")
  case True
  assume "int64_min \<le> n"
  with True show ?thesis
    by (simp add: Atoi_def Itoa_def show_nat_digits int64_max_def)
next
  case False
  assume "n \<le> int64_max"
  with False show ?thesis by (simp add: Itoa_def Atoi_show_nat)
qed

lemma Atoi_range: "int64_min \<le> fst (Atoi s) \<and> fst (Atoi s) \<le> int64_max"
  by (auto simp: Atoi_def int64_min_def int64_max_def Let_def split: prod.splits)

section \<open>UTF-8\<close>

definition cont :: "nat \<Rightarrow> nat \<Rightarrow> nat \<Rightarrow> bool" where
  "cont lo hi b \<longleftrightarrow> lo \<le> b \<and> b \<le> hi"

fun decode_rune :: "nat list \<Rightarrow> nat \<times> nat" where
  "decode_rune [] = (65533, 0)"
| "decode_rune (b # bs) =
     (if b < 128 then (b, 1)
      else if 194 \<le> b \<and> b \<le> 223 then
        (case bs of b1 # _ \<Rightarrow>
           if cont 128 191 b1 then ((b - 192) * 64 + (b1 - 128), 2) else (65533, 1)
         | [] \<Rightarrow> (65533, 1))
      else if 224 \<le> b \<and> b \<le> 239 then
        (case bs of b1 # b2 # _ \<Rightarrow>
           if cont (if b = 224 then 160 else 128) (if b = 237 then 159 else 191) b1 \<and> cont 128 191 b2
           then ((b - 224) * 4096 + (b1 - 128) * 64 + (b2 - 128), 3) else (65533, 1)
         | _ \<Rightarrow> (65533, 1))
      else if 240 \<le> b \<and> b \<le> 244 then
        (case bs of b1 # b2 # b3 # _ \<Rightarrow>
           if cont (if b = 240 then 144 else 128) (if b = 244 then 143 else 191) b1
              \<and> cont 128 191 b2 \<and> cont 128 191 b3
           then ((b - 240) * 262144 + (b1 - 128) * 4096 + (b2 - 128) * 64 + (b3 - 128), 4)
           else (65533, 1)
         | _ \<Rightarrow> (65533, 1))
      else (65533, 1))"

function rune_seq :: "nat list \<Rightarrow> nat list" where
  "rune_seq [] = []"
| "rune_seq (b # bs) =
     (let (r, w) = decode_rune (b # bs) in r # rune_seq (drop (w - 1) bs))"
  by pat_completeness auto
termination
  by (relation "measure length") auto

definition runes :: "string \<Rightarrow> nat list" where
  "runes s = rune_seq (map code s)"

lemma rune_seq_ascii: "\<forall>b \<in> set bs. b < 128 \<Longrightarrow> rune_seq bs = bs"
  by (induction bs) auto

lemma runes_ascii: "\<forall>c \<in> set s. code c < 128 \<Longrightarrow> runes s = map code s"
  by (simp add: runes_def rune_seq_ascii)

lemma length_rune_seq: "length (rune_seq bs) \<le> length bs"
proof (induction bs rule: rune_seq.induct)
  case 1
  show ?case by simp
next
  case (2 b bs)
  obtain r w where rw: "decode_rune (b # bs) = (r, w)" by fastforce
  have "length (rune_seq (drop (w - 1) bs)) \<le> length (drop (w - 1) bs)"
    using "2"[OF rw [symmetric]] by simp
  then show ?case by (simp add: rw del: decode_rune.simps)
qed

lemma length_runes: "length (runes s) \<le> length s"
  using length_rune_seq [of "map code s"] by (simp add: runes_def)

lemma rune_seq_Nil_iff [simp]: "rune_seq bs = [] \<longleftrightarrow> bs = []"
  by (cases bs) (auto split: prod.splits)

lemma runes_Nil_iff [simp]: "runes s = [] \<longleftrightarrow> s = []"
  by (simp add: runes_def)

end
