(* ===== verification/Httpx.thy ===== *)
theory Httpx
  imports GoStrings "HOL-Library.AList"
begin

text \<open>
  The package \<open>httpx\<close>: the error values the handlers return, the error envelope, field
  validation and the list parameters (\<open>envelope.go\<close>, \<open>bind.go\<close>, \<open>paginate.go\<close>,
  \<open>middleware.go\<close>). \<open>go_err\<close> is the type \<open>error\<close> of the program: an
  \<open>*APIError\<close>, an error of the router, the sentinels of the packages (each package has its
  own \<open>ErrNotFound\<close>, compared by identity) and the failures of the services called.
\<close>

section \<open>Errors\<close>

type_synonym fields = "(string \<times> string) list"

record api_error =
  ae_status :: int
  ae_code :: string
  ae_message :: string
  ae_fields :: "fields option"

datatype pkg = PAuth | PCatalog | PCustomers | PCoupons | POrders

datatype db_err = Unavailable | Violation | OutOfRange | BadOffset

datatype go_err =
    Api api_error
  | ErrHttp int "string option"
  | ErrNotFound pkg
  | ErrDb db_err
  | ErrInvalidHash
  | ErrInvalidToken
  | ErrNoTenant
  | ErrGatewayDisabled
  | ErrMsg string

definition BadRequest :: "string \<Rightarrow> go_err" where
  "BadRequest msg = Api \<lparr>ae_status = 400, ae_code = ''bad_request'', ae_message = msg, ae_fields = None\<rparr>"

definition Unauthorized :: "string \<Rightarrow> go_err" where
  "Unauthorized msg = Api \<lparr>ae_status = 401, ae_code = ''unauthorized'', ae_message = msg, ae_fields = None\<rparr>"

definition Forbidden :: "string \<Rightarrow> go_err" where
  "Forbidden msg = Api \<lparr>ae_status = 403, ae_code = ''forbidden'', ae_message = msg, ae_fields = None\<rparr>"

definition NotFound :: "string \<Rightarrow> go_err" where
  "NotFound msg = Api \<lparr>ae_status = 404, ae_code = ''not_found'', ae_message = msg, ae_fields = None\<rparr>"

definition Conflict :: "string \<Rightarrow> go_err" where
  "Conflict msg = Api \<lparr>ae_status = 409, ae_code = ''conflict'', ae_message = msg, ae_fields = None\<rparr>"

definition TooMany :: "string \<Rightarrow> go_err" where
  "TooMany msg = Api \<lparr>ae_status = 429, ae_code = ''rate_limited'', ae_message = msg, ae_fields = None\<rparr>"

definition internal_error :: "string \<Rightarrow> api_error" where
  "internal_error msg = \<lparr>ae_status = 500, ae_code = ''internal'', ae_message = msg, ae_fields = None\<rparr>"

definition Internal :: "string \<Rightarrow> go_err" where
  "Internal msg = Api (internal_error msg)"

definition Validation :: "fields \<Rightarrow> go_err" where
  "Validation fs =
     Api \<lparr>ae_status = 422, ae_code = ''validation_failed'', ae_message = ''validation failed'',
          ae_fields = Some fs\<rparr>"

text \<open>The text \<open>err.Error()\<close> of an error that a handler copies into its answer.\<close>

fun err_text :: "go_err \<Rightarrow> string" where
  "err_text (Api a) = ae_message a"
| "err_text (ErrMsg s) = s"
| "err_text (ErrNotFound _) = ''not found''"
| "err_text ErrInvalidHash = ''invalid password hash format''"
| "err_text ErrInvalidToken = ''invalid or expired token''"
| "err_text ErrNoTenant = ''tenancy: no tenant in context''"
| "err_text ErrGatewayDisabled = ''payment gateway disabled in v1 (manual proof flow)''"
| "err_text _ = ''''"

section \<open>The error envelope\<close>

text \<open>\<open>http.StatusText\<close>, for the statuses the router produces.\<close>

definition StatusText :: "int \<Rightarrow> string" where
  "StatusText n =
     (case map_of
        [(400, ''Bad Request''), (401, ''Unauthorized''), (403, ''Forbidden''),
         (404, ''Not Found''), (405, ''Method Not Allowed''), (408, ''Request Timeout''),
         (413, ''Request Entity Too Large''), (415, ''Unsupported Media Type''),
         (429, ''Too Many Requests''), (500, ''Internal Server Error''),
         (502, ''Bad Gateway''), (503, ''Service Unavailable'')] n
      of Some s \<Rightarrow> s | None \<Rightarrow> '''')"

record error_body =
  eb_code :: string
  eb_message :: string
  eb_fields :: "fields option"

definition to_api_error :: "go_err \<Rightarrow> api_error" where
  "to_api_error err =
     (case err of
        Api ae \<Rightarrow> ae
      | ErrHttp c m \<Rightarrow>
          \<lparr>ae_status = c, ae_code = ''http_error'',
           ae_message = (case m of Some s \<Rightarrow> s | None \<Rightarrow> StatusText c), ae_fields = None\<rparr>
      | _ \<Rightarrow> internal_error ''an unexpected error occurred'')"

text \<open>\<open>ErrorHandler\<close> writes nothing when the response is already committed.\<close>

definition ErrorHandler :: "go_err \<Rightarrow> bool \<Rightarrow> (int \<times> error_body) option" where
  "ErrorHandler err committed =
     (if committed then None
      else
        (let ae = to_api_error err
         in Some (ae_status ae,
                  \<lparr>eb_code = ae_code ae, eb_message = ae_message ae, eb_fields = ae_fields ae\<rparr>)))"

definition statusClass :: "int \<Rightarrow> string" where
  "statusClass status =
     (if status \<ge> 500 then ''5xx'' else if status \<ge> 400 then ''4xx''
      else if status \<ge> 300 then ''3xx'' else ''2xx'')"

text \<open>
  Errors of the database, the file system and the crypto packages carry no detail to the
  client: whatever they say, the answer is the same.
\<close>

definition opaque :: "go_err \<Rightarrow> bool" where
  "opaque err \<longleftrightarrow> (\<forall>a. err \<noteq> Api a) \<and> (\<forall>c m. err \<noteq> ErrHttp c m)"

lemma ErrorHandler_opaque:
  "opaque err \<Longrightarrow>
   ErrorHandler err False =
     Some (500, \<lparr>eb_code = ''internal'', eb_message = ''an unexpected error occurred'', eb_fields = None\<rparr>)"
  by (cases err) (auto simp: opaque_def ErrorHandler_def to_api_error_def internal_error_def)

section \<open>Validation\<close>

definition Require :: "string \<Rightarrow> string \<Rightarrow> fields \<Rightarrow> fields" where
  "Require field v fs = (if TrimSpace v = '''' then AList.update field ''is required'' fs else fs)"

definition Check :: "bool \<Rightarrow> string \<Rightarrow> string \<Rightarrow> fields \<Rightarrow> fields" where
  "Check cond field msg fs = (if cond then fs else AList.update field msg fs)"

definition Err :: "fields \<Rightarrow> go_err option" where
  "Err fs = (if fs = [] then None else Some (Validation fs))"

text \<open>\<open>if err := v.Err(); err != nil { return err }\<close>.\<close>

definition valid_or :: "fields \<Rightarrow> ('s, go_err, unit) act" where
  "valid_or fs = (case Err fs of None \<Rightarrow> ret () | Some e \<Rightarrow> raise e)"

lemma update_nonempty [simp]: "AList.update k v fs \<noteq> []"
  by (cases fs) auto

lemma Require_Nil_iff [simp]: "Require f v fs = [] \<longleftrightarrow> fs = [] \<and> TrimSpace v \<noteq> ''''"
  by (simp add: Require_def)

lemma Check_Nil_iff [simp]: "Check c f m fs = [] \<longleftrightarrow> fs = [] \<and> c"
  by (simp add: Check_def)

lemma Err_None_iff [simp]: "Err fs = None \<longleftrightarrow> fs = []"
  by (simp add: Err_def)

lemma valid_or_run [simp]: "valid_or fs s = (s, if fs = [] then Inr () else Inl (Validation fs))"
  by (simp add: valid_or_def Err_def)

lemma bind_valid_or:
  "bind_act (valid_or fs) f s = (if fs = [] then f () s else (s, Inl (Validation fs)))"
  by (simp add: bind_act_def)

lemma Require_field:
  "map_of (Require f v fs) g = (if TrimSpace v = '''' \<and> g = f then Some ''is required'' else map_of fs g)"
  by (simp add: Require_def update_conv')

lemma Check_field:
  "map_of (Check c f m fs) g = (if \<not> c \<and> g = f then Some m else map_of fs g)"
  by (simp add: Check_def update_conv')

section \<open>Pagination\<close>

record page =
  pg_limit :: int
  pg_offset :: int
  pg_search :: string

definition int_param :: "string \<Rightarrow> int \<Rightarrow> int" where
  "int_param v d = (if v \<noteq> '''' \<and> snd (Atoi v) then fst (Atoi v) else d)"

definition ParsePage :: "(string \<Rightarrow> string) \<Rightarrow> page" where
  "ParsePage query =
     (let limit = int_param (query ''limit'') (int_param (query ''perPage'') 20);
          offset = int_param (query ''offset'') 0;
          s = query ''queries[search]''
      in \<lparr>pg_limit = (if limit \<le> 0 \<or> limit > 100 then 20 else limit),
          pg_offset = (if offset < 0 then 0 else offset),
          pg_search = (if s = '''' then query ''search'' else s)\<rparr>)"

record 'r list_response =
  lr_records :: "'r list"
  lr_query_count :: nat
  lr_total_count :: nat

lemma ParsePage_bounds:
  "1 \<le> pg_limit (ParsePage q) \<and> pg_limit (ParsePage q) \<le> 100 \<and> 0 \<le> pg_offset (ParsePage q)"
  by (simp add: ParsePage_def Let_def)

lemma Itoa_nonempty [simp]: "Itoa n \<noteq> ''''"
  by (simp add: Itoa_def)

lemma int_param_Itoa:
  "int64_min \<le> n \<Longrightarrow> n \<le> int64_max \<Longrightarrow> int_param (Itoa n) d = n"
  by (simp add: int_param_def Atoi_Itoa)

section \<open>Responses\<close>

datatype 'r response = JSON int 'r | NoContent int | Blob int string string

fun resp_status :: "'r response \<Rightarrow> int" where
  "resp_status (JSON s _) = s"
| "resp_status (NoContent s) = s"
| "resp_status (Blob s _ _) = s"

text \<open>
  \<open>httpx.Bind\<close>: the decoding of the body by the router is the option given; None is
  \<open>c.Bind\<close> failing.
\<close>

definition Bind :: "'b option \<Rightarrow> ('s, go_err, 'b) act" where
  "Bind b = (case b of None \<Rightarrow> raise (BadRequest ''malformed request body'') | Some v \<Rightarrow> ret v)"

lemma Bind_run [simp]:
  "Bind b s = (s, case b of None \<Rightarrow> Inl (BadRequest ''malformed request body'') | Some v \<Rightarrow> Inr v)"
  by (simp add: Bind_def split: option.splits)

context transition
begin

lemma keeps_Bind: "keeps R (Bind b)"
  by (simp add: keeps_def stay)

lemma keeps_valid_or: "keeps R (valid_or fs)"
  by (simp add: keeps_def stay)

end

end
