(* ===== verification/Float64.thy ===== *)
theory Float64
  imports GoStrings "HOL-Library.Log_Nat" Complex_Main
begin

text \<open>
  Go's \<open>float64\<close>: the IEEE 754 binary64 values, with \<open>fl\<close> the rounding of an exact
  rational to the nearest value, ties to even, with gradual underflow and overflow to
  infinity. Every arithmetic operation is the exact operation followed by \<open>fl\<close>. The two
  zeros are one value here (they differ only in how they print and as divisors).
\<close>

datatype f64 = Fin rat | PInf | NInf | NaN

section \<open>Rounding\<close>

definition pow2 :: "int \<Rightarrow> rat" where
  "pow2 k = (if 0 \<le> k then 2 ^ nat k else 1 / 2 ^ nat (- k))"

lemma pow2_pos [simp]: "0 < pow2 k"
  by (simp add: pow2_def)

lemma pow2_nonneg [simp]: "0 \<le> pow2 k"
  by (rule less_imp_le) (rule pow2_pos)

lemma pow2_nz [simp]: "pow2 k \<noteq> 0"
  using less_imp_neq [OF pow2_pos [of k]] by metis

lemma pow2_powi: "pow2 k = 2 powi k"
  by (simp add: pow2_def power_int_def power_one_over)

lemma pow2_add: "pow2 (i + j) = pow2 i * pow2 j"
  by (simp add: pow2_powi power_int_add)

lemma pow2_diff: "pow2 (i - j) = pow2 i / pow2 j"
  by (simp add: pow2_powi power_int_diff)

lemma pow2_less: "i < j \<Longrightarrow> pow2 i < pow2 j"
  unfolding pow2_powi by (rule power_int_strict_increasing) auto

lemma pow2_less_iff: "pow2 i < pow2 j \<longleftrightarrow> i < j"
  using pow2_less [of i j] pow2_less [of j i] by (cases i j rule: linorder_cases) auto

definition flog2 :: "rat \<Rightarrow> int" where
  "flog2 x =
     (let (m, n) = quotient_of x; k = bitlen m - bitlen n
      in if pow2 k \<le> x then k else k - 1)"

definition round_even :: "rat \<Rightarrow> int" where
  "round_even x =
     (let f = \<lfloor>x\<rfloor>; d = x - of_int f
      in if d < 1 / 2 then f else if d > 1 / 2 then f + 1 else if even f then f else f + 1)"

definition fl :: "rat \<Rightarrow> f64" where
  "fl x =
     (if x = 0 then Fin 0
      else
        (let a = \<bar>x\<bar>; q = max (flog2 a - 52) (- 1074);
             y = of_int (round_even (a / pow2 q)) * pow2 q
         in if pow2 1024 \<le> y then (if x < 0 then NInf else PInf)
            else Fin (if x < 0 then - y else y)))"

lemma bitlen_le: "0 < m \<Longrightarrow> pow2 (bitlen m - 1) \<le> of_int m"
proof -
  assume m: "0 < m"
  then have b: "2 ^ nat (bitlen m - 1) \<le> m" using bitlen_bounds by blast
  have "0 \<le> bitlen m - 1" using m bitlen_nonneg [of m] bitlen_eq_zero_iff [of m] by linarith
  then have "pow2 (bitlen m - 1) = of_int (2 ^ nat (bitlen m - 1))"
    by (simp add: pow2_def)
  also have "\<dots> \<le> of_int m" using b of_int_le_iff by blast
  finally show ?thesis .
qed

lemma bitlen_gt: "0 < m \<Longrightarrow> of_int m < pow2 (bitlen m)"
proof -
  assume m: "0 < m"
  then have b: "m < 2 ^ nat (bitlen m)" using bitlen_bounds by blast
  have "(of_int m :: rat) < of_int (2 ^ nat (bitlen m))" using b of_int_less_iff by blast
  also have "\<dots> = pow2 (bitlen m)" by (simp add: pow2_def bitlen_nonneg)
  finally show ?thesis .
qed

lemma flog2_le:
  assumes "0 < x"
  shows "pow2 (flog2 x) \<le> x"
proof -
  obtain m n where mn: "quotient_of x = (m, n)" by fastforce
  have n: "0 < n" using mn by (rule quotient_of_denom_pos)
  have x: "x = of_int m / of_int n" using mn by (rule quotient_of_div)
  with assms n have m: "0 < m" by (simp add: zero_less_divide_iff)
  let ?k = "bitlen m - bitlen n"
  have "pow2 (?k - 1) = pow2 (bitlen m - 1) / pow2 (bitlen n)"
    by (simp flip: pow2_diff add: algebra_simps)
  also have "\<dots> \<le> of_int m / of_int n"
    using bitlen_le [OF m] bitlen_gt [OF n] m n by (intro frac_le) auto
  finally have "pow2 (?k - 1) \<le> x" by (simp add: x)
  then show ?thesis by (simp add: flog2_def mn Let_def)
qed

lemma flog2_gt:
  assumes "0 < x"
  shows "x < pow2 (flog2 x + 1)"
proof -
  obtain m n where mn: "quotient_of x = (m, n)" by fastforce
  have n: "0 < n" using mn by (rule quotient_of_denom_pos)
  have x: "x = of_int m / of_int n" using mn by (rule quotient_of_div)
  with assms n have m: "0 < m" by (simp add: zero_less_divide_iff)
  let ?k = "bitlen m - bitlen n"
  have "of_int m / of_int n < pow2 (bitlen m) / pow2 (bitlen n - 1)"
    using bitlen_gt [OF m] bitlen_le [OF n] m n by (intro frac_less) auto
  also have "\<dots> = pow2 (?k + 1)"
    by (simp flip: pow2_diff add: algebra_simps)
  finally have "x < pow2 (?k + 1)" by (simp add: x)
  then show ?thesis by (auto simp: flog2_def mn Let_def)
qed

lemma flog2_le_iff: "0 < x \<Longrightarrow> x < pow2 (k + 1) \<Longrightarrow> flog2 x \<le> k"
proof -
  assume "0 < x" and "x < pow2 (k + 1)"
  with flog2_le [of x] have "pow2 (flog2 x) < pow2 (k + 1)" by linarith
  then show ?thesis by (simp add: pow2_less_iff)
qed

lemma round_even_of_int [simp]: "round_even (of_int n) = n"
  by (simp add: round_even_def)

lemma round_even_nonneg: "0 \<le> x \<Longrightarrow> 0 \<le> round_even x"
  by (auto simp: round_even_def Let_def)

lemma round_even_error: "\<bar>of_int (round_even x) - x\<bar> \<le> 1 / 2"
proof -
  have "of_int \<lfloor>x\<rfloor> \<le> x" and "x < of_int \<lfloor>x\<rfloor> + 1"
    using floor_correct [of x] by simp_all
  then show ?thesis
    unfolding round_even_def Let_def by (simp split: if_splits)
qed

lemma round_even_unique: "\<bar>of_int n - x\<bar> < 1 / 2 \<Longrightarrow> round_even x = n"
proof -
  assume "\<bar>of_int n - x\<bar> < 1 / 2"
  with round_even_error [of x] have "\<bar>of_int (round_even x) - (of_int n :: rat)\<bar> < 1"
    by linarith
  then have "\<bar>(of_int (round_even x - n) :: rat)\<bar> < of_int 1" by simp
  then have "\<bar>round_even x - n\<bar> < 1" by (simp only: of_int_abs of_int_less_iff)
  then show ?thesis by simp
qed

lemma fl_zero [simp]: "fl 0 = Fin 0"
  by (simp add: fl_def)

text \<open>Integers of at most 53 bits are float64 values.\<close>

lemma fl_of_int: "\<bar>n\<bar> < 2 ^ 53 \<Longrightarrow> fl (of_int n) = Fin (of_int n)"
proof (cases "n = 0")
  case False
  assume b: "\<bar>n\<bar> < 2 ^ 53"
  let ?a = "\<bar>of_int n :: rat\<bar>" and ?q = "max (flog2 \<bar>of_int n :: rat\<bar> - 52) (- 1074)"
  have a: "0 < ?a" using False by simp
  have "(of_int \<bar>n\<bar> :: rat) < of_int (2 ^ 53)" using b of_int_less_iff by blast
  then have "?a < pow2 (52 + 1)" by (simp add: pow2_def)
  then have "flog2 ?a \<le> 52" using a by (intro flog2_le_iff)
  then have q: "?q \<le> 0" by simp
  have "?a / pow2 ?q = of_int (\<bar>n\<bar> * 2 ^ nat (- ?q))"
    using q by (simp add: pow2_def)
  then have "round_even (?a / pow2 ?q) = \<bar>n\<bar> * 2 ^ nat (- ?q)"
    by (simp only: round_even_of_int)
  then have "of_int (round_even (?a / pow2 ?q)) = ?a / pow2 ?q"
    using \<open>?a / pow2 ?q = of_int (\<bar>n\<bar> * 2 ^ nat (- ?q))\<close> by (simp only:)
  then have y: "of_int (round_even (?a / pow2 ?q)) * pow2 ?q = ?a"
    by simp
  have "?a < pow2 1024"
    using \<open>?a < pow2 (52 + 1)\<close> pow2_less [of 53 1024] by (simp add: order_less_trans)
  then have "fl (of_int n) = Fin (if (of_int n :: rat) < 0 then - ?a else ?a)"
    using False unfolding fl_def Let_def y by (simp only: of_int_eq_0_iff if_False not_le [symmetric])
  then show ?thesis by simp
qed simp

lemma fl_nonneg: "0 \<le> x \<Longrightarrow> fl x = PInf \<or> (\<exists>y \<ge> 0. fl x = Fin y)"
  by (auto simp: fl_def Let_def round_even_nonneg)

section \<open>Arithmetic and comparison\<close>

fun fadd :: "f64 \<Rightarrow> f64 \<Rightarrow> f64" where
  "fadd NaN _ = NaN"
| "fadd _ NaN = NaN"
| "fadd (Fin a) (Fin b) = fl (a + b)"
| "fadd PInf NInf = NaN"
| "fadd NInf PInf = NaN"
| "fadd PInf _ = PInf"
| "fadd _ PInf = PInf"
| "fadd NInf _ = NInf"
| "fadd _ NInf = NInf"

fun fneg :: "f64 \<Rightarrow> f64" where
  "fneg (Fin a) = Fin (- a)"
| "fneg PInf = NInf"
| "fneg NInf = PInf"
| "fneg NaN = NaN"

definition fsub :: "f64 \<Rightarrow> f64 \<Rightarrow> f64" where
  "fsub a b = fadd a (fneg b)"

definition finf :: "bool \<Rightarrow> f64" where
  "finf neg = (if neg then NInf else PInf)"

fun fsign :: "f64 \<Rightarrow> int" where
  "fsign (Fin a) = (if a < 0 then - 1 else if a = 0 then 0 else 1)"
| "fsign PInf = 1"
| "fsign NInf = - 1"
| "fsign NaN = 0"

fun fmul :: "f64 \<Rightarrow> f64 \<Rightarrow> f64" where
  "fmul (Fin a) (Fin b) = fl (a * b)"
| "fmul NaN _ = NaN"
| "fmul _ NaN = NaN"
| "fmul x y = (if fsign x = 0 \<or> fsign y = 0 then NaN else finf (fsign x * fsign y < 0))"

fun fdiv :: "f64 \<Rightarrow> f64 \<Rightarrow> f64" where
  "fdiv NaN _ = NaN"
| "fdiv _ NaN = NaN"
| "fdiv (Fin a) (Fin b) =
     (if b = 0 then (if a = 0 then NaN else finf (a < 0)) else fl (a / b))"
| "fdiv (Fin a) _ = Fin 0"
| "fdiv x (Fin b) = finf ((fsign x < 0) \<noteq> (b < 0))"
| "fdiv _ _ = NaN"

fun fle :: "f64 \<Rightarrow> f64 \<Rightarrow> bool" where
  "fle NaN _ = False"
| "fle _ NaN = False"
| "fle (Fin a) (Fin b) = (a \<le> b)"
| "fle NInf _ = True"
| "fle _ PInf = True"
| "fle _ _ = False"

definition feq :: "f64 \<Rightarrow> f64 \<Rightarrow> bool" where
  "feq a b \<longleftrightarrow> a = b \<and> a \<noteq> NaN"

definition flt :: "f64 \<Rightarrow> f64 \<Rightarrow> bool" where
  "flt a b \<longleftrightarrow> fle a b \<and> \<not> feq a b"

definition f64_of_int :: "int \<Rightarrow> f64" where
  "f64_of_int n = fl (of_int n)"

text \<open>
  \<open>int64(f)\<close> drops the fraction. Out of range Go leaves the value to the implementation;
  this is the one of amd64.
\<close>

fun int64_of :: "f64 \<Rightarrow> int" where
  "int64_of (Fin a) =
     (let n = (if 0 \<le> a then \<lfloor>a\<rfloor> else \<lceil>a\<rceil>)
      in if int64_min \<le> n \<and> n \<le> int64_max then n else int64_min)"
| "int64_of _ = int64_min"

lemma fadd_Fin_nonneg:
  "0 \<le> a \<Longrightarrow> 0 \<le> b \<Longrightarrow> fle (Fin 0) (fadd (Fin a) (Fin b))"
  using fl_nonneg [of "a + b"] by auto

lemma fle_zero_cases: "fle (Fin 0) x \<longleftrightarrow> x = PInf \<or> (\<exists>a \<ge> 0. x = Fin a)"
  by (cases x) auto

lemma fadd_nonneg: "fle (Fin 0) x \<Longrightarrow> fle (Fin 0) y \<Longrightarrow> fle (Fin 0) (fadd x y)"
  using fadd_Fin_nonneg by (fastforce simp: fle_zero_cases)

lemma fl_mul_nonneg: "0 \<le> a \<Longrightarrow> 0 \<le> b \<Longrightarrow> fle (Fin 0) (fl (a * b))"
  using fl_nonneg [of "a * b"] by auto

lemma f64_of_int_nonneg: "0 \<le> n \<Longrightarrow> fle (Fin 0) (f64_of_int n)"
  using fl_nonneg [of "of_int n"] by (auto simp: f64_of_int_def)

lemma f64_of_int_exact: "\<bar>n\<bar> < 2 ^ 53 \<Longrightarrow> f64_of_int n = Fin (of_int n)"
  by (simp add: f64_of_int_def fl_of_int)

lemma feq_Fin [simp]: "feq (Fin a) (Fin b) \<longleftrightarrow> a = b"
  by (simp add: feq_def)

section \<open>Printing with two decimals\<close>

text \<open>The verb \<open>%.2f\<close>: the exact value rounded to hundredths, ties to even.\<close>

definition pad0 :: "nat \<Rightarrow> string \<Rightarrow> string" where
  "pad0 w s = replicate (w - length s) (CHR ''0'') @ s"

definition show_cents :: "nat \<Rightarrow> string" where
  "show_cents n = show_nat (n div 100) @ ''.'' @ pad0 2 (show_nat (n mod 100))"

fun fmt2 :: "f64 \<Rightarrow> string" where
  "fmt2 (Fin a) = (if a < 0 then ''-'' else []) @ show_cents (nat (round_even (\<bar>a\<bar> * 100)))"
| "fmt2 PInf = ''+Inf''"
| "fmt2 NInf = ''-Inf''"
| "fmt2 NaN = ''NaN''"

end
