(* ===== verification/World.thy ===== *)
theory World
  imports Httpx Float64 "HOL-Library.Word"
begin

text \<open>
  The state every request works on and the services the code calls.

  \<^item> \<open>db\<close> holds the tables of \<open>api/internal/db/migrations/*.up.sql\<close>, each a list of rows
    in insertion order; \<open>db_ok\<close> is the constraints of those files. A statement of the
    source is a function on \<open>db\<close>; \<open>sql\<close> runs it as one atomic step, and a write that
    would break a constraint fails and leaves the tables as they were, as PostgreSQL does.
  \<^item> \<open>w_faults\<close> says for each coming statement whether the connection fails there, so
    the error branch of every call is reachable at every point (the list running out means
    no further failure).
  \<^item> \<open>w_now\<close> is the clock in nanoseconds, which a request reads as one instant;
    \<open>w_seed\<close> numbers the random identifiers drawn so far.
  \<^item> \<open>w_outbox\<close>, \<open>w_events\<close> and \<open>w_files\<close> are the messages sent, the events emitted and the
    files of the object store (path and bytes).
  \<^item> \<open>env\<close> is code that is not in the repository: the uuid package, pgx and the numeric
    columns, the operator ILIKE, the function \<open>lower\<close> of the database, and Go's \<open>EqualFold\<close> and
    \<open>ToLower\<close> where letters outside ASCII matter (their Unicode tables are not in the repository).
    They are parameters of every definition that uses them.
  Columns the Go code never reads (\<open>updated_at\<close>, \<open>legacy_user_id\<close>) are left out.
\<close>

type_synonym uuid = "128 word"
type_synonym time = int

definition uuid_Nil :: uuid where
  "uuid_Nil = 0"

definition Second :: int where
  "Second = 1000000000"

definition Hour :: int where
  "Hour = 3600 * Second"

record env =
  e_uuid_str :: "uuid \<Rightarrow> string"
  e_uuid_parse :: "string \<Rightarrow> uuid option"
  e_uuid_gen :: "nat \<Rightarrow> uuid"
  e_ilike :: "string \<Rightarrow> string \<Rightarrow> bool"
  e_sql_lower :: "string \<Rightarrow> string"
  e_equal_fold :: "string \<Rightarrow> string \<Rightarrow> bool"
  e_to_lower :: "string \<Rightarrow> string"
  e_num_enc :: "f64 \<Rightarrow> int option"
  e_num_dec :: "int \<Rightarrow> f64"

section \<open>Rows\<close>

text \<open>\<open>auth.Tenant\<close> has one field per column it reads, so it is the row as well.\<close>

record tenant =
  tn_id :: uuid
  tn_username :: string
  tn_email :: string
  tn_password_hash :: string
  tn_role :: string
  tn_full_name :: string
  tn_store_name :: string
  tn_phone :: string
  tn_email_verified :: bool
  tn_created :: time

record refresh_row =
  rf_tenant :: uuid
  rf_hash :: string
  rf_expires :: time
  rf_revoked :: "time option"

record auth_token_row =
  at_tenant :: uuid
  at_purpose :: string
  at_hash :: string
  at_expires :: time
  at_used :: "time option"

record category =
  ct_id :: uuid
  ct_tenant :: uuid
  ct_name :: string
  ct_desc :: string
  ct_created :: time

record product_row =
  pr_id :: uuid
  pr_tenant :: uuid
  pr_category :: "uuid option"
  pr_sku :: string
  pr_name :: string
  pr_desc :: string
  pr_price :: int
  pr_slug :: string
  pr_image :: string
  pr_status :: string
  pr_created :: time

record customer =
  cu_id :: uuid
  cu_tenant :: uuid
  cu_full_name :: string
  cu_ic_no :: string
  cu_dob :: "time option"
  cu_email :: string
  cu_contact_no :: string
  cu_mailing_addr :: string
  cu_city :: string
  cu_postcode :: string
  cu_state :: string
  cu_loyalty :: string
  cu_type :: string
  cu_created :: time

record coupon_row =
  cp_id :: uuid
  cp_tenant :: uuid
  cp_product :: "uuid option"
  cp_campaign :: string
  cp_desc :: string
  cp_expired :: "time option"
  cp_created :: time

record shipping_address =
  sa_mailing_addr :: string
  sa_mailing_addr2 :: string
  sa_city :: string
  sa_postcode :: string
  sa_state :: string

record order_row =
  or_id :: uuid
  or_tenant :: uuid
  or_customer :: "uuid option"
  or_status :: string
  or_full_name :: string
  or_email :: string
  or_contact_no :: string
  or_shipping :: shipping_address
  or_notes :: string
  or_total :: int
  or_expired :: time
  or_created :: time

record item_row =
  it_id :: uuid
  it_order :: uuid
  it_product :: "uuid option"
  it_sku :: string
  it_name :: string
  it_quantity :: int
  it_unit_price :: int
  it_line_total :: int

record payment_row =
  pm_id :: uuid
  pm_order :: uuid
  pm_proof_key :: string
  pm_amount :: int
  pm_status :: string
  pm_created :: time

record access_log_row =
  al_tenant :: "uuid option"
  al_ip :: string
  al_referrer :: string
  al_url :: string
  al_uri :: string
  al_user_agent :: string

record db =
  tenants :: "tenant list"
  refresh_tokens :: "refresh_row list"
  auth_tokens :: "auth_token_row list"
  categories :: "category list"
  products :: "product_row list"
  customers :: "customer list"
  coupons :: "coupon_row list"
  orders :: "order_row list"
  order_items :: "item_row list"
  payments :: "payment_row list"
  access_logs :: "access_log_row list"

definition empty_db :: db where
  "empty_db = \<lparr>tenants = [], refresh_tokens = [], auth_tokens = [], categories = [], products = [],
     customers = [], coupons = [], orders = [], order_items = [], payments = [], access_logs = []\<rparr>"

section \<open>Constraints\<close>

definition num12_2 :: "int \<Rightarrow> bool" where
  "num12_2 n \<longleftrightarrow> - (10 ^ 12) < n \<and> n < 10 ^ 12"

definition fk :: "'k list \<Rightarrow> 'k \<Rightarrow> bool" where
  "fk ids k \<longleftrightarrow> k \<in> set ids"

definition fk_opt :: "'k list \<Rightarrow> 'k option \<Rightarrow> bool" where
  "fk_opt ids k = (case k of None \<Rightarrow> True | Some i \<Rightarrow> i \<in> set ids)"

definition order_statuses :: "string list" where
  "order_statuses = [''pending'', ''payment_received'', ''payment_accepted'', ''shipped'', ''expired'',
     ''cancelled'', ''rejected'']"

definition tenants_ok :: "db \<Rightarrow> bool" where
  "tenants_ok d \<longleftrightarrow>
     distinct (map tn_id (tenants d)) \<and> distinct (map tn_username (tenants d)) \<and>
     distinct (map tn_email (tenants d)) \<and>
     list_all (\<lambda>t. tn_role t \<in> set [''seller'', ''operator'']) (tenants d)"

definition tokens_ok :: "db \<Rightarrow> bool" where
  "tokens_ok d \<longleftrightarrow>
     distinct (map rf_hash (refresh_tokens d)) \<and>
     list_all (\<lambda>r. fk (map tn_id (tenants d)) (rf_tenant r)) (refresh_tokens d) \<and>
     distinct (map at_hash (auth_tokens d)) \<and>
     list_all (\<lambda>r. fk (map tn_id (tenants d)) (at_tenant r) \<and>
                   at_purpose r \<in> set [''verify_email'', ''reset_password'']) (auth_tokens d)"

definition categories_ok :: "db \<Rightarrow> bool" where
  "categories_ok d \<longleftrightarrow>
     distinct (map ct_id (categories d)) \<and>
     distinct (map (\<lambda>c. (ct_tenant c, ct_name c)) (categories d)) \<and>
     list_all (\<lambda>c. fk (map tn_id (tenants d)) (ct_tenant c)) (categories d)"

definition products_ok :: "db \<Rightarrow> bool" where
  "products_ok d \<longleftrightarrow>
     distinct (map pr_id (products d)) \<and>
     distinct (map (\<lambda>p. (pr_tenant p, pr_sku p)) (products d)) \<and>
     list_all (\<lambda>p. fk (map tn_id (tenants d)) (pr_tenant p) \<and>
                   fk_opt (map ct_id (categories d)) (pr_category p) \<and>
                   0 \<le> pr_price p \<and> num12_2 (pr_price p) \<and>
                   pr_status p \<in> set [''active'', ''inactive'']) (products d)"

definition customers_ok :: "db \<Rightarrow> bool" where
  "customers_ok d \<longleftrightarrow>
     distinct (map cu_id (customers d)) \<and>
     distinct (map (\<lambda>c. (cu_tenant c, cu_loyalty c)) (customers d)) \<and>
     list_all (\<lambda>c. fk (map tn_id (tenants d)) (cu_tenant c)) (customers d)"

definition coupons_ok :: "db \<Rightarrow> bool" where
  "coupons_ok d \<longleftrightarrow>
     distinct (map cp_id (coupons d)) \<and>
     list_all (\<lambda>c. fk (map tn_id (tenants d)) (cp_tenant c) \<and>
                   fk_opt (map pr_id (products d)) (cp_product c)) (coupons d)"

definition orders_ok :: "db \<Rightarrow> bool" where
  "orders_ok d \<longleftrightarrow>
     distinct (map or_id (orders d)) \<and>
     list_all (\<lambda>r. fk (map tn_id (tenants d)) (or_tenant r) \<and>
                   fk_opt (map cu_id (customers d)) (or_customer r) \<and>
                   or_status r \<in> set order_statuses \<and>
                   0 \<le> or_total r \<and> num12_2 (or_total r)) (orders d)"

definition items_ok :: "db \<Rightarrow> bool" where
  "items_ok d \<longleftrightarrow>
     distinct (map it_id (order_items d)) \<and>
     list_all (\<lambda>r. fk (map or_id (orders d)) (it_order r) \<and>
                   fk_opt (map pr_id (products d)) (it_product r) \<and>
                   0 < it_quantity r \<and> it_quantity r < 2 ^ 31 \<and>
                   0 \<le> it_unit_price r \<and> num12_2 (it_unit_price r) \<and> num12_2 (it_line_total r))
       (order_items d)"

definition payments_ok :: "db \<Rightarrow> bool" where
  "payments_ok d \<longleftrightarrow>
     distinct (map pm_id (payments d)) \<and>
     list_all (\<lambda>r. fk (map or_id (orders d)) (pm_order r) \<and> num12_2 (pm_amount r) \<and>
                   pm_status r \<in> set [''submitted'', ''verified'', ''rejected'']) (payments d)"

definition db_ok :: "db \<Rightarrow> bool" where
  "db_ok d \<longleftrightarrow> tenants_ok d \<and> tokens_ok d \<and> categories_ok d \<and> products_ok d \<and> customers_ok d \<and>
     coupons_ok d \<and> orders_ok d \<and> items_ok d \<and> payments_ok d"

lemmas db_ok_defs =
  db_ok_def tenants_ok_def tokens_ok_def categories_ok_def products_ok_def customers_ok_def
  coupons_ok_def orders_ok_def items_ok_def payments_ok_def fk_def fk_opt_def num12_2_def

lemma db_ok_empty: "db_ok empty_db"
  by (simp add: db_ok_defs empty_db_def)

section \<open>The state of the service\<close>

record message =
  ms_to :: string
  ms_subject :: string
  ms_body :: string

record event =
  ev_type :: string
  ev_tenant :: uuid
  ev_source_type :: string
  ev_source_id :: string
  ev_occurred :: time

record world =
  w_db :: db
  w_now :: time
  w_seed :: nat
  w_faults :: "bool list"
  w_outbox :: "message list"
  w_events :: "event list"
  w_files :: "(string \<times> string) list"

type_synonym 'a go = "(world, go_err, 'a) act"

section \<open>Statements\<close>

definition sql :: "(db \<Rightarrow> db_err + 'a \<times> db) \<Rightarrow> 'a go" where
  "sql q w =
     (case w_faults w of
        True # fs \<Rightarrow> (w\<lparr>w_faults := fs\<rparr>, Inl (ErrDb Unavailable))
      | fs \<Rightarrow>
          (case q (w_db w) of
             Inl e \<Rightarrow> (w\<lparr>w_faults := tl fs\<rparr>, Inl (ErrDb e))
           | Inr (x, d) \<Rightarrow> (w\<lparr>w_faults := tl fs, w_db := d\<rparr>, Inr x)))"

definition sel :: "(db \<Rightarrow> 'a) \<Rightarrow> 'a go" where
  "sel f = sql (\<lambda>d. Inr (f d, d))"

definition commit :: "'a \<Rightarrow> db \<Rightarrow> db_err + 'a \<times> db" where
  "commit x d = (if db_ok d then Inr (x, d) else Inl Violation)"

definition update_rows :: "('r \<Rightarrow> bool) \<Rightarrow> ('r \<Rightarrow> 'r) \<Rightarrow> 'r list \<Rightarrow> 'r list" where
  "update_rows P f rs = map (\<lambda>r. if P r then f r else r) rs"

definition delete_rows :: "('r \<Rightarrow> bool) \<Rightarrow> 'r list \<Rightarrow> 'r list" where
  "delete_rows P rs = filter (\<lambda>r. \<not> P r) rs"

definition affected :: "('r \<Rightarrow> bool) \<Rightarrow> 'r list \<Rightarrow> nat" where
  "affected P rs = length (filter P rs)"

text \<open>
  \<open>ORDER BY k DESC\<close>; rows with the same key keep their order here, where PostgreSQL
  leaves it open. \<open>LIMIT\<close> and \<open>OFFSET\<close> refuse negative numbers.
\<close>

definition order_desc :: "('r \<Rightarrow> int) \<Rightarrow> 'r list \<Rightarrow> 'r list" where
  "order_desc k rs = sort_key (\<lambda>r. - k r) rs"

definition limit_offset :: "int \<Rightarrow> int \<Rightarrow> 'r list \<Rightarrow> db_err + 'r list" where
  "limit_offset lmt off rs =
     (if lmt < 0 \<or> off < 0 then Inl BadOffset else Inr (take (nat lmt) (drop (nat off) rs)))"

text \<open>
  \<open>pool.Begin\<close>, the statements, \<open>tx.Commit\<close>, with \<open>defer tx.Rollback\<close>: both ends
  are statements that may fail, and any failure restores the tables.
\<close>

definition transact :: "'a go \<Rightarrow> 'a go" where
  "transact m w =
     (case bind_act (sel (\<lambda>_. ())) (\<lambda>_. bind_act m (\<lambda>x. bind_act (sel (\<lambda>_. ())) (\<lambda>_. ret x))) w of
        (w', Inl e) \<Rightarrow> (w'\<lparr>w_db := w_db w\<rparr>, Inl e)
      | (w', Inr x) \<Rightarrow> (w', Inr x))"

definition new_uuid :: "'z env_scheme \<Rightarrow> uuid go" where
  "new_uuid E w = (w\<lparr>w_seed := Suc (w_seed w)\<rparr>, Inr (e_uuid_gen E (w_seed w)))"

definition now :: "time go" where
  "now = gets w_now"

definition num_arg :: "'z env_scheme \<Rightarrow> f64 \<Rightarrow> int go" where
  "num_arg E x = (case e_num_enc E x of None \<Rightarrow> raise (ErrDb OutOfRange) | Some n \<Rightarrow> ret n)"

definition emit :: "event \<Rightarrow> unit go" where
  "emit e = modify (\<lambda>w. w\<lparr>w_events := w_events w @ [e]\<rparr>)"

lemma sql_cases:
  "sql q w = (w', r) \<Longrightarrow>
     (w_db w' = w_db w \<and> (\<exists>e. r = Inl (ErrDb e))) \<or>
     (\<exists>x. q (w_db w) = Inr (x, w_db w') \<and> r = Inr x)"
  by (auto simp: sql_def split: list.splits bool.splits sum.splits prod.splits)

lemma sql_ok:
  "w_faults w = [] \<Longrightarrow>
   sql q w = (case q (w_db w) of Inl e \<Rightarrow> (w, Inl (ErrDb e)) | Inr (x, d) \<Rightarrow> (w\<lparr>w_db := d\<rparr>, Inr x))"
  by (auto simp: sql_def split: sum.splits prod.splits)

lemma sel_ok: "w_faults w = [] \<Longrightarrow> sel f w = (w, Inr (f (w_db w)))"
  by (simp add: sel_def sql_ok)

lemma sql_InrE:
  assumes "sql q w = (w', Inr x)"
  obtains "q (w_db w) = Inr (x, w_db w')"
  using sql_cases [OF assms] by auto

lemma sel_InrD: "sel f w = (w', Inr x) \<Longrightarrow> x = f (w_db w) \<and> w_db w' = w_db w"
  by (auto simp: sel_def dest: sql_cases)

lemma sel_db: "sel f w = (w', r) \<Longrightarrow> w_db w' = w_db w"
  by (auto simp: sel_def dest: sql_cases)

lemma sel_db' [simp]: "w_db (fst (sel f w)) = w_db w"
  by (metis prod.collapse sel_db)

lemma sql_frame:
  "w_now (fst (sql q w)) = w_now w" "w_seed (fst (sql q w)) = w_seed w"
  "w_outbox (fst (sql q w)) = w_outbox w" "w_events (fst (sql q w)) = w_events w"
  "w_files (fst (sql q w)) = w_files w"
  by (auto simp: sql_def split: list.splits bool.splits sum.splits prod.splits)

lemma sql_now: "sql q w = (w', r) \<Longrightarrow> w_now w' = w_now w"
  using sql_frame(1) [of q w] by simp

lemma sql_outbox: "sql q w = (w', r) \<Longrightarrow> w_outbox w' = w_outbox w"
  using sql_frame(3) [of q w] by simp

lemma sel_now: "sel f w = (w', r) \<Longrightarrow> w_now w' = w_now w"
  unfolding sel_def by (rule sql_now)

lemma commit_Inr_iff [simp]: "commit x d = Inr (y, d') \<longleftrightarrow> db_ok d \<and> x = y \<and> d' = d"
  by (auto simp: commit_def)

text \<open>\<open>on_db Q\<close>: the tables before and after are related by \<open>Q\<close>.\<close>

definition on_db :: "(db \<Rightarrow> db \<Rightarrow> bool) \<Rightarrow> world \<Rightarrow> world \<Rightarrow> bool" where
  "on_db Q w w' \<longleftrightarrow> Q (w_db w) (w_db w')"

lemma keeps_sql:
  "(\<And>d. Q d d) \<Longrightarrow> (\<And>d x d'. q d = Inr (x, d') \<Longrightarrow> Q d d') \<Longrightarrow> keeps (on_db Q) (sql q)"
  by (rule keepsI) (metis on_db_def prod.collapse sql_cases)

lemma keeps_sel: "(\<And>d. Q d d) \<Longrightarrow> keeps (on_db Q) (sel f)"
  by (simp add: keeps_def on_db_def)

lemma keeps_new_uuid: "(\<And>d. Q d d) \<Longrightarrow> keeps (on_db Q) (new_uuid E)"
  by (simp add: keeps_def on_db_def new_uuid_def)

lemma keeps_now: "(\<And>d. Q d d) \<Longrightarrow> keeps (on_db Q) now"
  by (simp add: keeps_def on_db_def now_def)

lemma keeps_num_arg: "(\<And>d. Q d d) \<Longrightarrow> keeps (on_db Q) (num_arg E x)"
  by (simp add: keeps_def on_db_def num_arg_def split: option.splits)

lemma keeps_emit: "(\<And>d. Q d d) \<Longrightarrow> keeps (on_db Q) (emit e)"
  by (simp add: keeps_def on_db_def emit_def)

text \<open>Actions that read the tables only.\<close>

definition same_db :: "world \<Rightarrow> world \<Rightarrow> bool" where
  "same_db w w' \<longleftrightarrow> w_db w' = w_db w"

interpretation rd: transition same_db
  by unfold_locales (auto simp: same_db_def)

abbreviation reads :: "'a go \<Rightarrow> bool" where
  "reads m \<equiv> keeps same_db m"

lemma reads_keeps: "reads m \<Longrightarrow> (\<And>d. Q d d) \<Longrightarrow> keeps (on_db Q) m"
  by (simp add: keeps_def on_db_def same_db_def)

lemma reads_db: "reads m \<Longrightarrow> w_db (fst (m w)) = w_db w"
  by (simp add: keeps_def same_db_def)

lemma reads_db': "reads m \<Longrightarrow> m w = (w', r) \<Longrightarrow> w_db w' = w_db w"
  using reads_db [of m w] by simp

lemma reads_sel: "reads (sel f)"
  by (simp add: keeps_def same_db_def)

lemma reads_now: "reads now"
  by (simp add: keeps_def same_db_def now_def)

lemma reads_new_uuid: "reads (new_uuid E)"
  by (simp add: keeps_def same_db_def new_uuid_def)

lemma reads_num_arg: "reads (num_arg E x)"
  by (simp add: keeps_def same_db_def num_arg_def split: option.splits)

lemma reads_emit: "reads (emit e)"
  by (simp add: keeps_def same_db_def emit_def)

lemma reads_modify: "(\<And>w. w_db (g w) = w_db w) \<Longrightarrow> reads (modify g)"
  by (simp add: keeps_def same_db_def)

lemma reads_ro: "(\<And>d x d'. q d = Inr (x, d') \<Longrightarrow> d' = d) \<Longrightarrow> reads (sql q)"
proof (rule keepsI)
  fix w :: world
  assume ro: "\<And>d x d'. q d = Inr (x, d') \<Longrightarrow> d' = d"
  obtain w' r where run: "sql q w = (w', r)" by fastforce
  from sql_cases [OF this] have "w_db w' = w_db w" by (auto dest: ro)
  with run show "same_db w (fst (sql q w))" by (simp add: same_db_def)
qed

lemmas reads_combinators = rd.keeps_combinators rd.keeps_Bind rd.keeps_valid_or
  reads_sel reads_now reads_new_uuid reads_num_arg reads_emit

lemma num_arg_run:
  "num_arg E x w = (w, case e_num_enc E x of None \<Rightarrow> Inl (ErrDb OutOfRange) | Some n \<Rightarrow> Inr n)"
  by (simp add: num_arg_def split: option.splits)

lemma new_uuid_run: "new_uuid E w = (w\<lparr>w_seed := Suc (w_seed w)\<rparr>, Inr (e_uuid_gen E (w_seed w)))"
  by (simp add: new_uuid_def)

lemma now_run: "now w = (w, Inr (w_now w))"
  by (simp add: now_def)

lemma emit_run: "emit e w = (w\<lparr>w_events := w_events w @ [e]\<rparr>, Inr ())"
  by (simp add: emit_def)

section \<open>A failed transaction changes no table\<close>

lemma transact_error: "transact m w = (w', Inl e) \<Longrightarrow> w_db w' = w_db w"
  by (auto simp: transact_def split: prod.splits sum.splits)

lemma transact_InrE:
  assumes "transact m w = (w', Inr x)"
  obtains w1 w2 where "w_db w1 = w_db w" and "m w1 = (w2, Inr x)" and "w_db w' = w_db w2"
proof -
  from assms
  have "bind_act (sel (\<lambda>_. ())) (\<lambda>_. bind_act m (\<lambda>x. bind_act (sel (\<lambda>_. ())) (\<lambda>_. ret x))) w = (w', Inr x)"
    by (auto simp: transact_def split: prod.splits sum.splits)
  then obtain w1 w2 w3 where "sel (\<lambda>_. ()) w = (w1, Inr ())" and "m w1 = (w2, Inr x)"
    and "sel (\<lambda>_. ()) w2 = (w3, Inr ())" and "w' = w3"
    by (auto simp: bind_Inr_iff)
  then show thesis using that by (auto dest: sel_db)
qed

lemma keeps_transact:
  assumes refl: "\<And>d. Q d d" and m: "keeps (on_db Q) m"
  shows "keeps (on_db Q) (transact m)"
proof (rule keepsI)
  fix w
  obtain w' r where run: "transact m w = (w', r)" by fastforce
  show "on_db Q w (fst (transact m w))"
  proof (cases r)
    case (Inl e)
    with run have "w_db w' = w_db w" by (auto dest: transact_error)
    with run refl show ?thesis by (simp add: on_db_def)
  next
    case (Inr x)
    with run obtain w1 w2 where "w_db w1 = w_db w" "m w1 = (w2, Inr x)" "w_db w' = w_db w2"
      by (auto elim: transact_InrE)
    with keepsD' [OF m] run show ?thesis by (fastforce simp: on_db_def)
  qed
qed

section \<open>Tables under updates\<close>

lemma update_rows_frame:
  "(\<And>r. r \<in> set rs \<Longrightarrow> V r \<Longrightarrow> \<not> P r) \<Longrightarrow> (\<And>r. r \<in> set rs \<Longrightarrow> P r \<Longrightarrow> V (f r) = V r) \<Longrightarrow>
   filter V (update_rows P f rs) = filter V rs"
  unfolding update_rows_def by (rule filter_map_frame) auto

lemma delete_rows_frame:
  "(\<And>r. r \<in> set rs \<Longrightarrow> V r \<Longrightarrow> \<not> P r) \<Longrightarrow> filter V (delete_rows P rs) = filter V rs"
  unfolding delete_rows_def by (rule filter_filter_frame) auto

lemma update_rows_hit: "r \<in> set rs \<Longrightarrow> P r \<Longrightarrow> f r \<in> set (update_rows P f rs)"
  by (force simp: update_rows_def)

lemma affected_0_iff: "affected P rs = 0 \<longleftrightarrow> (\<forall>r \<in> set rs. \<not> P r)"
  by (auto simp: affected_def filter_empty_conv)

lemma update_rows_id: "(\<And>r. r \<in> set rs \<Longrightarrow> \<not> P r) \<Longrightarrow> update_rows P f rs = rs"
  unfolding update_rows_def by (rule map_idI) auto

lemma delete_rows_id: "(\<And>r. r \<in> set rs \<Longrightarrow> \<not> P r) \<Longrightarrow> delete_rows P rs = rs"
  unfolding delete_rows_def by (rule filter_True) auto

lemma map_update_rows: "(\<And>r. k (f r) = k r) \<Longrightarrow> map k (update_rows P f rs) = map k rs"
  by (simp add: update_rows_def)

lemma set_order_desc [simp]: "set (order_desc k rs) = set rs"
  by (simp add: order_desc_def)

lemma length_order_desc [simp]: "length (order_desc k rs) = length rs"
  by (simp add: order_desc_def)

lemma order_desc_sorted: "sorted (map (\<lambda>r. - k r) (order_desc k rs))"
  by (simp add: order_desc_def)

lemma limit_offset_Inr:
  "limit_offset l f rs = Inr xs \<Longrightarrow> set xs \<subseteq> set rs \<and> length xs \<le> nat l"
  by (auto simp: limit_offset_def split: if_splits dest: in_set_takeD in_set_dropD)

end
