(* ===== verification/Tenancy.thy ===== *)
theory Tenancy
  imports World
begin

text \<open>
  The package \<open>tenancy\<close>, the identity a request carries, and what tenant isolation means
  for the tables. \<open>view P d\<close> is the part of the tables that belongs to the tenants in
  \<open>P\<close> (an order item or a payment belongs to the tenant of its order), and an action
  isolates tenant \<open>t\<close> when the view of everybody else is the same after it.
\<close>

record identity =
  idn_tenant :: uuid
  idn_role :: string
  idn_username :: string

definition no_identity :: identity where
  "no_identity = \<lparr>idn_tenant = uuid_Nil, idn_role = '''', idn_username = ''''\<rparr>"

definition From :: "identity option \<Rightarrow> go_err + identity" where
  "From ctx =
     (case ctx of None \<Rightarrow> Inl ErrNoTenant
      | Some i \<Rightarrow> if idn_tenant i = uuid_Nil then Inl ErrNoTenant else Inr i)"

definition MustTenant :: "identity option \<Rightarrow> go_err + uuid" where
  "MustTenant ctx = (case From ctx of Inl e \<Rightarrow> Inl e | Inr i \<Rightarrow> Inr (idn_tenant i))"

text \<open>\<open>id, _ := tenancy.From(ctx)\<close>: the zero identity when there is none.\<close>

definition identity_of :: "identity option \<Rightarrow> identity" where
  "identity_of ctx = (case From ctx of Inl _ \<Rightarrow> no_identity | Inr i \<Rightarrow> i)"

definition tid :: "identity option \<Rightarrow> uuid" where
  "tid ctx = idn_tenant (identity_of ctx)"

lemma tid_Some: "idn_tenant i \<noteq> uuid_Nil \<Longrightarrow> tid (Some i) = idn_tenant i"
  by (simp add: tid_def identity_of_def From_def)

section \<open>Views and isolation\<close>

definition order_ids :: "(uuid \<Rightarrow> bool) \<Rightarrow> db \<Rightarrow> uuid list" where
  "order_ids P d = map or_id (filter (\<lambda>r. P (or_tenant r)) (orders d))"

definition view :: "(uuid \<Rightarrow> bool) \<Rightarrow> db \<Rightarrow> db" where
  "view P d =
     \<lparr>tenants = filter (\<lambda>t. P (tn_id t)) (tenants d),
      refresh_tokens = filter (\<lambda>r. P (rf_tenant r)) (refresh_tokens d),
      auth_tokens = filter (\<lambda>r. P (at_tenant r)) (auth_tokens d),
      categories = filter (\<lambda>c. P (ct_tenant c)) (categories d),
      products = filter (\<lambda>p. P (pr_tenant p)) (products d),
      customers = filter (\<lambda>c. P (cu_tenant c)) (customers d),
      coupons = filter (\<lambda>c. P (cp_tenant c)) (coupons d),
      orders = filter (\<lambda>r. P (or_tenant r)) (orders d),
      order_items = filter (\<lambda>i. it_order i \<in> set (order_ids P d)) (order_items d),
      payments = filter (\<lambda>p. pm_order p \<in> set (order_ids P d)) (payments d),
      access_logs = []\<rparr>"

definition isolates_db :: "uuid \<Rightarrow> db \<Rightarrow> db \<Rightarrow> bool" where
  "isolates_db t d d' \<longleftrightarrow> (db_ok d \<longrightarrow> db_ok d' \<and> view (\<lambda>u. u \<noteq> t) d' = view (\<lambda>u. u \<noteq> t) d)"

definition isolates :: "uuid \<Rightarrow> world \<Rightarrow> world \<Rightarrow> bool" where
  "isolates t = on_db (isolates_db t)"

lemma isolates_db_refl [simp]: "isolates_db t d d"
  by (simp add: isolates_db_def)

lemma isolates_iff:
  "isolates t w w' \<longleftrightarrow>
     (db_ok (w_db w) \<longrightarrow> db_ok (w_db w') \<and> view (\<lambda>u. u \<noteq> t) (w_db w') = view (\<lambda>u. u \<noteq> t) (w_db w))"
  by (simp add: isolates_def on_db_def isolates_db_def)

interpretation iso: transition "isolates t" for t
  by unfold_locales (auto simp: isolates_iff)

lemma iso_sql: "(\<And>d x d'. q d = Inr (x, d') \<Longrightarrow> isolates_db t d d') \<Longrightarrow> keeps (isolates t) (sql q)"
  unfolding isolates_def by (rule keeps_sql) simp_all

lemma iso_sel: "keeps (isolates t) (sel f)"
  unfolding isolates_def by (rule keeps_sel) simp

lemma iso_new_uuid: "keeps (isolates t) (new_uuid E)"
  unfolding isolates_def by (rule keeps_new_uuid) simp

lemma iso_now: "keeps (isolates t) now"
  unfolding isolates_def by (rule keeps_now) simp

lemma iso_num_arg: "keeps (isolates t) (num_arg E x)"
  unfolding isolates_def by (rule keeps_num_arg) simp

lemma iso_emit: "keeps (isolates t) (emit e)"
  unfolding isolates_def by (rule keeps_emit) simp

lemma iso_transact: "keeps (isolates t) m \<Longrightarrow> keeps (isolates t) (transact m)"
  unfolding isolates_def by (rule keeps_transact) simp_all

lemma iso_modify_no_db: "(\<And>w. w_db (g w) = w_db w) \<Longrightarrow> keeps (isolates t) (modify g)"
  by (simp add: keeps_def isolates_iff)

lemmas iso_basics = iso_sel iso_new_uuid iso_now iso_num_arg iso_emit iso_transact
  iso.keeps_Bind iso.keeps_valid_or iso.keeps_combinators

lemma view_idem: "P = Q \<Longrightarrow> view P (view Q d) = view P d"
  by (auto simp: view_def order_ids_def)

lemma isolates_update_orders:
  assumes "\<And>r. r \<in> set (orders d) \<Longrightarrow> U r \<Longrightarrow> or_tenant r = t"
    and "\<And>r. or_id (f r) = or_id r \<and> or_tenant (f r) = or_tenant r"
  shows "view (\<lambda>u. u \<noteq> t) (d\<lparr>orders := update_rows U f (orders d)\<rparr>) = view (\<lambda>u. u \<noteq> t) d"
proof -
  have "filter (\<lambda>r. or_tenant r \<noteq> t) (update_rows U f (orders d)) = filter (\<lambda>r. or_tenant r \<noteq> t) (orders d)"
    by (rule update_rows_frame) (use assms in auto)
  then show ?thesis by (simp add: view_def order_ids_def)
qed

end
