(* ===== verification/AuthCrypto.thy ===== *)
theory AuthCrypto
  imports Tenancy
begin

text \<open>
  Password hashes, access tokens and the guards of \<open>api/internal/auth\<close>
  (\<open>argon2.go\<close>, \<open>jwt.go\<close>, \<open>middleware.go\<close>). Argon2, SHA-256, the random source
  and the JWT library are parameters (\<open>auth_env\<close>); the encoding of a hash as a string and
  its parsing, base64 and hex included, are written out.
\<close>

datatype jwt_method = MethodHMAC | MethodOther string

record claims =
  cl_tenant :: string
  cl_role :: string
  cl_username :: string
  cl_subject :: string
  cl_expires :: int
  cl_issued :: int
  cl_issuer :: string

record auth_env = env +
  e_sha256 :: "string \<Rightarrow> string"
  e_argon2 :: "string \<Rightarrow> string \<Rightarrow> nat \<Rightarrow> nat \<Rightarrow> nat \<Rightarrow> nat \<Rightarrow> string"
  e_rand :: "nat \<Rightarrow> nat \<Rightarrow> string option"
  e_jwt_sign :: "string \<Rightarrow> claims \<Rightarrow> string option"
  e_jwt_parse :: "(jwt_method \<Rightarrow> go_err + string) \<Rightarrow> time \<Rightarrow> string \<Rightarrow> claims option"

section \<open>Hexadecimal and base64 without padding\<close>

definition hex_digit :: "nat \<Rightarrow> char" where
  "hex_digit n = char_of (if n < 10 then 48 + n else 87 + n)"

definition hex_encode :: "string \<Rightarrow> string" where
  "hex_encode s = concat (map (\<lambda>c. [hex_digit (code c div 16), hex_digit (code c mod 16)]) s)"

definition b64_char :: "nat \<Rightarrow> char" where
  "b64_char n =
     char_of (if n < 26 then 65 + n else if n < 52 then 71 + n else if n < 62 then n - 4
              else if n = 62 then 43 else 47)"

definition b64_val :: "char \<Rightarrow> nat option" where
  "b64_val c =
     (let k = code c in
      if 65 \<le> k \<and> k \<le> 90 then Some (k - 65)
      else if 97 \<le> k \<and> k \<le> 122 then Some (k - 71)
      else if 48 \<le> k \<and> k \<le> 57 then Some (k + 4)
      else if k = 43 then Some 62 else if k = 47 then Some 63 else None)"

fun b64_groups :: "nat list \<Rightarrow> nat list" where
  "b64_groups [] = []"
| "b64_groups [a] = [a div 4, (a mod 4) * 16]"
| "b64_groups [a, b] = [a div 4, (a mod 4) * 16 + b div 16, (b mod 16) * 4]"
| "b64_groups (a # b # c # r) =
     [a div 4, (a mod 4) * 16 + b div 16, (b mod 16) * 4 + c div 64, c mod 64] @ b64_groups r"

fun b64_ungroup :: "nat list \<Rightarrow> nat list option" where
  "b64_ungroup [] = Some []"
| "b64_ungroup [w] = None"
| "b64_ungroup [w, x] = Some [w * 4 + x div 16]"
| "b64_ungroup [w, x, y] = Some [w * 4 + x div 16, (x mod 16) * 16 + y div 4]"
| "b64_ungroup (w # x # y # z # r) =
     map_option (\<lambda>t. [w * 4 + x div 16, (x mod 16) * 16 + y div 4, (y mod 4) * 64 + z] @ t) (b64_ungroup r)"

fun map_opt :: "('a \<Rightarrow> 'b option) \<Rightarrow> 'a list \<Rightarrow> 'b list option" where
  "map_opt f [] = Some []"
| "map_opt f (x # xs) =
     (case f x of None \<Rightarrow> None | Some y \<Rightarrow> map_option (\<lambda>ys. y # ys) (map_opt f xs))"

definition RawStdEncode :: "string \<Rightarrow> string" where
  "RawStdEncode s = map b64_char (b64_groups (map code s))"

text \<open>The decoder skips line ends, and does not ask that the bits left over are zero.\<close>

definition RawStdDecode :: "string \<Rightarrow> string option" where
  "RawStdDecode s =
     (case map_opt b64_val (filter (\<lambda>c. code c \<noteq> 10 \<and> code c \<noteq> 13) s) of
        None \<Rightarrow> None
      | Some vs \<Rightarrow> map_option (map char_of) (b64_ungroup vs))"

lemma b64_val_char [simp]: "n < 64 \<Longrightarrow> b64_val (b64_char n) = Some n"
  by (auto simp: b64_val_def b64_char_def Let_def)

lemma b64_char_neq: "n < 64 \<Longrightarrow> code (b64_char n) \<noteq> 10 \<and> code (b64_char n) \<noteq> 13 \<and> code (b64_char n) \<noteq> 36"
  by (auto simp: b64_char_def)

lemma b64_groups_less: "\<forall>b \<in> set bs. b < 256 \<Longrightarrow> \<forall>v \<in> set (b64_groups bs). v < 64"
proof (induction bs rule: b64_groups.induct)
  case (4 a b c r)
  then have "a < 256" "b < 256" "c < 256" and r: "\<forall>v \<in> set (b64_groups r). v < 64" by simp_all
  moreover have "a mod 4 < 4" "b mod 16 < 16" "c mod 64 < 64" by simp_all
  moreover have "a div 4 < 64" "b div 16 < 16" "c div 64 < 4" using calculation by simp_all
  ultimately show ?case by auto
next
  case (3 a b)
  then have "a < 256" "b < 256" by simp_all
  then have "a div 4 < 64" "b div 16 < 16" "a mod 4 < 4" "b mod 16 < 16" by simp_all
  then show ?case by auto
next
  case (2 a)
  then have "a div 4 < 64" "a mod 4 < 4" by simp_all
  then show ?case by auto
qed simp

lemma b64_ungroup_groups: "\<forall>b \<in> set bs. b < 256 \<Longrightarrow> b64_ungroup (b64_groups bs) = Some bs"
proof (induction bs rule: b64_groups.induct)
  case (4 a b c r)
  then have "a < 256" "b < 256" "c < 256" by simp_all
  then have "b div 16 < 16" "c div 64 < 4" by simp_all
  with "4" show ?case by simp
next
  case (3 a b)
  then have "b < 256" by simp
  then have "b div 16 < 16" by simp
  then show ?case by simp
qed simp_all

lemma map_opt_Some: "(\<And>x. x \<in> set xs \<Longrightarrow> f (g x) = Some x) \<Longrightarrow> map_opt f (map g xs) = Some xs"
  by (induction xs) auto

lemma RawStdDecode_Encode: "RawStdDecode (RawStdEncode s) = Some s"
proof -
  let ?bs = "map code s"
  have lt: "\<forall>b \<in> set ?bs. b < 256" by (simp add: code_less)
  have v: "\<forall>v \<in> set (b64_groups ?bs). v < 64" using lt by (rule b64_groups_less)
  have "filter (\<lambda>c. code c \<noteq> 10 \<and> code c \<noteq> 13) (RawStdEncode s) = RawStdEncode s"
    using v b64_char_neq by (auto simp: RawStdEncode_def filter_id_conv)
  moreover have "map_opt b64_val (RawStdEncode s) = Some (b64_groups ?bs)"
    unfolding RawStdEncode_def using v by (intro map_opt_Some) simp
  moreover have "map char_of ?bs = s" by (simp add: map_idI)
  ultimately show ?thesis
    by (simp add: RawStdDecode_def b64_ungroup_groups [OF lt])
qed

lemma RawStdEncode_no_dollar: "CHR ''$'' \<notin> set (RawStdEncode s)"
proof
  assume "CHR ''$'' \<in> set (RawStdEncode s)"
  then obtain v where v: "v \<in> set (b64_groups (map code s))" and eq: "CHR ''$'' = b64_char v"
    by (auto simp: RawStdEncode_def)
  have "v < 64" using v b64_groups_less [of "map code s"] code_less by auto
  then have "code (b64_char v) \<noteq> 36" using b64_char_neq by blast
  with eq show False by (simp add: code_def flip: eq)
qed

section \<open>Password hashes (argon2.go)\<close>

record argon2_params =
  ap_memory :: nat
  ap_iterations :: nat
  ap_parallelism :: nat
  ap_salt_length :: nat
  ap_key_length :: nat

definition defaultParams :: argon2_params where
  "defaultParams = \<lparr>ap_memory = 64 * 1024, ap_iterations = 3, ap_parallelism = 2,
     ap_salt_length = 16, ap_key_length = 32\<rparr>"

text \<open>\<open>argon2.Version\<close> is 0x13.\<close>

definition argon2_version :: nat where
  "argon2_version = 19"

definition encode_hash :: "argon2_params \<Rightarrow> string \<Rightarrow> string \<Rightarrow> string" where
  "encode_hash p salt hash =
     ''$argon2id$v='' @ show_nat argon2_version @ ''$m='' @ show_nat (ap_memory p) @ '',t='' @
     show_nat (ap_iterations p) @ '',p='' @ show_nat (ap_parallelism p) @ ''$'' @
     RawStdEncode salt @ ''$'' @ RawStdEncode hash"

definition rand_bytes :: "'z auth_env_scheme \<Rightarrow> nat \<Rightarrow> string go" where
  "rand_bytes E n w =
     (w\<lparr>w_seed := Suc (w_seed w)\<rparr>,
      case e_rand E (w_seed w) n of None \<Rightarrow> Inl (ErrMsg ''rand'') | Some s \<Rightarrow> Inr s)"

definition HashPassword :: "'z auth_env_scheme \<Rightarrow> string \<Rightarrow> string go" where
  "HashPassword E password =
     (let p = defaultParams in
      bind_act (rand_bytes E (ap_salt_length p)) (\<lambda>salt.
        ret (encode_hash p salt
               (e_argon2 E password salt (ap_iterations p) (ap_memory p) (ap_parallelism p)
                  (ap_key_length p)))))"

text \<open>
  \<open>fmt.Sscanf\<close> with literal text and the verb \<open>%d\<close>: a literal has to match, a number
  may follow blanks, has at least one digit and has to fit its type; what follows the format
  is not looked at.
\<close>

definition scan_lit :: "string \<Rightarrow> string \<Rightarrow> string option" where
  "scan_lit lit s = (if HasPrefix s lit then Some (drop (length lit) s) else None)"

definition skip_blanks :: "string \<Rightarrow> string" where
  "skip_blanks s = dropWhile (\<lambda>c. is_space c \<and> code c \<noteq> 10 \<and> code c \<noteq> 13) s"

definition scan_uint :: "nat \<Rightarrow> string \<Rightarrow> (nat \<times> string) option" where
  "scan_uint bound s =
     (let t = skip_blanks s; ds = takeWhile is_digit t; n = nat_of_digits ds
      in if ds = [] \<or> bound < n then None else Some (n, dropWhile is_digit t))"

definition scan_int :: "string \<Rightarrow> (int \<times> string) option" where
  "scan_int s =
     (let t = skip_blanks s;
          (neg, u) = (case t of [] \<Rightarrow> (False, [])
                      | c # cs \<Rightarrow> if c = CHR ''-'' then (True, cs)
                                 else if c = CHR ''+'' then (False, cs) else (False, t));
          ds = takeWhile is_digit u;
          n = (if neg then - int (nat_of_digits ds) else int (nat_of_digits ds))
      in if ds = [] \<or> n < int64_min \<or> int64_max < n then None else Some (n, dropWhile is_digit u))"

definition scan_version :: "string \<Rightarrow> int option" where
  "scan_version s = Option.bind (scan_lit ''v='' s) (\<lambda>r. map_option fst (scan_int r))"

definition uint32_max :: nat where
  "uint32_max = 2 ^ 32 - 1"

definition uint8_max :: nat where
  "uint8_max = 2 ^ 8 - 1"

definition scan_params :: "string \<Rightarrow> (nat \<times> nat \<times> nat) option" where
  "scan_params s =
     Option.bind (scan_lit ''m='' s) (\<lambda>r1. Option.bind (scan_uint uint32_max r1) (\<lambda>(m, r2).
     Option.bind (scan_lit '',t='' r2) (\<lambda>r3. Option.bind (scan_uint uint32_max r3) (\<lambda>(t, r4).
     Option.bind (scan_lit '',p='' r4) (\<lambda>r5. Option.bind (scan_uint uint8_max r5) (\<lambda>(p, _).
     Some (m, t, p)))))))"

definition VerifyPassword :: "'z auth_env_scheme \<Rightarrow> string \<Rightarrow> string \<Rightarrow> go_err + bool" where
  "VerifyPassword E password encoded =
     (let parts = Split encoded (CHR ''$'') in
      if length parts \<noteq> 6 \<or> parts ! 1 \<noteq> ''argon2id'' then Inl ErrInvalidHash
      else (case scan_version (parts ! 2) of None \<Rightarrow> Inl ErrInvalidHash
      | Some version \<Rightarrow> (case scan_params (parts ! 3) of None \<Rightarrow> Inl ErrInvalidHash
      | Some (memory, iterations, parallelism) \<Rightarrow>
        (case RawStdDecode (parts ! 4) of None \<Rightarrow> Inl ErrInvalidHash
      | Some salt \<Rightarrow> (case RawStdDecode (parts ! 5) of None \<Rightarrow> Inl ErrInvalidHash
      | Some want \<Rightarrow>
          (let keyLength = length want mod 2 ^ 32;
               got = e_argon2 E password salt iterations memory parallelism keyLength
           in Inr (want = got)))))))"

lemma takeWhile_digits_append:
  "list_all is_digit ds \<Longrightarrow> r = [] \<or> \<not> is_digit (hd r) \<Longrightarrow>
   takeWhile is_digit (ds @ r) = ds \<and> dropWhile is_digit (ds @ r) = r"
  by (induction ds) (cases r; auto)+

lemma digit_not_space: "is_digit c \<Longrightarrow> \<not> is_space c"
  by (auto simp: is_digit_def is_space_def)

lemma skip_blanks_show_nat [simp]: "skip_blanks (show_nat n @ r) = show_nat n @ r"
proof -
  obtain c cs where s: "show_nat n = c # cs" using show_nat_nonempty by (metis neq_Nil_conv)
  with hd_show_nat [of n] have "\<not> is_space c" by (simp add: digit_not_space)
  with s show ?thesis by (simp add: skip_blanks_def)
qed

lemma scan_uint_show:
  "n \<le> bound \<Longrightarrow> r = [] \<or> \<not> is_digit (hd r) \<Longrightarrow> scan_uint bound (show_nat n @ r) = Some (n, r)"
  by (simp add: scan_uint_def Let_def takeWhile_digits_append show_nat_digits)

lemma scan_int_show: "int n \<le> int64_max \<Longrightarrow> scan_int (show_nat n) = Some (int n, [])"
proof -
  assume le: "int n \<le> int64_max"
  obtain c cs where s: "show_nat n = c # cs" using show_nat_nonempty by (metis neq_Nil_conv)
  with hd_show_nat [of n] have "c \<noteq> CHR ''-''" and "c \<noteq> CHR ''+''" using not_digit_signs by auto
  moreover have "takeWhile is_digit (show_nat n) = show_nat n" and "dropWhile is_digit (show_nat n) = []"
    using takeWhile_digits_append [OF show_nat_digits, of "[]" n] by simp_all
  moreover have "skip_blanks (show_nat n) = show_nat n" using skip_blanks_show_nat [of n "[]"] by simp
  ultimately show ?thesis using s le nat_of_digits_show [of n]
    by (simp add: scan_int_def Let_def int64_min_def)
qed

lemma scan_lit_append [simp]: "scan_lit l (l @ s) = Some s"
  by (simp add: scan_lit_def)

lemma scan_params_show:
  assumes "m \<le> uint32_max" "t \<le> uint32_max" "p \<le> uint8_max"
  shows "scan_params (''m='' @ show_nat m @ '',t='' @ show_nat t @ '',p='' @ show_nat p) = Some (m, t, p)"
proof -
  have comma: "\<not> is_digit (CHR '','')" by (simp add: is_digit_def code_def)
  have 1: "scan_uint uint32_max (show_nat m @ '',t='' @ show_nat t @ '',p='' @ show_nat p)
      = Some (m, '',t='' @ show_nat t @ '',p='' @ show_nat p)"
    using assms(1) comma by (intro scan_uint_show) simp_all
  have 2: "scan_uint uint32_max (show_nat t @ '',p='' @ show_nat p) = Some (t, '',p='' @ show_nat p)"
    using assms(2) comma by (intro scan_uint_show) simp_all
  have 3: "scan_uint uint8_max (show_nat p) = Some (p, [])"
    using scan_uint_show [OF assms(3), of "[]"] by simp
  show ?thesis
    unfolding scan_params_def scan_lit_append Option.bind.bind_lunit 1 prod.case 2 3 ..
qed

lemma digit_no_dollar: "CHR ''$'' \<notin> set (show_nat n)"
proof
  assume "CHR ''$'' \<in> set (show_nat n)"
  then have "is_digit (CHR ''$'')" using show_nat_digits [of n] by (auto simp: list_all_iff)
  then show False by (simp add: is_digit_def code_def)
qed

lemma Split_encode_hash:
  "Split (encode_hash p salt hash) (CHR ''$'') =
     ['''', ''argon2id'', ''v='' @ show_nat argon2_version,
      ''m='' @ show_nat (ap_memory p) @ '',t='' @ show_nat (ap_iterations p) @ '',p='' @
      show_nat (ap_parallelism p), RawStdEncode salt, RawStdEncode hash]"
proof -
  let ?v = "''v='' @ show_nat argon2_version"
  let ?m = "''m='' @ show_nat (ap_memory p) @ '',t='' @ show_nat (ap_iterations p) @ '',p='' @
      show_nat (ap_parallelism p)"
  let ?d = "CHR ''$''"
  have "encode_hash p salt hash = [] @ ?d # (''argon2id'' @ ?d # (?v @ ?d # (?m @ ?d #
      (RawStdEncode salt @ ?d # RawStdEncode hash))))"
    by (simp add: encode_hash_def)
  moreover have "?d \<notin> set []" "?d \<notin> set ''argon2id''" "?d \<notin> set ?v" "?d \<notin> set ?m"
    using digit_no_dollar by simp_all
  ultimately show ?thesis
    by (simp only: Split_append Split_no_sep RawStdEncode_no_dollar not_False_eq_True)
qed

lemma VerifyPassword_encode_hash:
  assumes "ap_memory p \<le> uint32_max" "ap_iterations p \<le> uint32_max" "ap_parallelism p \<le> uint8_max"
  shows "VerifyPassword E pw (encode_hash p salt hash) =
     Inr (hash = e_argon2 E pw salt (ap_iterations p) (ap_memory p) (ap_parallelism p)
                   (length hash mod 2 ^ 32))"
proof -
  have "scan_version (''v='' @ show_nat argon2_version) = Some (int argon2_version)"
    unfolding scan_version_def scan_lit_append
    by (simp add: scan_int_show argon2_version_def int64_max_def)
  moreover note scan_params_show [OF assms]
  ultimately show ?thesis
    unfolding VerifyPassword_def Split_encode_hash
    by (simp add: Let_def RawStdDecode_Encode numeral_eq_Suc del: append.simps power_Suc)
qed

text \<open>Argon2 gives keys of the length asked for.\<close>

definition argon2_len :: "'z auth_env_scheme \<Rightarrow> bool" where
  "argon2_len E \<longleftrightarrow> (\<forall>pw salt t m p n. length (e_argon2 E pw salt t m p n) = n)"

lemma HashPassword_InrE:
  assumes "HashPassword E pw w = (w', Inr h)"
  obtains salt where "e_rand E (w_seed w) 16 = Some salt"
    and "h = encode_hash defaultParams salt (e_argon2 E pw salt 3 65536 2 32)"
    and "w' = w\<lparr>w_seed := Suc (w_seed w)\<rparr>"
  using assms
  by (auto simp: HashPassword_def Let_def bind_Inr_iff rand_bytes_def defaultParams_def
      split: option.splits)

section \<open>Access and refresh tokens (jwt.go)\<close>

record token_manager =
  tm_access_secret :: string
  tm_refresh_secret :: string
  tm_access_ttl :: int
  tm_refresh_ttl :: int

definition NewTokenManager :: "string \<Rightarrow> string \<Rightarrow> int \<Rightarrow> int \<Rightarrow> token_manager" where
  "NewTokenManager accessSecret refreshSecret accessTTL refreshTTL =
     \<lparr>tm_access_secret = accessSecret, tm_refresh_secret = refreshSecret,
      tm_access_ttl = accessTTL, tm_refresh_ttl = refreshTTL\<rparr>"

definition HashToken :: "'z auth_env_scheme \<Rightarrow> string \<Rightarrow> string" where
  "HashToken E token = hex_encode (e_sha256 E token)"

text \<open>\<open>jwt.NewNumericDate\<close> keeps whole seconds.\<close>

definition numeric_date :: "time \<Rightarrow> int" where
  "numeric_date t = t div Second"

definition IssueAccess ::
  "'z auth_env_scheme \<Rightarrow> token_manager \<Rightarrow> uuid \<Rightarrow> string \<Rightarrow> string \<Rightarrow> (string \<times> time) go" where
  "IssueAccess E m tenantID role username =
     bind_act now (\<lambda>n.
       (let exp = n + tm_access_ttl m;
            claims = \<lparr>cl_tenant = e_uuid_str E tenantID, cl_role = role, cl_username = username,
                      cl_subject = e_uuid_str E tenantID, cl_expires = numeric_date exp,
                      cl_issued = numeric_date n, cl_issuer = ''mudahurus''\<rparr>
        in case e_jwt_sign E (tm_access_secret m) claims of
             None \<Rightarrow> raise (ErrMsg ''jwt'')
           | Some s \<Rightarrow> ret (s, exp)))"

definition keyfunc :: "token_manager \<Rightarrow> jwt_method \<Rightarrow> go_err + string" where
  "keyfunc m alg =
     (case alg of MethodHMAC \<Rightarrow> Inr (tm_access_secret m) | MethodOther _ \<Rightarrow> Inl ErrInvalidToken)"

definition ParseAccess :: "'z auth_env_scheme \<Rightarrow> token_manager \<Rightarrow> string \<Rightarrow> claims go" where
  "ParseAccess E m tokenStr =
     bind_act now (\<lambda>n.
       case e_jwt_parse E (keyfunc m) n tokenStr of
         None \<Rightarrow> raise ErrInvalidToken
       | Some c \<Rightarrow> ret c)"

definition uuid_string :: "'z env_scheme \<Rightarrow> string go" where
  "uuid_string E = bind_act (new_uuid E) (\<lambda>u. ret (e_uuid_str E u))"

definition IssueRefresh :: "'z auth_env_scheme \<Rightarrow> token_manager \<Rightarrow> (string \<times> string \<times> time) go" where
  "IssueRefresh E m =
     bind_act (uuid_string E) (\<lambda>a.
     bind_act (uuid_string E) (\<lambda>b.
     bind_act now (\<lambda>n.
       (let token = a @ ''.'' @ b; hash = HashToken E token; exp = n + tm_refresh_ttl m
        in ret (token, hash, exp)))))"

text \<open>
  What the JWT library promises of a token signed here: it reads back under the same key until
  it expires, and not after.
\<close>

definition jwt_ok :: "'z auth_env_scheme \<Rightarrow> bool" where
  "jwt_ok E \<longleftrightarrow>
     (\<forall>key c tok n kf.
        e_jwt_sign E key c = Some tok \<longrightarrow> kf MethodHMAC = Inr key \<longrightarrow>
        e_jwt_parse E kf n tok = (if n < cl_expires c * Second then Some c else None))"

section \<open>The guards (middleware.go)\<close>

text \<open>
  A middleware takes the rest of the chain, which gets the context with the identity. The
  header is the one of \<open>Authorization\<close>.
\<close>

definition Authenticated ::
  "'z auth_env_scheme \<Rightarrow> token_manager \<Rightarrow> string \<Rightarrow> (identity option \<Rightarrow> 'r go) \<Rightarrow> 'r go" where
  "Authenticated E m authz next_handler =
     (if \<not> HasPrefix authz ''Bearer '' then raise (Unauthorized ''missing bearer token'')
      else
        bind_act (or_else (ParseAccess E m (TrimPrefix authz ''Bearer ''))
                    (Unauthorized ''invalid or expired token'')) (\<lambda>claims.
        case e_uuid_parse E (cl_tenant claims) of
          None \<Rightarrow> raise (Unauthorized ''invalid token subject'')
        | Some t \<Rightarrow>
            next_handler (Some \<lparr>idn_tenant = t, idn_role = cl_role claims,
                                idn_username = cl_username claims\<rparr>)))"

definition RequireRole :: "string \<Rightarrow> identity option \<Rightarrow> (identity option \<Rightarrow> 'r go) \<Rightarrow> 'r go" where
  "RequireRole role ctx next_handler =
     (case From ctx of
        Inl _ \<Rightarrow> raise (Unauthorized ''authentication required'')
      | Inr i \<Rightarrow>
          if idn_role i \<noteq> role then raise (Forbidden ''insufficient role'') else next_handler ctx)"

lemma ParseAccess_run:
  "ParseAccess E m tok w =
     (w, case e_jwt_parse E (keyfunc m) (w_now w) tok of None \<Rightarrow> Inl ErrInvalidToken | Some c \<Rightarrow> Inr c)"
  by (simp add: ParseAccess_def bind_act_def now_run split: option.splits)

definition access_claims :: "'z auth_env_scheme \<Rightarrow> token_manager \<Rightarrow> uuid \<Rightarrow> string \<Rightarrow> string \<Rightarrow> time \<Rightarrow> claims" where
  "access_claims E m t r u n =
     \<lparr>cl_tenant = e_uuid_str E t, cl_role = r, cl_username = u, cl_subject = e_uuid_str E t,
      cl_expires = numeric_date (n + tm_access_ttl m), cl_issued = numeric_date n,
      cl_issuer = ''mudahurus''\<rparr>"

lemma IssueAccess_run:
  "IssueAccess E m t r u w =
     (w, case e_jwt_sign E (tm_access_secret m) (access_claims E m t r u (w_now w)) of
           None \<Rightarrow> Inl (ErrMsg ''jwt'') | Some s \<Rightarrow> Inr (s, w_now w + tm_access_ttl m))"
  by (simp add: IssueAccess_def bind_act_def now_run Let_def access_claims_def split: option.splits)

section \<open>A concrete instance of the parameters\<close>

text \<open>
  An environment whose functions compute, used where a property is applied to an input: the
  uuid \<open>n\<close> prints as its number, SHA-256 is replaced by the identity, Argon2 by padding, and
  the token library knows the one set of claims \<open>C\<close>. It satisfies \<open>argon2_len\<close> and \<open>jwt_ok\<close>.
\<close>

definition sample_env :: "claims \<Rightarrow> auth_env" where
  "sample_env C =
     \<lparr>e_uuid_str = (\<lambda>u. show_nat (unat u)),
      e_uuid_parse = (\<lambda>s. if s \<noteq> [] \<and> list_all is_digit s then Some (of_nat (nat_of_digits s)) else None),
      e_uuid_gen = (\<lambda>n. of_nat (n + 1000)),
      e_ilike = (\<lambda>a b. ToLower a = ToLower b),
      e_sql_lower = ToLower,
      e_equal_fold = (\<lambda>a b. ToLower a = ToLower b),
      e_to_lower = ToLower,
      e_num_enc = (\<lambda>x. case x of Fin r \<Rightarrow> (if \<bar>r\<bar> < 10 ^ 9 then Some (round (r * 100)) else None) | _ \<Rightarrow> None),
      e_num_dec = (\<lambda>n. Fin (of_int n / 100)),
      e_sha256 = (\<lambda>s. s),
      e_argon2 = (\<lambda>pw salt t m p n. take n (pw @ replicate n (CHR ''.''))),
      e_rand = (\<lambda>seed n. Some (replicate n (CHR ''s''))),
      e_jwt_sign = (\<lambda>key c. if c = C then Some key else None),
      e_jwt_parse = (\<lambda>kf n tok. case kf MethodHMAC of Inl _ \<Rightarrow> None
        | Inr key \<Rightarrow> if tok = key \<and> n < cl_expires C * Second then Some C else None)\<rparr>"

lemma sample_argon2_len: "argon2_len (sample_env C)"
  by (auto simp: argon2_len_def sample_env_def min_def)

lemma sample_jwt_ok: "jwt_ok (sample_env C)"
  by (simp add: jwt_ok_def sample_env_def)

definition sample_claims :: claims where
  "sample_claims =
     \<lparr>cl_tenant = ''7'', cl_role = ''seller'', cl_username = ''ali'', cl_subject = ''7'',
      cl_expires = 900, cl_issued = 0, cl_issuer = ''mudahurus''\<rparr>"

definition sample_tenant :: tenant where
  "sample_tenant =
     \<lparr>tn_id = 7, tn_username = ''ali'', tn_email = ''ali@x.my'', tn_password_hash = '''',
      tn_role = ''seller'', tn_full_name = ''Ali'', tn_store_name = ''Kedai'', tn_phone = '''',
      tn_email_verified = True, tn_created = 0\<rparr>"

definition sample_world :: "db \<Rightarrow> world" where
  "sample_world d =
     \<lparr>w_db = d, w_now = 0, w_seed = 0, w_faults = [], w_outbox = [], w_events = [], w_files = []\<rparr>"

definition sample_tm :: token_manager where
  "sample_tm = NewTokenManager ''key'' ''refresh'' (900 * Second) (30 * 24 * Hour)"

lemma sample_uuid: "e_uuid_parse (sample_env C) (e_uuid_str (sample_env C) u) = Some u"
  by (simp add: sample_env_def show_nat_digits)

definition sample_db :: db where
  "sample_db = empty_db\<lparr>tenants :=
     [sample_tenant\<lparr>tn_password_hash := encode_hash defaultParams (replicate 16 (CHR ''s''))
         (take 32 (''secret'' @ replicate 32 (CHR ''.'')))\<rparr>]\<rparr>"

lemma sample_sign: "e_jwt_sign (sample_env C) key C = Some key"
  by (simp add: sample_env_def)

lemma sample_rand: "e_rand (sample_env C) s n = Some (replicate n (CHR ''s''))"
  by (simp add: sample_env_def)

lemma sample_show7: "show_nat 7 = ''7''"
  by code_simp

lemma sample_secret:
  "VerifyPassword (sample_env C) ''secret'' (encode_hash defaultParams (replicate 16 (CHR ''s''))
     (take 32 (''secret'' @ replicate 32 (CHR ''.'')))) = Inr True"
  by (subst VerifyPassword_encode_hash)
    (simp_all add: defaultParams_def uint32_max_def uint8_max_def sample_env_def)

lemma access_guard:
  assumes "jwt_ok E" and "e_uuid_parse E (e_uuid_str E t) = Some t"
    and sign: "e_jwt_sign E (tm_access_secret m) (access_claims E m t role name n) = Some tok"
  shows "Authenticated E m (''Bearer '' @ tok) k v =
     (if w_now v < (n + tm_access_ttl m) div Second * Second
      then k (Some \<lparr>idn_tenant = t, idn_role = role, idn_username = name\<rparr>) v
      else (v, Inl (Unauthorized ''invalid or expired token'')))"
proof -
  have "keyfunc m MethodHMAC = Inr (tm_access_secret m)" by (simp add: keyfunc_def)
  with assms(1) sign have parse: "e_jwt_parse E (keyfunc m) (w_now v) tok =
      (if w_now v < (n + tm_access_ttl m) div Second * Second
       then Some (access_claims E m t role name n) else None)"
    unfolding jwt_ok_def by (simp add: access_claims_def numeric_date_def)
  have pre: "HasPrefix (''Bearer '' @ tok) ''Bearer ''" "TrimPrefix (''Bearer '' @ tok) ''Bearer '' = tok"
    by (simp_all add: HasPrefix_def TrimPrefix_def)
  show ?thesis
    unfolding Authenticated_def bind_act_def
    using assms(2)
    by (simp add: pre [simplified] or_else_def map_err_def ParseAccess_run parse access_claims_def)
qed

section \<open>Properties of passwords and tokens\<close>

text \<open>C17: A password hash that HashPassword wrote is accepted by VerifyPassword for exactly the
  passwords that Argon2 maps to the same key with the salt of the hash, the hashed password
  among them: the encoded string loses nothing of the salt, the parameters or the key.\<close>

theorem password_roundtrip:
  assumes "argon2_len E" and "HashPassword E pw w = (w', Inr h)"
  shows "\<exists>salt. e_rand E (w_seed w) 16 = Some salt \<and>
     (\<forall>pw'. VerifyPassword E pw' h =
        Inr (e_argon2 E pw' salt 3 65536 2 32 = e_argon2 E pw salt 3 65536 2 32))"
proof -
  from assms(2) obtain salt where s: "e_rand E (w_seed w) 16 = Some salt"
    and h: "h = encode_hash defaultParams salt (e_argon2 E pw salt 3 65536 2 32)"
    by (rule HashPassword_InrE)
  have "length (e_argon2 E pw salt 3 65536 2 32) = 32"
    using assms(1) by (simp add: argon2_len_def)
  then have "VerifyPassword E pw' h =
      Inr (e_argon2 E pw' salt 3 65536 2 32 = e_argon2 E pw salt 3 65536 2 32)" for pw'
    unfolding h by (subst VerifyPassword_encode_hash)
      (auto simp: defaultParams_def uint32_max_def uint8_max_def)
  with s show ?thesis by blast
qed

theorem password_roundtrip_witness:
  "\<exists>h w'. HashPassword (sample_env sample_claims) ''secret'' (sample_world empty_db) = (w', Inr h) \<and>
     VerifyPassword (sample_env sample_claims) ''secret'' h = Inr True"
proof -
  obtain h w' where run: "HashPassword (sample_env sample_claims) ''secret'' (sample_world empty_db) = (w', Inr h)"
    by (simp add: HashPassword_def Let_def bind_act_def rand_bytes_def sample_env_def)
  from password_roundtrip [OF sample_argon2_len run] run show ?thesis by auto
qed

text \<open>C9: An access token that IssueAccess signed opens the authenticated routes for the tenant,
  role and name it was issued for until the second of its expiry, and for nobody after: the
  guard hands the next handler exactly that identity, or answers 401.\<close>

theorem access_token_guard:
  assumes "jwt_ok E" and "e_uuid_parse E (e_uuid_str E t) = Some t"
    and "IssueAccess E m t role name w = (w', Inr (tok, ex))"
  shows "Authenticated E m (''Bearer '' @ tok) k v =
     (if w_now v < ex div Second * Second
      then k (Some \<lparr>idn_tenant = t, idn_role = role, idn_username = name\<rparr>) v
      else (v, Inl (Unauthorized ''invalid or expired token'')))"
proof -
  from assms(3) have sign: "e_jwt_sign E (tm_access_secret m) (access_claims E m t role name (w_now w)) = Some tok"
    and ex: "ex = w_now w + tm_access_ttl m"
    by (auto simp: IssueAccess_run split: option.splits)
  show ?thesis unfolding ex by (rule access_guard [OF assms(1,2) sign])
qed

theorem access_token_guard_witness:
  "Authenticated (sample_env sample_claims) sample_tm (''Bearer '' @ ''key'') (\<lambda>ctx. ret ctx) (sample_world empty_db) =
     (sample_world empty_db,
      Inr (Some \<lparr>idn_tenant = 7, idn_role = ''seller'', idn_username = ''ali''\<rparr>))"
proof -
  have show7: "show_nat 7 = ''7''" by code_simp
  have "e_uuid_parse (sample_env sample_claims) (e_uuid_str (sample_env sample_claims) 7) = Some 7"
    by (simp add: sample_env_def show7 is_digit_def code_def nat_of_digits_def digit_val_def)
  moreover have "IssueAccess (sample_env sample_claims) sample_tm 7 ''seller'' ''ali'' (sample_world empty_db)
      = (sample_world empty_db, Inr (''key'', 900 * Second))"
    by (simp add: IssueAccess_run access_claims_def sample_env_def sample_claims_def sample_tm_def
        NewTokenManager_def sample_world_def numeric_date_def Second_def show7)
  ultimately show ?thesis
    by (subst access_token_guard [OF sample_jwt_ok]) (auto simp: sample_world_def Second_def)
qed

lemma HashPassword_verifies:
  assumes "argon2_len E" and "HashPassword E pw w = (w', Inr h)"
  shows "VerifyPassword E pw h = Inr True"
proof -
  from assms(2) obtain salt where h: "h = encode_hash defaultParams salt (e_argon2 E pw salt 3 65536 2 32)"
    by (rule HashPassword_InrE)
  show ?thesis using assms(1) unfolding h
    by (subst VerifyPassword_encode_hash)
      (auto simp: defaultParams_def uint32_max_def uint8_max_def argon2_len_def)
qed

end
