(* ===== verification/Events.thy ===== *)
theory Events
  imports Tenancy
begin

text \<open>
  The packages \<open>events\<close> and \<open>notify\<close>: the domain events that start ingestion and the
  mailer. Both sinks of an emitter accept an event and never fail the request, so \<open>Emit\<close>
  records it in \<open>w_events\<close>; the mailer that \<open>notify.New\<close> returns logs every message, which
  \<open>w_outbox\<close> records.
\<close>

section \<open>Emitters (events.go)\<close>

datatype emitter = LogEmitter | HTTPEmitter string

definition events_New :: "string \<Rightarrow> string \<Rightarrow> emitter" where
  "events_New sink url = (if sink = ''http'' \<and> url \<noteq> '''' then HTTPEmitter url else LogEmitter)"

definition Emit :: "event \<Rightarrow> unit go" where
  "Emit e = emit e"

definition ProductCreated :: "'z env_scheme \<Rightarrow> uuid \<Rightarrow> uuid \<Rightarrow> time \<Rightarrow> event" where
  "ProductCreated E tenantID i n =
     \<lparr>ev_type = ''product.created'', ev_tenant = tenantID, ev_source_type = ''product'',
      ev_source_id = e_uuid_str E i, ev_occurred = n\<rparr>"

definition OrderCreated :: "'z env_scheme \<Rightarrow> uuid \<Rightarrow> uuid \<Rightarrow> time \<Rightarrow> event" where
  "OrderCreated E tenantID i n =
     \<lparr>ev_type = ''order.created'', ev_tenant = tenantID, ev_source_type = ''order'',
      ev_source_id = e_uuid_str E i, ev_occurred = n\<rparr>"

definition PaymentUploaded :: "'z env_scheme \<Rightarrow> uuid \<Rightarrow> uuid \<Rightarrow> time \<Rightarrow> event" where
  "PaymentUploaded E tenantID i n =
     \<lparr>ev_type = ''payment.uploaded'', ev_tenant = tenantID, ev_source_type = ''payment'',
      ev_source_id = e_uuid_str E i, ev_occurred = n\<rparr>"

section \<open>The mailer (notify.go)\<close>

definition Mailer_Send :: "message \<Rightarrow> unit go" where
  "Mailer_Send m = modify (\<lambda>w. w\<lparr>w_outbox := w_outbox w @ [m]\<rparr>)"

lemma Emit_run [simp]: "Emit e w = (w\<lparr>w_events := w_events w @ [e]\<rparr>, Inr ())"
  by (simp add: Emit_def emit_run)

lemma Mailer_Send_run [simp]: "Mailer_Send m w = (w\<lparr>w_outbox := w_outbox w @ [m]\<rparr>, Inr ())"
  by (simp add: Mailer_Send_def)

lemma keeps_Emit: "(\<And>d. Q d d) \<Longrightarrow> keeps (on_db Q) (Emit e)"
  by (simp add: keeps_def on_db_def)

lemma keeps_Mailer_Send: "(\<And>d. Q d d) \<Longrightarrow> keeps (on_db Q) (Mailer_Send m)"
  by (simp add: keeps_def on_db_def)

lemma iso_Emit: "keeps (isolates t) (Emit e)"
  unfolding isolates_def by (rule keeps_Emit) simp

lemma iso_Mailer_Send: "keeps (isolates t) (Mailer_Send m)"
  unfolding isolates_def by (rule keeps_Mailer_Send) simp

end
