(* ===== verification/Auth.thy ===== *)
theory Auth
  imports AuthCrypto Events
begin

text \<open>
  Accounts: the store, the service and the handlers of \<open>api/internal/auth\<close>
  (\<open>store.go\<close>, \<open>service.go\<close>, \<open>handler.go\<close>). Refresh tokens and single-use tokens are
  rows that hold the hash of the token; \<open>spent\<close> says that every row of a hash is revoked
  or used, and the lemmas show that no operation here ever undoes that.
\<close>

section \<open>The store (store.go)\<close>

definition auth_CreateTenant :: "'z env_scheme \<Rightarrow> tenant \<Rightarrow> tenant go" where
  "auth_CreateTenant E t =
     bind_act (new_uuid E) (\<lambda>i. bind_act now (\<lambda>n.
       (let t' = t\<lparr>tn_id := i, tn_created := n, tn_email_verified := False\<rparr>
        in sql (\<lambda>d. commit t' (d\<lparr>tenants := tenants d @ [t']\<rparr>)))))"

definition tenantByQuery :: "(tenant \<Rightarrow> bool) \<Rightarrow> tenant go" where
  "tenantByQuery P =
     bind_act (sel (\<lambda>d. find P (tenants d))) (\<lambda>r.
       case r of None \<Rightarrow> raise (ErrNotFound PAuth) | Some t \<Rightarrow> ret t)"

definition TenantByUsername :: "string \<Rightarrow> tenant go" where
  "TenantByUsername username = tenantByQuery (\<lambda>t. ToLower (tn_username t) = ToLower username)"

definition TenantByEmail :: "string \<Rightarrow> tenant go" where
  "TenantByEmail email = tenantByQuery (\<lambda>t. ToLower (tn_email t) = ToLower email)"

definition TenantByID :: "uuid \<Rightarrow> tenant go" where
  "TenantByID i = tenantByQuery (\<lambda>t. tn_id t = i)"

definition auth_update :: "uuid \<Rightarrow> (tenant \<Rightarrow> tenant) \<Rightarrow> unit go" where
  "auth_update i f =
     sql (\<lambda>d. commit () (d\<lparr>tenants := update_rows (\<lambda>t. tn_id t = i) f (tenants d)\<rparr>))"

definition store_UpdateProfile :: "uuid \<Rightarrow> string \<Rightarrow> string \<Rightarrow> string \<Rightarrow> unit go" where
  "store_UpdateProfile i fullName storeName phone =
     auth_update i (\<lambda>t. t\<lparr>tn_full_name := fullName, tn_store_name := storeName, tn_phone := phone\<rparr>)"

definition UpdatePassword :: "uuid \<Rightarrow> string \<Rightarrow> unit go" where
  "UpdatePassword i hash = auth_update i (\<lambda>t. t\<lparr>tn_password_hash := hash\<rparr>)"

definition MarkEmailVerified :: "uuid \<Rightarrow> unit go" where
  "MarkEmailVerified i = auth_update i (\<lambda>t. t\<lparr>tn_email_verified := True\<rparr>)"

definition SaveRefresh :: "uuid \<Rightarrow> string \<Rightarrow> time \<Rightarrow> unit go" where
  "SaveRefresh tenantID hash expires =
     sql (\<lambda>d. commit () (d\<lparr>refresh_tokens := refresh_tokens d @
       [\<lparr>rf_tenant = tenantID, rf_hash = hash, rf_expires = expires, rf_revoked = None\<rparr>]\<rparr>))"

definition refresh_live :: "string \<Rightarrow> time \<Rightarrow> refresh_row \<Rightarrow> bool" where
  "refresh_live hash n r \<longleftrightarrow> rf_hash r = hash \<and> rf_revoked r = None \<and> rf_expires r > n"

definition RotateRefresh :: "string \<Rightarrow> uuid go" where
  "RotateRefresh hash =
     bind_act now (\<lambda>n.
     bind_act (sql (\<lambda>d. commit (find (refresh_live hash n) (refresh_tokens d))
       (d\<lparr>refresh_tokens :=
            update_rows (refresh_live hash n) (\<lambda>r. r\<lparr>rf_revoked := Some n\<rparr>) (refresh_tokens d)\<rparr>))) (\<lambda>r.
     case r of None \<Rightarrow> raise (ErrNotFound PAuth) | Some row \<Rightarrow> ret (rf_tenant row)))"

definition RevokeRefresh :: "string \<Rightarrow> unit go" where
  "RevokeRefresh hash =
     bind_act now (\<lambda>n.
     sql (\<lambda>d. commit () (d\<lparr>refresh_tokens :=
       update_rows (\<lambda>r. rf_hash r = hash \<and> rf_revoked r = None) (\<lambda>r. r\<lparr>rf_revoked := Some n\<rparr>)
         (refresh_tokens d)\<rparr>)))"

definition SaveAuthToken :: "uuid \<Rightarrow> string \<Rightarrow> string \<Rightarrow> time \<Rightarrow> unit go" where
  "SaveAuthToken tenantID purpose hash expires =
     sql (\<lambda>d. commit () (d\<lparr>auth_tokens := auth_tokens d @
       [\<lparr>at_tenant = tenantID, at_purpose = purpose, at_hash = hash, at_expires = expires,
         at_used = None\<rparr>]\<rparr>))"

definition token_live :: "string \<Rightarrow> string \<Rightarrow> time \<Rightarrow> auth_token_row \<Rightarrow> bool" where
  "token_live purpose hash n r \<longleftrightarrow>
     at_hash r = hash \<and> at_purpose r = purpose \<and> at_used r = None \<and> at_expires r > n"

definition ConsumeAuthToken :: "string \<Rightarrow> string \<Rightarrow> uuid go" where
  "ConsumeAuthToken purpose hash =
     bind_act now (\<lambda>n.
     bind_act (sql (\<lambda>d. commit (find (token_live purpose hash n) (auth_tokens d))
       (d\<lparr>auth_tokens :=
            update_rows (token_live purpose hash n) (\<lambda>r. r\<lparr>at_used := Some n\<rparr>) (auth_tokens d)\<rparr>))) (\<lambda>r.
     case r of None \<Rightarrow> raise (ErrNotFound PAuth) | Some row \<Rightarrow> ret (at_tenant row)))"

section \<open>The service (service.go)\<close>

record token_pair =
  tp_access :: string
  tp_refresh :: string
  tp_expires :: time
  tp_tenant :: tenant

record register_input =
  ri_username :: string
  ri_email :: string
  ri_password :: string
  ri_full_name :: string
  ri_store_name :: string
  ri_phone :: string

definition issuePair :: "'z auth_env_scheme \<Rightarrow> token_manager \<Rightarrow> tenant \<Rightarrow> token_pair go" where
  "issuePair E m t =
     bind_act (IssueAccess E m (tn_id t) (tn_role t) (tn_username t)) (\<lambda>(access, ex).
     bind_act (IssueRefresh E m) (\<lambda>(refresh, hash, rexp).
     bind_act (SaveRefresh (tn_id t) hash rexp) (\<lambda>_.
     ret \<lparr>tp_access = access, tp_refresh = refresh, tp_expires = ex, tp_tenant = t\<rparr>)))"

definition sendToken ::
  "'z auth_env_scheme \<Rightarrow> tenant \<Rightarrow> string \<Rightarrow> int \<Rightarrow> string \<Rightarrow> unit go" where
  "sendToken E t purpose ttl subject =
     bind_act (uuid_string E) (\<lambda>a. bind_act (uuid_string E) (\<lambda>b.
     (let raw = a @ ''.'' @ b in
      bind_act now (\<lambda>n.
      bind_act (SaveAuthToken (tn_id t) purpose (HashToken E raw) (n + ttl)) (\<lambda>_.
      (let path = (if purpose = ''reset_password'' then ''/reset'' else ''/verify-email'') in
       Mailer_Send \<lparr>ms_to = tn_email t, ms_subject = subject,
                    ms_body = ''Use this link: '' @ path @ ''?token='' @ raw\<rparr>))))))"

definition register_fields :: "register_input \<Rightarrow> fields" where
  "register_fields i =
     Check (Contains (ri_email i) ''@'') ''email'' ''must be a valid email''
       (Check (8 \<le> length (ri_password i)) ''password'' ''must be at least 8 characters''
         (Require ''password'' (ri_password i)
           (Require ''email'' (ri_email i)
             (Require ''username'' (ri_username i) []))))"

definition register_normal :: "register_input \<Rightarrow> register_input" where
  "register_normal i =
     i\<lparr>ri_username := ToLower (TrimSpace (ri_username i)), ri_email := ToLower (TrimSpace (ri_email i))\<rparr>"

definition auth_Register :: "'z auth_env_scheme \<Rightarrow> register_input \<Rightarrow> tenant go" where
  "auth_Register E i0 =
     (let i = register_normal i0 in
      bind_act (valid_or (register_fields i)) (\<lambda>_.
      bind_act (attempt (TenantByUsername (ri_username i))) (\<lambda>r1.
      bind_act (check (isl r1) (Conflict ''username already taken'')) (\<lambda>_.
      bind_act (attempt (TenantByEmail (ri_email i))) (\<lambda>r2.
      bind_act (check (isl r2) (Conflict ''email already registered'')) (\<lambda>_.
      bind_act (HashPassword E (ri_password i)) (\<lambda>hash.
      bind_act (auth_CreateTenant E
        \<lparr>tn_id = uuid_Nil, tn_username = ri_username i, tn_email = ri_email i,
         tn_password_hash = hash, tn_role = ''seller'', tn_full_name = ri_full_name i,
         tn_store_name = ri_store_name i, tn_phone = ri_phone i, tn_email_verified = False,
         tn_created = 0\<rparr>) (\<lambda>t.
      bind_act (sendToken E t ''verify_email'' (24 * Hour) ''Verify your MUDAHURUS account'') (\<lambda>_.
      ret t)))))))))"

definition auth_Login :: "'z auth_env_scheme \<Rightarrow> token_manager \<Rightarrow> string \<Rightarrow> string \<Rightarrow> token_pair go" where
  "auth_Login E m usernameOrEmail password =
     (let u = ToLower (TrimSpace usernameOrEmail) in
      bind_act (or_else (if Contains u ''@'' then TenantByEmail u else TenantByUsername u)
                  (Unauthorized ''invalid credentials'')) (\<lambda>t.
      bind_act (check (VerifyPassword E password (tn_password_hash t) = Inr True)
                  (Unauthorized ''invalid credentials'')) (\<lambda>_.
      issuePair E m t)))"

definition auth_Refresh :: "'z auth_env_scheme \<Rightarrow> token_manager \<Rightarrow> string \<Rightarrow> token_pair go" where
  "auth_Refresh E m refreshToken =
     bind_act (or_else (RotateRefresh (HashToken E refreshToken)) (Unauthorized ''invalid refresh token'')) (\<lambda>i.
     bind_act (or_else (TenantByID i) (Unauthorized ''invalid refresh token'')) (\<lambda>t.
     issuePair E m t))"

definition auth_Logout :: "'z auth_env_scheme \<Rightarrow> string \<Rightarrow> unit go" where
  "auth_Logout E refreshToken = RevokeRefresh (HashToken E refreshToken)"

definition ChangePassword :: "'z auth_env_scheme \<Rightarrow> uuid \<Rightarrow> string \<Rightarrow> string \<Rightarrow> unit go" where
  "ChangePassword E tenantID oldPw newPw =
     bind_act (check (8 \<le> length newPw)
       (Validation [(''new_password'', ''must be at least 8 characters'')])) (\<lambda>_.
     bind_act (or_else (TenantByID tenantID) (NotFound ''account not found'')) (\<lambda>t.
     bind_act (check (VerifyPassword E oldPw (tn_password_hash t) = Inr True)
       (Unauthorized ''current password is incorrect'')) (\<lambda>_.
     bind_act (HashPassword E newPw) (\<lambda>hash.
     UpdatePassword tenantID hash))))"

definition ForgotPassword :: "'z auth_env_scheme \<Rightarrow> string \<Rightarrow> unit go" where
  "ForgotPassword E email =
     bind_act (attempt (TenantByEmail (ToLower (TrimSpace email)))) (\<lambda>r.
     case r of
       Inl _ \<Rightarrow> ret ()
     | Inr t \<Rightarrow> sendToken E t ''reset_password'' Hour ''Reset your MUDAHURUS password'')"

definition ResetPassword :: "'z auth_env_scheme \<Rightarrow> string \<Rightarrow> string \<Rightarrow> unit go" where
  "ResetPassword E token newPw =
     bind_act (check (8 \<le> length newPw)
       (Validation [(''password'', ''must be at least 8 characters'')])) (\<lambda>_.
     bind_act (or_else (ConsumeAuthToken ''reset_password'' (HashToken E token))
       (BadRequest ''invalid or expired reset token'')) (\<lambda>tenantID.
     bind_act (HashPassword E newPw) (\<lambda>hash.
     UpdatePassword tenantID hash)))"

definition VerifyEmail :: "'z auth_env_scheme \<Rightarrow> string \<Rightarrow> unit go" where
  "VerifyEmail E token =
     bind_act (or_else (ConsumeAuthToken ''verify_email'' (HashToken E token))
       (BadRequest ''invalid or expired verification token'')) (\<lambda>tenantID.
     MarkEmailVerified tenantID)"

definition service_UpdateProfile :: "uuid \<Rightarrow> string \<Rightarrow> string \<Rightarrow> string \<Rightarrow> tenant go" where
  "service_UpdateProfile tenantID fullName storeName phone =
     bind_act (store_UpdateProfile tenantID fullName storeName phone) (\<lambda>_. TenantByID tenantID)"

definition Me :: "uuid \<Rightarrow> tenant go" where
  "Me tenantID =
     map_err (\<lambda>e. if e = ErrNotFound PAuth then NotFound ''account not found'' else e) (TenantByID tenantID)"

section \<open>The handlers (handler.go)\<close>

text \<open>The JSON of a tenant has every field of the struct but the password hash.\<close>

record tenant_json =
  tj_id :: uuid
  tj_username :: string
  tj_email :: string
  tj_role :: string
  tj_full_name :: string
  tj_store_name :: string
  tj_phone :: string
  tj_email_verified :: bool
  tj_created_at :: time

definition tenant_to_json :: "tenant \<Rightarrow> tenant_json" where
  "tenant_to_json t =
     \<lparr>tj_id = tn_id t, tj_username = tn_username t, tj_email = tn_email t, tj_role = tn_role t,
      tj_full_name = tn_full_name t, tj_store_name = tn_store_name t, tj_phone = tn_phone t,
      tj_email_verified = tn_email_verified t, tj_created_at = tn_created t\<rparr>"

datatype auth_reply =
    R_tenant tenant_json
  | R_pair string string time tenant_json
  | R_message string

definition pair_reply :: "token_pair \<Rightarrow> auth_reply" where
  "pair_reply p = R_pair (tp_access p) (tp_refresh p) (tp_expires p) (tenant_to_json (tp_tenant p))"

definition h_register :: "'z auth_env_scheme \<Rightarrow> register_input option \<Rightarrow> auth_reply response go" where
  "h_register E body =
     bind_act (Bind body) (\<lambda>i.
     bind_act (auth_Register E i) (\<lambda>t. ret (JSON 201 (R_tenant (tenant_to_json t)))))"

text \<open>The body of a login is the user name, the email and the password.\<close>

definition h_login ::
  "'z auth_env_scheme \<Rightarrow> token_manager \<Rightarrow> (string \<times> string \<times> string) option \<Rightarrow> auth_reply response go" where
  "h_login E m body =
     bind_act (Bind body) (\<lambda>(username, email, password).
     (let i = (if username = '''' then email else username) in
      bind_act (auth_Login E m i password) (\<lambda>p. ret (JSON 200 (pair_reply p)))))"

definition h_refresh ::
  "'z auth_env_scheme \<Rightarrow> token_manager \<Rightarrow> string option \<Rightarrow> auth_reply response go" where
  "h_refresh E m body =
     bind_act (Bind body) (\<lambda>tok.
     bind_act (auth_Refresh E m tok) (\<lambda>p. ret (JSON 200 (pair_reply p))))"

definition h_logout :: "'z auth_env_scheme \<Rightarrow> string option \<Rightarrow> auth_reply response go" where
  "h_logout E body =
     bind_act (Bind body) (\<lambda>tok. bind_act (auth_Logout E tok) (\<lambda>_. ret (NoContent 204)))"

definition h_forgot :: "'z auth_env_scheme \<Rightarrow> string option \<Rightarrow> auth_reply response go" where
  "h_forgot E body =
     bind_act (Bind body) (\<lambda>email.
     bind_act (ForgotPassword E email) (\<lambda>_.
     ret (JSON 200 (R_message ''if the email exists, a reset link has been sent''))))"

definition h_reset :: "'z auth_env_scheme \<Rightarrow> (string \<times> string) option \<Rightarrow> auth_reply response go" where
  "h_reset E body =
     bind_act (Bind body) (\<lambda>(tok, pw).
     bind_act (ResetPassword E tok pw) (\<lambda>_. ret (JSON 200 (R_message ''password reset''))))"

definition h_verify :: "'z auth_env_scheme \<Rightarrow> string option \<Rightarrow> auth_reply response go" where
  "h_verify E body =
     bind_act (Bind body) (\<lambda>tok.
     bind_act (VerifyEmail E tok) (\<lambda>_. ret (JSON 200 (R_message ''email verified''))))"

definition h_me :: "identity option \<Rightarrow> auth_reply response go" where
  "h_me ctx = bind_act (Me (tid ctx)) (\<lambda>t. ret (JSON 200 (R_tenant (tenant_to_json t))))"

definition h_updateProfile ::
  "identity option \<Rightarrow> (string \<times> string \<times> string) option \<Rightarrow> auth_reply response go" where
  "h_updateProfile ctx body =
     bind_act (Bind body) (\<lambda>(fullName, storeName, phone).
     bind_act (service_UpdateProfile (tid ctx) fullName storeName phone) (\<lambda>t.
     ret (JSON 200 (R_tenant (tenant_to_json t)))))"

definition h_changePassword ::
  "'z auth_env_scheme \<Rightarrow> identity option \<Rightarrow> (string \<times> string) option \<Rightarrow> auth_reply response go" where
  "h_changePassword E ctx body =
     bind_act (Bind body) (\<lambda>(oldPw, newPw).
     bind_act (ChangePassword E (tid ctx) oldPw newPw) (\<lambda>_.
     ret (JSON 200 (R_message ''password changed''))))"

section \<open>What each statement does to the tables\<close>

lemmas store_defs =
  auth_CreateTenant_def tenantByQuery_def auth_update_def SaveRefresh_def RotateRefresh_def
  RevokeRefresh_def SaveAuthToken_def ConsumeAuthToken_def

lemma tenantByQuery_InrD:
  "tenantByQuery P w = (w', Inr t) \<Longrightarrow> w_db w' = w_db w \<and> P t \<and> t \<in> set (tenants (w_db w))"
  unfolding tenantByQuery_def
  by (erule bind_InrE) (auto split: option.splits dest!: sel_InrD find_Some_iff' [OF sym])

lemma tenantByQuery_now: "tenantByQuery P w = (w', r) \<Longrightarrow> w_now w' = w_now w"
  unfolding tenantByQuery_def bind_act_def
  by (auto split: prod.splits sum.splits option.splits dest: sel_now)

lemma reads_tenantByQuery: "reads (tenantByQuery P)"
  unfolding tenantByQuery_def by (intro reads_combinators)

text \<open>
  Spent tokens: \<open>refresh_spent h d\<close> is that there is a revoked row with the hash \<open>h\<close>. It is
  kept by every statement of the store, and as a hash is unique it means that no row of that
  hash is live.
\<close>

definition refresh_spent :: "string \<Rightarrow> db \<Rightarrow> bool" where
  "refresh_spent h d \<longleftrightarrow> (\<exists>r \<in> set (refresh_tokens d). rf_hash r = h \<and> rf_revoked r \<noteq> None)"

definition auth_spent :: "string \<Rightarrow> db \<Rightarrow> bool" where
  "auth_spent h d \<longleftrightarrow> (\<exists>r \<in> set (auth_tokens d). at_hash r = h \<and> at_used r \<noteq> None)"

definition keeps_spent_db :: "db \<Rightarrow> db \<Rightarrow> bool" where
  "keeps_spent_db d d' \<longleftrightarrow>
     (db_ok d \<longrightarrow> db_ok d') \<and> (\<forall>h. refresh_spent h d \<longrightarrow> refresh_spent h d') \<and>
     (\<forall>h. auth_spent h d \<longrightarrow> auth_spent h d')"

definition keeps_spent :: "world \<Rightarrow> world \<Rightarrow> bool" where
  "keeps_spent = on_db keeps_spent_db"

lemma keeps_spent_db_refl [simp]: "keeps_spent_db d d"
  by (simp add: keeps_spent_db_def)

interpretation spent: transition keeps_spent
  by unfold_locales (auto simp: keeps_spent_def on_db_def keeps_spent_db_def)

lemma spent_sql: "(\<And>d x d'. q d = Inr (x, d') \<Longrightarrow> keeps_spent_db d d') \<Longrightarrow> keeps keeps_spent (sql q)"
  unfolding keeps_spent_def by (rule keeps_sql) simp_all

lemma spent_other_tables:
  "db_ok d' \<Longrightarrow> refresh_tokens d' = refresh_tokens d \<Longrightarrow> auth_tokens d' = auth_tokens d \<Longrightarrow>
   keeps_spent_db d d'"
  by (simp add: keeps_spent_db_def refresh_spent_def auth_spent_def)

lemma spent_refresh_update:
  assumes "db_ok (d\<lparr>refresh_tokens := update_rows P f (refresh_tokens d)\<rparr>)"
    and "\<And>r. P r \<Longrightarrow> rf_revoked r = None"
  shows "keeps_spent_db d (d\<lparr>refresh_tokens := update_rows P f (refresh_tokens d)\<rparr>)"
  using assms by (force simp: keeps_spent_db_def refresh_spent_def auth_spent_def update_rows_def)

lemma spent_auth_update:
  assumes "db_ok (d\<lparr>auth_tokens := update_rows P f (auth_tokens d)\<rparr>)"
    and "\<And>r. P r \<Longrightarrow> at_used r = None"
  shows "keeps_spent_db d (d\<lparr>auth_tokens := update_rows P f (auth_tokens d)\<rparr>)"
  using assms by (force simp: keeps_spent_db_def refresh_spent_def auth_spent_def update_rows_def)

lemma spent_append:
  "db_ok (d\<lparr>refresh_tokens := refresh_tokens d @ rs\<rparr>) \<Longrightarrow>
   keeps_spent_db d (d\<lparr>refresh_tokens := refresh_tokens d @ rs\<rparr>)"
  "db_ok (d\<lparr>auth_tokens := auth_tokens d @ as\<rparr>) \<Longrightarrow>
   keeps_spent_db d (d\<lparr>auth_tokens := auth_tokens d @ as\<rparr>)"
  by (auto simp: keeps_spent_db_def refresh_spent_def auth_spent_def)

lemma spent_reads: "reads m \<Longrightarrow> keeps keeps_spent m"
  unfolding keeps_spent_def by (rule reads_keeps) simp_all

lemma reads_rand_bytes: "reads (rand_bytes E n)"
  by (simp add: keeps_def same_db_def rand_bytes_def)

lemma reads_Mailer_Send: "reads (Mailer_Send m)"
  by (simp add: keeps_def same_db_def)

lemma reads_Emit: "reads (Emit e)"
  by (simp add: keeps_def same_db_def)

lemma reads_HashPassword: "reads (HashPassword E pw)"
  unfolding HashPassword_def by (intro reads_combinators reads_rand_bytes)

lemma reads_IssueAccess: "reads (IssueAccess E m t r u)"
  unfolding IssueAccess_def by (intro reads_combinators)

lemma reads_IssueRefresh: "reads (IssueRefresh E m)"
  unfolding IssueRefresh_def uuid_string_def by (intro reads_combinators)

lemma reads_uuid_string: "reads (uuid_string E)"
  unfolding uuid_string_def by (intro reads_combinators)

lemmas auth_reads =
  reads_rand_bytes reads_Mailer_Send reads_HashPassword reads_IssueAccess reads_IssueRefresh
  reads_uuid_string reads_tenantByQuery

lemma spent_auth_update_tenants: "keeps keeps_spent (auth_update i f)"
  unfolding auth_update_def by (rule spent_sql) (auto intro: spent_other_tables)

lemma spent_SaveRefresh: "keeps keeps_spent (SaveRefresh t h x)"
  unfolding SaveRefresh_def by (rule spent_sql) (auto intro: spent_append)

lemma spent_SaveAuthToken: "keeps keeps_spent (SaveAuthToken t p h x)"
  unfolding SaveAuthToken_def by (rule spent_sql) (auto intro: spent_append)

lemma spent_CreateTenant: "keeps keeps_spent (auth_CreateTenant E t)"
  unfolding auth_CreateTenant_def
  by (intro spent.keeps_combinators spent_reads [OF reads_new_uuid] spent_reads [OF reads_now] spent_sql)
    (auto intro: spent_other_tables)

lemma spent_RotateRefresh: "keeps keeps_spent (RotateRefresh h)"
  unfolding RotateRefresh_def
  by (intro spent.keeps_combinators spent_reads [OF reads_now] spent_sql)
    (auto intro!: spent_refresh_update simp: refresh_live_def)

lemma spent_RevokeRefresh: "keeps keeps_spent (RevokeRefresh h)"
  unfolding RevokeRefresh_def
  by (intro spent.keeps_combinators spent_reads [OF reads_now] spent_sql)
    (auto intro!: spent_refresh_update)

lemma spent_ConsumeAuthToken: "keeps keeps_spent (ConsumeAuthToken p h)"
  unfolding ConsumeAuthToken_def
  by (intro spent.keeps_combinators spent_reads [OF reads_now] spent_sql)
    (auto intro!: spent_auth_update simp: token_live_def)

lemmas spent_store =
  spent_auth_update_tenants spent_SaveRefresh spent_SaveAuthToken spent_CreateTenant
  spent_RotateRefresh spent_RevokeRefresh spent_ConsumeAuthToken
  auth_reads [THEN spent_reads] reads_now [THEN spent_reads] reads_sel [THEN spent_reads]
  spent.keeps_Bind spent.keeps_valid_or spent.keeps_combinators

lemma spent_issuePair: "keeps keeps_spent (issuePair E m t)"
  unfolding issuePair_def by (intro spent_store)

lemma spent_sendToken: "keeps keeps_spent (sendToken E t p ttl s)"
  unfolding sendToken_def by (intro spent_store)

lemma spent_Register: "keeps keeps_spent (auth_Register E i)"
  unfolding auth_Register_def TenantByUsername_def TenantByEmail_def
  by (intro spent_store spent_sendToken)

lemma spent_Login: "keeps keeps_spent (auth_Login E m u p)"
  unfolding auth_Login_def TenantByUsername_def TenantByEmail_def
  by (intro spent_store spent_issuePair)

lemma spent_Refresh: "keeps keeps_spent (auth_Refresh E m tok)"
  unfolding auth_Refresh_def TenantByID_def by (intro spent_store spent_issuePair)

lemma spent_Logout: "keeps keeps_spent (auth_Logout E tok)"
  unfolding auth_Logout_def by (intro spent_store)

lemma spent_ChangePassword: "keeps keeps_spent (ChangePassword E t a b)"
  unfolding ChangePassword_def TenantByID_def UpdatePassword_def by (intro spent_store)

lemma spent_ForgotPassword: "keeps keeps_spent (ForgotPassword E e)"
  unfolding ForgotPassword_def TenantByEmail_def by (intro spent_store spent_sendToken)

lemma spent_ResetPassword: "keeps keeps_spent (ResetPassword E tok p)"
  unfolding ResetPassword_def UpdatePassword_def by (intro spent_store)

lemma spent_VerifyEmail: "keeps keeps_spent (VerifyEmail E tok)"
  unfolding VerifyEmail_def MarkEmailVerified_def by (intro spent_store)

lemma spent_UpdateProfile: "keeps keeps_spent (service_UpdateProfile t a b c)"
  unfolding service_UpdateProfile_def store_UpdateProfile_def TenantByID_def by (intro spent_store)

lemma spent_Me: "keeps keeps_spent (Me t)"
  unfolding Me_def TenantByID_def by (intro spent_store)

lemmas spent_service =
  spent_Register spent_Login spent_Refresh spent_Logout spent_ChangePassword spent_ForgotPassword
  spent_ResetPassword spent_VerifyEmail spent_UpdateProfile spent_Me

lemma spent_handlers:
  "keeps keeps_spent (h_register E r)" "keeps keeps_spent (h_login E m l)"
  "keeps keeps_spent (h_refresh E m s)" "keeps keeps_spent (h_logout E s)"
  "keeps keeps_spent (h_forgot E s)" "keeps keeps_spent (h_reset E ps)"
  "keeps keeps_spent (h_verify E s)" "keeps keeps_spent (h_me ctx)"
  "keeps keeps_spent (h_updateProfile ctx tr)" "keeps keeps_spent (h_changePassword E ctx ps)"
  unfolding h_register_def h_login_def h_refresh_def h_logout_def h_forgot_def h_reset_def
    h_verify_def h_me_def h_updateProfile_def h_changePassword_def
  by (intro spent_service spent_store)+

section \<open>Tokens are used once\<close>

lemma hash_unique:
  assumes "db_ok d" and "refresh_spent h d" and "r \<in> set (refresh_tokens d)" and "rf_hash r = h"
  shows "rf_revoked r \<noteq> None"
  using assms unfolding db_ok_def tokens_ok_def refresh_spent_def
  by (metis distinct_map_unique)

lemma auth_hash_unique:
  assumes "db_ok d" and "auth_spent h d" and "r \<in> set (auth_tokens d)" and "at_hash r = h"
  shows "at_used r \<noteq> None"
  using assms unfolding db_ok_def tokens_ok_def auth_spent_def
  by (metis distinct_map_unique)

lemma RotateRefresh_spent:
  assumes "db_ok (w_db w)" and "refresh_spent h (w_db w)"
  shows "isl (snd (RotateRefresh h w))" and "w_db (fst (RotateRefresh h w)) = w_db w"
proof -
  have none: "\<not> refresh_live h n r" if "r \<in> set (refresh_tokens (w_db w))" for r n
    using hash_unique [OF assms that] by (auto simp: refresh_live_def)
  then have find: "find (refresh_live h n) (refresh_tokens (w_db w)) = None" for n
    by (auto simp: find_None_iff)
  have same: "update_rows (refresh_live h n) f (refresh_tokens (w_db w)) = refresh_tokens (w_db w)" for n f
    using none by (intro update_rows_id)
  show "isl (snd (RotateRefresh h w))" and "w_db (fst (RotateRefresh h w)) = w_db w"
    using assms(1)
    by (simp_all add: RotateRefresh_def bind_act_def now_run sql_def commit_def find same
        split: list.split bool.split)
qed

lemma RotateRefresh_spends:
  assumes "RotateRefresh h w = (w', Inr t)"
  shows "refresh_spent h (w_db w')" and "\<exists>r \<in> set (refresh_tokens (w_db w)). refresh_live h (w_now w) r \<and> rf_tenant r = t"
proof -
  from assms obtain row where
    find: "find (refresh_live h (w_now w)) (refresh_tokens (w_db w)) = Some row" and
    db: "w_db w' = w_db w\<lparr>refresh_tokens := update_rows (refresh_live h (w_now w))
             (\<lambda>r. r\<lparr>rf_revoked := Some (w_now w)\<rparr>) (refresh_tokens (w_db w))\<rparr>" and t: "rf_tenant row = t"
    unfolding RotateRefresh_def
    by (auto simp: bind_Inr_iff now_run split: option.splits elim!: sql_InrE)
  from find have row: "row \<in> set (refresh_tokens (w_db w))" "refresh_live h (w_now w) row"
    by (auto dest: find_Some_iff')
  show "refresh_spent h (w_db w')"
    unfolding db refresh_spent_def
    using update_rows_hit [of row _ "refresh_live h (w_now w)" "\<lambda>r. r\<lparr>rf_revoked := Some (w_now w)\<rparr>", OF row]
      row(2) by (auto simp: refresh_live_def intro!: bexI [rotated])
  show "\<exists>r \<in> set (refresh_tokens (w_db w)). refresh_live h (w_now w) r \<and> rf_tenant r = t"
    using row t by auto
qed

lemma ConsumeAuthToken_spent:
  assumes "db_ok (w_db w)" and "auth_spent h (w_db w)"
  shows "isl (snd (ConsumeAuthToken p h w))" and "w_db (fst (ConsumeAuthToken p h w)) = w_db w"
proof -
  have none: "\<not> token_live p h n r" if "r \<in> set (auth_tokens (w_db w))" for r n
    using auth_hash_unique [OF assms that] by (auto simp: token_live_def)
  then have find: "find (token_live p h n) (auth_tokens (w_db w)) = None" for n
    by (auto simp: find_None_iff)
  have same: "update_rows (token_live p h n) f (auth_tokens (w_db w)) = auth_tokens (w_db w)" for n f
    using none by (intro update_rows_id)
  show "isl (snd (ConsumeAuthToken p h w))" and "w_db (fst (ConsumeAuthToken p h w)) = w_db w"
    using assms(1)
    by (simp_all add: ConsumeAuthToken_def bind_act_def now_run sql_def commit_def find same
        split: list.split bool.split)
qed

lemma ConsumeAuthToken_spends:
  assumes "ConsumeAuthToken p h w = (w', Inr t)"
  shows "auth_spent h (w_db w')" and "\<exists>r \<in> set (auth_tokens (w_db w)). token_live p h (w_now w) r \<and> at_tenant r = t"
proof -
  from assms obtain row where
    find: "find (token_live p h (w_now w)) (auth_tokens (w_db w)) = Some row" and
    db: "w_db w' = w_db w\<lparr>auth_tokens := update_rows (token_live p h (w_now w))
             (\<lambda>r. r\<lparr>at_used := Some (w_now w)\<rparr>) (auth_tokens (w_db w))\<rparr>" and t: "at_tenant row = t"
    unfolding ConsumeAuthToken_def
    by (auto simp: bind_Inr_iff now_run split: option.splits elim!: sql_InrE)
  from find have row: "row \<in> set (auth_tokens (w_db w))" "token_live p h (w_now w) row"
    by (auto dest: find_Some_iff')
  show "auth_spent h (w_db w')"
    unfolding db auth_spent_def
    using update_rows_hit [of row _ "token_live p h (w_now w)" "\<lambda>r. r\<lparr>at_used := Some (w_now w)\<rparr>", OF row]
      row(2) by (auto simp: token_live_def intro!: bexI [rotated])
  show "\<exists>r \<in> set (auth_tokens (w_db w)). token_live p h (w_now w) r \<and> at_tenant r = t"
    using row t by auto
qed

text \<open>A service that starts by taking the token fails when it is spent, and changes no table.\<close>

lemma bind_or_else_fails:
  "isl (snd (m w)) \<Longrightarrow> bind_act (or_else m e) f w = (fst (m w), Inl e)"
  by (cases "m w"; cases "snd (m w)") (auto simp: bind_act_def or_else_def map_err_def)

lemma Refresh_spent:
  assumes "db_ok (w_db w)" and "refresh_spent (HashToken E tok) (w_db w)"
  shows "snd (auth_Refresh E m tok w) = Inl (Unauthorized ''invalid refresh token'')"
    and "w_db (fst (auth_Refresh E m tok w)) = w_db w"
  using RotateRefresh_spent [OF assms] unfolding auth_Refresh_def by (simp_all add: bind_or_else_fails)

lemma ResetPassword_spent:
  assumes "db_ok (w_db w)" and "auth_spent (HashToken E tok) (w_db w)"
  shows "isl (snd (ResetPassword E tok pw w))" and "w_db (fst (ResetPassword E tok pw w)) = w_db w"
  using ConsumeAuthToken_spent [OF assms] unfolding ResetPassword_def
  by (simp_all add: bind_or_else_fails bind_act_def [of "check _ _"])

lemma VerifyEmail_spent:
  assumes "db_ok (w_db w)" and "auth_spent (HashToken E tok) (w_db w)"
  shows "isl (snd (VerifyEmail E tok w))" and "w_db (fst (VerifyEmail E tok w)) = w_db w"
  using ConsumeAuthToken_spent [OF assms] unfolding VerifyEmail_def by (simp_all add: bind_or_else_fails)

section \<open>Runs without a failing connection\<close>

lemma tenantByQuery_ok:
  "w_faults w = [] \<Longrightarrow> tenantByQuery P w =
     (w, case find P (tenants (w_db w)) of None \<Rightarrow> Inl (ErrNotFound PAuth) | Some t \<Rightarrow> Inr t)"
  by (simp add: tenantByQuery_def bind_act_def sel_ok split: option.splits)

lemma issuePair_InrE:
  assumes "issuePair E m t w = (w', Inr p)"
  obtains tok where "e_jwt_sign E (tm_access_secret m)
        (access_claims E m (tn_id t) (tn_role t) (tn_username t) (w_now w)) = Some tok"
    and "tp_access p = tok" and "tp_expires p = w_now w + tm_access_ttl m" and "tp_tenant p = t"
    and "w_db w' = w_db w\<lparr>refresh_tokens := refresh_tokens (w_db w) @
          [\<lparr>rf_tenant = tn_id t, rf_hash = HashToken E (tp_refresh p),
            rf_expires = w_now w + tm_refresh_ttl m, rf_revoked = None\<rparr>]\<rparr>"
    and "db_ok (w_db w')" and "w_now w' = w_now w"
proof -
  let ?v = "w\<lparr>w_seed := Suc (Suc (w_seed w))\<rparr>"
  from assms obtain tok where
    sign: "e_jwt_sign E (tm_access_secret m)
        (access_claims E m (tn_id t) (tn_role t) (tn_username t) (w_now w)) = Some tok" and
    p: "tp_access p = tok" "tp_expires p = w_now w + tm_access_ttl m" "tp_tenant p = t" and
    save: "SaveRefresh (tn_id t) (HashToken E (tp_refresh p)) (w_now w + tm_refresh_ttl m) ?v = (w', Inr ())"
    unfolding issuePair_def IssueRefresh_def uuid_string_def
    by (auto simp: bind_Inr_iff IssueAccess_run new_uuid_run now_run Let_def split: option.splits)
  from save have db: "db_ok (w_db w')" "w_db w' = w_db w\<lparr>refresh_tokens := refresh_tokens (w_db w) @
          [\<lparr>rf_tenant = tn_id t, rf_hash = HashToken E (tp_refresh p),
            rf_expires = w_now w + tm_refresh_ttl m, rf_revoked = None\<rparr>]\<rparr>"
    unfolding SaveRefresh_def by (auto elim!: sql_InrE)
  from save have "w_now w' = w_now ?v"
    unfolding SaveRefresh_def by (rule sql_now)
  then have "w_now w' = w_now w" by simp
  from that [OF sign p db(2,1) this] show thesis .
qed

definition login_match :: "string \<Rightarrow> tenant \<Rightarrow> bool" where
  "login_match s t \<longleftrightarrow>
     (let u = ToLower (TrimSpace s)
      in if Contains u ''@'' then ToLower (tn_email t) = u else ToLower (tn_username t) = u)"

lemma login_lookup:
  "(if Contains u ''@'' then TenantByEmail u else TenantByUsername u) =
   tenantByQuery (\<lambda>t. if Contains u ''@'' then ToLower (tn_email t) = ToLower u
                      else ToLower (tn_username t) = ToLower u)"
  by (simp add: TenantByEmail_def TenantByUsername_def)

lemma login_match_iff:
  "(\<lambda>t. if Contains (ToLower (TrimSpace s)) ''@''
      then ToLower (tn_email t) = ToLower (ToLower (TrimSpace s))
      else ToLower (tn_username t) = ToLower (ToLower (TrimSpace s))) = login_match s"
  by (rule ext) (simp add: login_match_def Let_def)

lemma auth_Login_alt:
  "auth_Login E m s pw =
     bind_act (or_else (tenantByQuery (login_match s)) (Unauthorized ''invalid credentials'')) (\<lambda>t.
     bind_act (check (VerifyPassword E pw (tn_password_hash t) = Inr True)
                  (Unauthorized ''invalid credentials'')) (\<lambda>_.
     issuePair E m t))"
  by (simp add: auth_Login_def Let_def login_lookup login_match_iff)

text \<open>C8: A login that succeeds has found an account whose user name or email is the one
  given up to case, with a hash that the password satisfies; it stores the hash of the refresh
  token it hands out, and its access token opens the authenticated routes for that account.\<close>

theorem login_sound:
  assumes "jwt_ok E" and "\<And>u. e_uuid_parse E (e_uuid_str E u) = Some u"
    and "auth_Login E m s pw w = (w', Inr p)"
  shows "tp_tenant p \<in> set (tenants (w_db w)) \<and> login_match s (tp_tenant p) \<and>
     VerifyPassword E pw (tn_password_hash (tp_tenant p)) = Inr True \<and>
     refresh_tokens (w_db w') = refresh_tokens (w_db w) @
       [\<lparr>rf_tenant = tn_id (tp_tenant p), rf_hash = HashToken E (tp_refresh p),
         rf_expires = w_now w' + tm_refresh_ttl m, rf_revoked = None\<rparr>] \<and>
     (\<forall>v k. w_now v < (w_now w' + tm_access_ttl m) div Second * Second \<longrightarrow>
       Authenticated E m (''Bearer '' @ tp_access p) k v =
         k (Some \<lparr>idn_tenant = tn_id (tp_tenant p), idn_role = tn_role (tp_tenant p),
                  idn_username = tn_username (tp_tenant p)\<rparr>) v)"
proof -
  from assms(3) obtain t v where look: "tenantByQuery (login_match s) w = (v, Inr t)"
    and pw: "VerifyPassword E pw (tn_password_hash t) = Inr True" and "issuePair E m t v = (w', Inr p)"
    unfolding auth_Login_alt by (auto simp: bind_Inr_iff split: if_splits)
  note issue = issuePair_InrE [OF this(3)]
  from look have v: "w_db v = w_db w" "login_match s t" "t \<in> set (tenants (w_db w))" "w_now v = w_now w"
    using tenantByQuery_InrD [OF look] tenantByQuery_now [OF look] by simp_all
  show ?thesis
  proof (rule issue)
    fix tok assume sign: "e_jwt_sign E (tm_access_secret m)
        (access_claims E m (tn_id t) (tn_role t) (tn_username t) (w_now v)) = Some tok"
      and p: "tp_access p = tok" "tp_tenant p = t"
      and db: "w_db w' = w_db v\<lparr>refresh_tokens := refresh_tokens (w_db v) @
          [\<lparr>rf_tenant = tn_id t, rf_hash = HashToken E (tp_refresh p),
            rf_expires = w_now v + tm_refresh_ttl m, rf_revoked = None\<rparr>]\<rparr>"
      and now: "w_now w' = w_now v"
    show ?thesis unfolding p now
      by (intro conjI allI impI) (simp_all add: v pw db p access_guard [OF assms(1,2) sign, simplified])
  qed
qed

theorem login_sound_witness:
  "\<exists>w' p. auth_Login (sample_env sample_claims) sample_tm '' Ali'' ''secret'' (sample_world sample_db) = (w', Inr p) \<and>
     tp_tenant p \<in> set (tenants sample_db) \<and> length (refresh_tokens (w_db w')) = 1"
proof -
  have find: "find (login_match '' Ali'') (tenants sample_db) = Some (hd (tenants sample_db))"
    by (simp add: sample_db_def sample_tenant_def login_match_def) code_simp
  have pw: "VerifyPassword (sample_env sample_claims) ''secret'' (tn_password_hash (hd (tenants sample_db))) = Inr True"
    unfolding sample_db_def using sample_secret by simp
  have sign: "access_claims (sample_env sample_claims) sample_tm (tn_id (hd (tenants sample_db)))
      (tn_role (hd (tenants sample_db))) (tn_username (hd (tenants sample_db))) 0 = sample_claims"
    by (simp add: sample_db_def sample_tenant_def access_claims_def sample_env_def sample_claims_def
        sample_tm_def NewTokenManager_def numeric_date_def Second_def sample_show7)
  have "\<not> isl (snd (auth_Login (sample_env sample_claims) sample_tm '' Ali'' ''secret'' (sample_world sample_db)))"
    unfolding auth_Login_alt
    by (simp add: bind_act_def or_else_def map_err_def tenantByQuery_ok find pw issuePair_def IssueAccess_run sign
        IssueRefresh_def uuid_string_def new_uuid_run now_run Let_def SaveRefresh_def sql_ok sample_world_def
        commit_def sample_sign db_ok_defs)
      (simp add: sample_db_def empty_db_def sample_tenant_def)
  then obtain w' p where run:
    "auth_Login (sample_env sample_claims) sample_tm '' Ali'' ''secret'' (sample_world sample_db) = (w', Inr p)"
    by (metis isl_def prod.collapse sum.collapse(2))
  from login_sound [OF sample_jwt_ok sample_uuid run] run show ?thesis
    by (auto simp: sample_world_def sample_db_def empty_db_def)
qed

text \<open>C31: A login that finds no account, or an account whose hash the password does not satisfy,
  gets the same answer in both cases, and no table changes.\<close>

theorem login_rejects:
  assumes "\<And>t. t \<in> set (tenants (w_db w)) \<Longrightarrow> login_match s t \<Longrightarrow>
             VerifyPassword E pw (tn_password_hash t) \<noteq> Inr True"
  shows "snd (auth_Login E m s pw w) = Inl (Unauthorized ''invalid credentials'') \<and>
     w_db (fst (auth_Login E m s pw w)) = w_db w"
proof -
  obtain v r where look: "tenantByQuery (login_match s) w = (v, r)" by fastforce
  with reads_tenantByQuery have db: "w_db v = w_db w" by (rule reads_db')
  show ?thesis
  proof (cases r)
    case (Inl e)
    with look db show ?thesis by (simp add: auth_Login_alt bind_act_def or_else_def map_err_def)
  next
    case (Inr t)
    with look have "VerifyPassword E pw (tn_password_hash t) \<noteq> Inr True"
      using assms tenantByQuery_InrD [of "login_match s" w v t] by blast
    with look Inr db show ?thesis by (simp add: auth_Login_alt bind_act_def or_else_def map_err_def)
  qed
qed

theorem login_rejects_witness:
  "snd (auth_Login (sample_env sample_claims) sample_tm ''ali'' ''wrong'' (sample_world empty_db))
     = Inl (Unauthorized ''invalid credentials'')"
  by (rule login_rejects [THEN conjunct1]) (simp add: sample_world_def empty_db_def)

lemma SaveAuthToken_ok:
  "w_faults w = [] \<Longrightarrow> SaveAuthToken t p h x w =
     (let d = w_db w\<lparr>auth_tokens := auth_tokens (w_db w) @
          [\<lparr>at_tenant = t, at_purpose = p, at_hash = h, at_expires = x, at_used = None\<rparr>]\<rparr>
      in if db_ok d then (w\<lparr>w_db := d\<rparr>, Inr ()) else (w, Inl (ErrDb Violation)))"
  by (simp add: SaveAuthToken_def sql_ok commit_def Let_def)

lemma sendToken_InrE:
  assumes "sendToken E t p ttl subj w = (w', Inr ())"
  obtains raw where "auth_tokens (w_db w') = auth_tokens (w_db w) @
      [\<lparr>at_tenant = tn_id t, at_purpose = p, at_hash = HashToken E raw, at_expires = w_now w + ttl,
        at_used = None\<rparr>]"
    and "w_db w' = (w_db w)\<lparr>auth_tokens := auth_tokens (w_db w')\<rparr>" and "db_ok (w_db w')"
    and "w_outbox w' = w_outbox w @ [\<lparr>ms_to = tn_email t, ms_subject = subj,
           ms_body = ''Use this link: '' @ (if p = ''reset_password'' then ''/reset'' else ''/verify-email'')
             @ ''?token='' @ raw\<rparr>]"
proof -
  let ?v = "w\<lparr>w_seed := Suc (Suc (w_seed w))\<rparr>"
  from assms obtain raw u where
    save: "SaveAuthToken (tn_id t) p (HashToken E raw) (w_now w + ttl) ?v = (u, Inr ())" and
    w': "w' = u\<lparr>w_outbox := w_outbox u @ [\<lparr>ms_to = tn_email t, ms_subject = subj,
           ms_body = ''Use this link: '' @ (if p = ''reset_password'' then ''/reset'' else ''/verify-email'')
             @ ''?token='' @ raw\<rparr>]\<rparr>"
    unfolding sendToken_def uuid_string_def
    by (auto simp: bind_Inr_iff new_uuid_run now_run Let_def)
  from save have db: "w_db u = w_db w\<lparr>auth_tokens := auth_tokens (w_db w) @
      [\<lparr>at_tenant = tn_id t, at_purpose = p, at_hash = HashToken E raw, at_expires = w_now w + ttl,
        at_used = None\<rparr>]\<rparr>" "db_ok (w_db u)"
    unfolding SaveAuthToken_def by (auto elim!: sql_InrE)
  from save have "w_outbox u = w_outbox ?v"
    unfolding SaveAuthToken_def by (rule sql_outbox)
  with db w' that [of raw] show thesis by simp
qed

lemma auth_CreateTenant_InrE:
  assumes "auth_CreateTenant E t w = (w', Inr t')"
  obtains "t' = t\<lparr>tn_id := e_uuid_gen E (w_seed w), tn_created := w_now w, tn_email_verified := False\<rparr>"
    and "w_db w' = w_db w\<lparr>tenants := tenants (w_db w) @ [t']\<rparr>" and "db_ok (w_db w')"
    and "w_now w' = w_now w" and "w_outbox w' = w_outbox w"
proof -
  let ?t = "t\<lparr>tn_id := e_uuid_gen E (w_seed w), tn_created := w_now w, tn_email_verified := False\<rparr>"
  from assms have run: "sql (\<lambda>d. commit ?t (d\<lparr>tenants := tenants d @ [?t]\<rparr>)) (w\<lparr>w_seed := Suc (w_seed w)\<rparr>) = (w', Inr t')"
    by (simp add: auth_CreateTenant_def bind_act_def new_uuid_run now_run Let_def)
  from sql_outbox [OF run] have "w_outbox w' = w_outbox w" by simp
  moreover from sql_now [OF run] have "w_now w' = w_now w" by simp
  ultimately show thesis using run that by (auto elim!: sql_InrE)
qed

definition user_taken :: "register_input \<Rightarrow> db \<Rightarrow> bool" where
  "user_taken i d \<longleftrightarrow> (\<exists>t \<in> set (tenants d). ToLower (tn_username t) = ToLower (ri_username i))"

definition email_taken :: "register_input \<Rightarrow> db \<Rightarrow> bool" where
  "email_taken i d \<longleftrightarrow> (\<exists>t \<in> set (tenants d). ToLower (tn_email t) = ToLower (ri_email i))"

definition fresh_seller :: "register_input \<Rightarrow> string \<Rightarrow> tenant" where
  "fresh_seller i hash =
     \<lparr>tn_id = uuid_Nil, tn_username = ri_username i, tn_email = ri_email i,
      tn_password_hash = hash, tn_role = ''seller'', tn_full_name = ri_full_name i,
      tn_store_name = ri_store_name i, tn_phone = ri_phone i, tn_email_verified = False,
      tn_created = 0\<rparr>"

lemma db_tenants_frame: "d' = (d\<lparr>tenants := ts\<rparr>)\<lparr>auth_tokens := as\<rparr> \<Longrightarrow> tenants d' = ts"
  by simp

lemma TenantByUsername_isl:
  "w_faults w = [] \<Longrightarrow> fst (TenantByUsername (ri_username i) w) = w \<and>
     isl (snd (TenantByUsername (ri_username i) w)) = (\<not> user_taken i (w_db w))"
  by (auto simp: TenantByUsername_def tenantByQuery_ok user_taken_def find_None_iff split: option.splits
      dest: find_Some_iff')

lemma TenantByEmail_isl:
  "w_faults w = [] \<Longrightarrow> fst (TenantByEmail (ri_email i) w) = w \<and>
     isl (snd (TenantByEmail (ri_email i) w)) = (\<not> email_taken i (w_db w))"
  by (auto simp: TenantByEmail_def tenantByQuery_ok email_taken_def find_None_iff split: option.splits
      dest: find_Some_iff')

lemma Register_run:
  assumes "w_faults w = []"
  defines "i \<equiv> register_normal"
  shows "auth_Register E a w =
    (if register_fields (i a) \<noteq> [] then (w, Inl (Validation (register_fields (i a))))
     else if user_taken (i a) (w_db w) then (w, Inl (Conflict ''username already taken''))
     else if email_taken (i a) (w_db w) then (w, Inl (Conflict ''email already registered''))
     else bind_act (HashPassword E (ri_password (i a))) (\<lambda>hash.
          bind_act (auth_CreateTenant E (fresh_seller (i a) hash)) (\<lambda>t.
          bind_act (sendToken E t ''verify_email'' (24 * Hour) ''Verify your MUDAHURUS account'') (\<lambda>_.
          ret t))) w)"
  using TenantByUsername_isl [OF assms(1), of "i a"] TenantByEmail_isl [OF assms(1), of "i a"]
  unfolding auth_Register_def Let_def i_def [symmetric] fresh_seller_def
  by (simp add: bind_act_def [of "valid_or _"] bind_act_def [of "check _ _"] bind_attempt)

text \<open>C32: A registration is refused, with no change at all, when a field is wrong (422 with the
  fields), when the user name is taken by an account up to case, or when the email is (409).\<close>

theorem register_refuses:
  assumes "w_faults w = []"
    and "register_fields (register_normal a) \<noteq> [] \<or> user_taken (register_normal a) (w_db w) \<or>
         email_taken (register_normal a) (w_db w)"
  shows "auth_Register E a w = (w, Inl
     (if register_fields (register_normal a) \<noteq> [] then Validation (register_fields (register_normal a))
      else if user_taken (register_normal a) (w_db w) then Conflict ''username already taken''
      else Conflict ''email already registered''))"
  using assms(2) by (auto simp: Register_run [OF assms(1)])

text \<open>C33: A registration that succeeds appends exactly one account: a seller under the
  normalised name, with an unverified email and a hash that the password satisfies, its name and
  email not taken before. It stores the hash of one verification token that lives 24 hours and
  mails that token to the account.\<close>

theorem register_creates:
  assumes "w_faults w = []" and "argon2_len E" and "auth_Register E a w = (w', Inr t)"
  shows "tenants (w_db w') = tenants (w_db w) @ [t] \<and> db_ok (w_db w') \<and>
     \<not> user_taken (register_normal a) (w_db w) \<and> \<not> email_taken (register_normal a) (w_db w) \<and>
     tn_username t = ToLower (TrimSpace (ri_username a)) \<and> tn_email t = ToLower (TrimSpace (ri_email a)) \<and>
     tn_role t = ''seller'' \<and> \<not> tn_email_verified t \<and>
     VerifyPassword E (ri_password a) (tn_password_hash t) = Inr True \<and>
     (\<exists>raw. auth_tokens (w_db w') = auth_tokens (w_db w) @
          [\<lparr>at_tenant = tn_id t, at_purpose = ''verify_email'', at_hash = HashToken E raw,
            at_expires = w_now w + 24 * Hour, at_used = None\<rparr>] \<and>
        w_outbox w' = w_outbox w @
          [\<lparr>ms_to = tn_email t, ms_subject = ''Verify your MUDAHURUS account'',
            ms_body = ''Use this link: '' @ ''/verify-email'' @ ''?token='' @ raw\<rparr>])"
proof -
  let ?i = "register_normal a"
  from assms(3) obtain hash v1 v2 where free: "\<not> user_taken ?i (w_db w)" "\<not> email_taken ?i (w_db w)"
    and hash: "HashPassword E (ri_password ?i) w = (v1, Inr hash)"
    and create: "auth_CreateTenant E (fresh_seller ?i hash) v1 = (v2, Inr t)"
    and send: "sendToken E t ''verify_email'' (24 * Hour) ''Verify your MUDAHURUS account'' v2 = (w', Inr ())"
    by (auto simp: Register_run [OF assms(1)] bind_Inr_iff split: if_splits)
  from hash have v1: "v1 = w\<lparr>w_seed := Suc (w_seed w)\<rparr>" by (rule HashPassword_InrE)
  from HashPassword_verifies [OF assms(2) hash]
  have pw: "VerifyPassword E (ri_password a) hash = Inr True" by (simp add: register_normal_def)
  from create have t: "t = (fresh_seller ?i hash)\<lparr>tn_id := e_uuid_gen E (w_seed v1), tn_created := w_now v1\<rparr>"
    and v2: "w_db v2 = w_db w\<lparr>tenants := tenants (w_db w) @ [t]\<rparr>" "w_now v2 = w_now w" "w_outbox v2 = w_outbox w"
    unfolding v1 by (auto simp: fresh_seller_def elim!: auth_CreateTenant_InrE)
  from send obtain raw where tok: "auth_tokens (w_db w') = auth_tokens (w_db v2) @
      [\<lparr>at_tenant = tn_id t, at_purpose = ''verify_email'', at_hash = HashToken E raw,
        at_expires = w_now v2 + 24 * Hour, at_used = None\<rparr>]"
    and db: "w_db w' = (w_db v2)\<lparr>auth_tokens := auth_tokens (w_db w')\<rparr>" "db_ok (w_db w')"
    and out: "w_outbox w' = w_outbox v2 @ [\<lparr>ms_to = tn_email t, ms_subject = ''Verify your MUDAHURUS account'',
           ms_body = ''Use this link: '' @ (if ''verify_email'' = ''reset_password'' then ''/reset'' else ''/verify-email'')
             @ ''?token='' @ raw\<rparr>]"
    by (rule sendToken_InrE)
  from db(1) v2(1) have "tenants (w_db w') = tenants (w_db w) @ [t]" by (metis db_tenants_frame)
  with free pw tok out v2 db(2) show ?thesis
    by (auto simp: t fresh_seller_def register_normal_def)
qed

definition sample_register :: register_input where
  "sample_register =
     \<lparr>ri_username = '' Siti'', ri_email = ''siti@x.my'', ri_password = ''password'', ri_full_name = ''Siti'',
      ri_store_name = ''Kedai'', ri_phone = ''''\<rparr>"

lemma sample_register_normal: "register_normal sample_register = sample_register\<lparr>ri_username := ''siti''\<rparr>"
proof -
  have "ToLower (TrimSpace '' Siti'') = ''siti''" "ToLower (TrimSpace ''siti@x.my'') = ''siti@x.my''"
    by code_simp+
  then show ?thesis by (simp add: register_normal_def sample_register_def)
qed

lemma sample_register_name: "ToLower (TrimSpace (ri_username sample_register)) = ''siti''"
  using arg_cong [OF sample_register_normal, of ri_username]
  by (simp only: register_normal_def register_input.simps register_input.ext_inject) simp

lemma sample_register_fields: "register_fields (register_normal sample_register) = []"
proof -
  have "TrimSpace ''password'' \<noteq> []" "TrimSpace ''siti@x.my'' \<noteq> []" "TrimSpace ''siti'' \<noteq> []"
    "Contains ''siti@x.my'' ''@''" by code_simp+
  then show ?thesis
    by (simp add: register_fields_def sample_register_normal) (simp add: sample_register_def)
qed

theorem register_refuses_witness:
  "auth_Register (sample_env sample_claims) (sample_register\<lparr>ri_password := ''short''\<rparr>) (sample_world empty_db) =
     (sample_world empty_db,
      Inl (Validation (register_fields (register_normal (sample_register\<lparr>ri_password := ''short''\<rparr>)))))"
proof -
  have "register_fields (register_normal (sample_register\<lparr>ri_password := ''short''\<rparr>)) \<noteq> []"
    by (simp add: register_fields_def register_normal_def)
  then show ?thesis by (subst register_refuses) (simp_all add: sample_world_def)
qed

theorem register_creates_witness:
  "\<exists>w' t. auth_Register (sample_env sample_claims) sample_register (sample_world empty_db) = (w', Inr t) \<and>
     tenants (w_db w') = [t] \<and> tn_username t = ''siti'' \<and> length (w_outbox w') = 1"
proof -
  let ?w = "sample_world empty_db"
  have "\<not> user_taken i empty_db \<and> \<not> email_taken i empty_db" for i
    by (simp add: user_taken_def email_taken_def empty_db_def)
  then have "\<not> isl (snd (auth_Register (sample_env sample_claims) sample_register ?w))"
    by (simp add: Register_run sample_register_fields sample_world_def bind_act_def HashPassword_def
        rand_bytes_def sample_env_def Let_def auth_CreateTenant_def new_uuid_run now_run sql_ok commit_def
        sendToken_def uuid_string_def SaveAuthToken_def db_ok_defs empty_db_def fresh_seller_def)
  then obtain w' t where run: "auth_Register (sample_env sample_claims) sample_register ?w = (w', Inr t)"
    by (metis isl_def prod.collapse sum.collapse(2))
  from register_creates [OF _ sample_argon2_len run] run show ?thesis
    using sample_register_name by (auto simp: sample_world_def empty_db_def)
qed

section \<open>Resetting a password\<close>

lemma auth_update_InrE:
  assumes "auth_update i f w = (w', Inr x)"
  obtains "w_db w' = w_db w\<lparr>tenants := update_rows (\<lambda>t. tn_id t = i) f (tenants (w_db w))\<rparr>"
    and "db_ok (w_db w')"
  using assms unfolding auth_update_def by (auto elim!: sql_InrE)

lemma ConsumeAuthToken_InrE:
  assumes "ConsumeAuthToken p h w = (w', Inr t)"
  obtains as where "w_db w' = w_db w\<lparr>auth_tokens := as\<rparr>"
  using assms unfolding ConsumeAuthToken_def
  by (auto simp: bind_Inr_iff now_run split: option.splits elim!: sql_InrE)

lemma ConsumeAuthToken_tenants:
  "ConsumeAuthToken p h w = (w', r) \<Longrightarrow> tenants (w_db w') = tenants (w_db w)"
  unfolding ConsumeAuthToken_def
  by (auto simp: bind_act_def now_run sql_def commit_def
      split: list.splits bool.splits option.splits prod.splits sum.splits if_splits)

text \<open>C18: A password reset that succeeds needed a live reset token (right purpose, unused, not
  expired); it sets the password of that token's account only, every other account keeps its
  row, and the token is spent. A failed one leaves every account as it was.\<close>

theorem reset_password_effect:
  assumes "argon2_len E" and "ResetPassword E tok pw w = (w', r)"
  shows "(case r of
      Inl _ \<Rightarrow> tenants (w_db w') = tenants (w_db w)
    | Inr _ \<Rightarrow> \<exists>row hash. row \<in> set (auth_tokens (w_db w)) \<and>
         token_live ''reset_password'' (HashToken E tok) (w_now w) row \<and> 8 \<le> length pw \<and>
         VerifyPassword E pw hash = Inr True \<and> auth_spent (HashToken E tok) (w_db w') \<and>
         tenants (w_db w') = map (\<lambda>t. if tn_id t = at_tenant row then t\<lparr>tn_password_hash := hash\<rparr> else t)
                               (tenants (w_db w)))"
proof (cases r)
  case (Inr x)
  with assms(2) obtain i v1 hash v2 where len: "8 \<le> length pw"
    and consume: "ConsumeAuthToken ''reset_password'' (HashToken E tok) w = (v1, Inr i)"
    and hash: "HashPassword E pw v1 = (v2, Inr hash)" and upd: "UpdatePassword i hash v2 = (w', Inr x)"
    unfolding ResetPassword_def by (auto simp: bind_Inr_iff split: if_splits)
  from ConsumeAuthToken_spends [OF consume] obtain row where
    row: "row \<in> set (auth_tokens (w_db w))" "token_live ''reset_password'' (HashToken E tok) (w_now w) row"
      "at_tenant row = i" and spent: "auth_spent (HashToken E tok) (w_db v1)" by blast
  from consume obtain as where v1: "w_db v1 = w_db w\<lparr>auth_tokens := as\<rparr>" by (rule ConsumeAuthToken_InrE)
  from hash have v2: "w_db v2 = w_db v1" by (rule reads_db' [OF reads_HashPassword])
  from upd have w': "w_db w' = w_db v2\<lparr>tenants := update_rows (\<lambda>t. tn_id t = i)
      (\<lambda>t. t\<lparr>tn_password_hash := hash\<rparr>) (tenants (w_db v2))\<rparr>"
    unfolding UpdatePassword_def by (rule auth_update_InrE)
  have "auth_spent (HashToken E tok) (w_db w')" using spent by (simp add: w' v2 auth_spent_def)
  moreover have "tenants (w_db w') = map (\<lambda>t. if tn_id t = at_tenant row then t\<lparr>tn_password_hash := hash\<rparr> else t)
                               (tenants (w_db w))"
    by (simp add: w' v2 v1 row(3) update_rows_def)
  ultimately show ?thesis using Inr row len HashPassword_verifies [OF assms(1) hash] by auto
next
  case (Inl e)
  have upd: "tenants (w_db v) = tenants (w_db u)" if "UpdatePassword i hash u = (v, Inl e)" for i hash u v
    using that unfolding UpdatePassword_def auth_update_def by (auto dest: sql_cases)
  have hash: "w_db v = w_db u" if "HashPassword E pw u = (v, s)" for u v s
    using that by (rule reads_db' [OF reads_HashPassword])
  show ?thesis
    using assms(2) Inl unfolding ResetPassword_def
    by (auto simp: bind_Inl_iff or_else_Inl_iff split: if_splits
        dest!: ConsumeAuthToken_tenants upd hash)
qed

definition sample_reset_db :: db where
  "sample_reset_db = sample_db\<lparr>auth_tokens :=
     [\<lparr>at_tenant = 7, at_purpose = ''reset_password'', at_hash = HashToken (sample_env sample_claims) ''tok'',
       at_expires = Hour, at_used = None\<rparr>]\<rparr>"

theorem reset_password_effect_witness:
  "\<exists>w' x. ResetPassword (sample_env sample_claims) ''tok'' ''password'' (sample_world sample_reset_db) = (w', Inr x) \<and>
     auth_spent (HashToken (sample_env sample_claims) ''tok'') (w_db w')"
proof -
  let ?w = "sample_world sample_reset_db"
  have "\<not> isl (snd (ResetPassword (sample_env sample_claims) ''tok'' ''password'' ?w))"
    by (simp add: ResetPassword_def ConsumeAuthToken_def bind_act_def now_run sql_ok commit_def sample_reset_db_def
        sample_world_def token_live_def or_else_def map_err_def HashPassword_def rand_bytes_def Let_def
        UpdatePassword_def auth_update_def update_rows_def Hour_def Second_def sample_rand
        db_ok_defs sample_db_def empty_db_def sample_tenant_def)
  then obtain w' x where run: "ResetPassword (sample_env sample_claims) ''tok'' ''password'' ?w = (w', Inr x)"
    by (metis isl_def prod.collapse sum.collapse(2))
  from reset_password_effect [OF sample_argon2_len run] run show ?thesis by auto
qed

section \<open>Account changes stay with the account\<close>

lemma isolates_tenants:
  assumes "db_ok (d\<lparr>tenants := update_rows (\<lambda>u. tn_id u = t) f (tenants d)\<rparr>)"
    and "\<And>u. tn_id (f u) = tn_id u"
  shows "isolates_db t d (d\<lparr>tenants := update_rows (\<lambda>u. tn_id u = t) f (tenants d)\<rparr>)"
proof -
  have "filter (\<lambda>u. tn_id u \<noteq> t) (update_rows (\<lambda>u. tn_id u = t) f (tenants d)) = filter (\<lambda>u. tn_id u \<noteq> t) (tenants d)"
    by (rule update_rows_frame) (use assms(2) in auto)
  with assms(1) show ?thesis by (simp add: isolates_db_def view_def order_ids_def)
qed

lemma iso_auth_update: "(\<And>u. tn_id (f u) = tn_id u) \<Longrightarrow> keeps (isolates t) (auth_update t f)"
  unfolding auth_update_def by (rule iso_sql) (auto intro: isolates_tenants)

lemma iso_reads: "reads m \<Longrightarrow> keeps (isolates t) m"
  unfolding isolates_def by (rule reads_keeps) simp_all

lemmas iso_auth_reads = auth_reads [THEN iso_reads]

lemma iso_account:
  "keeps (isolates t) (service_UpdateProfile t a b c)" "keeps (isolates t) (Me t)"
  "keeps (isolates t) (ChangePassword E t oldPw newPw)"
  unfolding service_UpdateProfile_def store_UpdateProfile_def TenantByID_def Me_def ChangePassword_def
    UpdatePassword_def
  by (intro iso_basics iso_auth_update iso_auth_reads; simp)+

lemma iso_account_handlers:
  "keeps (isolates (tid ctx)) (h_me ctx)" "keeps (isolates (tid ctx)) (h_updateProfile ctx tr)"
  "keeps (isolates (tid ctx)) (h_changePassword E ctx ps)"
  unfolding h_me_def h_updateProfile_def h_changePassword_def
  by (intro iso_basics iso_account)+

end
