(* ===== verification/Storage.thy ===== *)
theory Storage
  imports Auth
begin

text \<open>
  Object storage (\<open>api/internal/storage\<close>: \<open>storage.go\<close>, \<open>local.go\<close>) and the signed file route
  of \<open>server.go\<close>. The interface \<open>storage.Storage\<close> is a record of functions, the value a handler
  is given; \<open>LocalStorage\<close> is the local back end over the files in \<open>w_files\<close>, where every
  file operation may fail as a statement may (\<open>w_faults\<close>), and \<open>S3Storage\<close> (\<open>s3.go\<close>) the back end over
  a MinIO client, which is a parameter. What handlers rely on is the locale \<open>object_store\<close>, which both
  fulfil; \<open>lasting_store\<close> extends it and is interpreted on \<open>LocalStorage\<close>. HMAC and the MIME table are
  parameters (\<open>app_env\<close>, which also has the time zone of the server, in seconds east).
\<close>

record app_env = auth_env +
  e_hmac :: "string \<Rightarrow> string \<Rightarrow> string"
  e_mime_ext :: "string \<Rightarrow> string"
  e_local_offset :: "time \<Rightarrow> int"

section \<open>Keys (storage.go)\<close>

definition MaxUploadBytes :: nat where
  "MaxUploadBytes = 8 * 2 ^ 20"

definition AllowedImageMIME :: "string \<Rightarrow> bool" where
  "AllowedImageMIME ct \<longleftrightarrow> ct \<in> set [''image/jpeg'', ''image/png'', ''image/webp'', ''image/gif'']"

definition AllowedProofMIME :: "string \<Rightarrow> bool" where
  "AllowedProofMIME ct \<longleftrightarrow> ct \<in> set [''image/jpeg'', ''image/png'', ''image/webp'', ''application/pdf'']"

definition safe_rune :: "nat \<Rightarrow> bool" where
  "safe_rune r \<longleftrightarrow> 97 \<le> r \<and> r \<le> 122 \<or> 65 \<le> r \<and> r \<le> 90 \<or> 48 \<le> r \<and> r \<le> 57 \<or> r = 46 \<or> r = 45 \<or> r = 95"

definition sanitize :: "string \<Rightarrow> string" where
  "sanitize name =
     (let out = map (\<lambda>r. if safe_rune r then char_of r else CHR ''_'') (runes name)
      in if out = [] then ''file'' else out)"

definition keyFor :: "'z env_scheme \<Rightarrow> uuid \<Rightarrow> string \<Rightarrow> string \<Rightarrow> string go" where
  "keyFor E tenantID prefix filename =
     bind_act (uuid_string E) (\<lambda>u.
       ret (e_uuid_str E tenantID @ ''/'' @ prefix @ ''/'' @ u @ ''-'' @ sanitize filename))"

text \<open>\<open>storage.Storage\<close>: \<open>Put\<close> (tenant, prefix, file name, content type, content),
  \<open>SignedGetURL\<close> (key, seconds), \<open>Delete\<close>, \<open>Open\<close> (content and content type).\<close>

record storage =
  st_Put :: "uuid \<Rightarrow> string \<Rightarrow> string \<Rightarrow> string \<Rightarrow> string \<Rightarrow> string go"
  st_SignedGetURL :: "string \<Rightarrow> int \<Rightarrow> string go"
  st_Delete :: "string \<Rightarrow> unit go"
  st_Open :: "string \<Rightarrow> (string \<times> string) go"

section \<open>Paths and files\<close>

text \<open>\<open>filepath.Clean\<close> and \<open>filepath.Join\<close> of a root and a key.\<close>

fun clean_parts :: "bool \<Rightarrow> string list \<Rightarrow> string list \<Rightarrow> string list" where
  "clean_parts rooted [] acc = rev acc"
| "clean_parts rooted (p # ps) acc =
     (if p = '''' \<or> p = ''.'' then clean_parts rooted ps acc
      else if p = ''..'' then
        (case acc of
           [] \<Rightarrow> clean_parts rooted ps (if rooted then [] else [''..''])
         | a # as \<Rightarrow> if a = ''..'' then clean_parts rooted ps (p # acc) else clean_parts rooted ps as)
      else clean_parts rooted ps (p # acc))"

definition Clean :: "string \<Rightarrow> string" where
  "Clean path =
     (let rooted = HasPrefix path ''/''; out = Join (clean_parts rooted (Split path (CHR ''/'')) []) ''/''
      in if rooted then ''/'' @ out else if out = '''' then ''.'' else out)"

definition path_Join :: "string \<Rightarrow> string \<Rightarrow> string" where
  "path_Join a b = Clean (if a = '''' then b else if b = '''' then a else a @ ''/'' @ b)"

definition file_err :: go_err where
  "file_err = ErrMsg ''file''"

definition fs :: "((string \<times> string) list \<Rightarrow> go_err + 'a \<times> (string \<times> string) list) \<Rightarrow> 'a go" where
  "fs q w =
     (case w_faults w of
        True # rest \<Rightarrow> (w\<lparr>w_faults := rest\<rparr>, Inl file_err)
      | rest \<Rightarrow>
          (case q (w_files w) of
             Inl e \<Rightarrow> (w\<lparr>w_faults := tl rest\<rparr>, Inl e)
           | Inr (x, f) \<Rightarrow> (w\<lparr>w_faults := tl rest, w_files := f\<rparr>, Inr x)))"

definition write_file :: "string \<Rightarrow> string \<Rightarrow> unit go" where
  "write_file path content = fs (\<lambda>f. Inr ((), AList.update path content f))"

definition remove_file :: "string \<Rightarrow> unit go" where
  "remove_file path = fs (\<lambda>f. Inr ((), AList.delete path f))"

definition read_file :: "string \<Rightarrow> string go" where
  "read_file path = fs (\<lambda>f. case map_of f path of None \<Rightarrow> Inl (ErrMsg ''no such file'') | Some b \<Rightarrow> Inr (b, f))"

definition mkdir_all :: "unit go" where
  "mkdir_all = fs (\<lambda>f. Inr ((), f))"

definition path_Ext :: "string \<Rightarrow> string" where
  "path_Ext p =
     (let b = rev (takeWhile (\<lambda>c. c \<noteq> CHR ''/'') (rev p))
      in if CHR ''.'' \<in> set b then CHR ''.'' # rev (takeWhile (\<lambda>c. c \<noteq> CHR ''.'') (rev b)) else '''')"

section \<open>The local back end (local.go)\<close>

record local_storage =
  ls_root :: string
  ls_base_url :: string
  ls_signer_key :: string

definition local_path :: "local_storage \<Rightarrow> string \<Rightarrow> string" where
  "local_path s key = path_Join (ls_root s) key"

text \<open>
  \<open>os.Create\<close> makes an empty file. A copy that breaks off leaves it there; how much it had
  written is not modelled.
\<close>

definition local_Put ::
  "'z app_env_scheme \<Rightarrow> local_storage \<Rightarrow> uuid \<Rightarrow> string \<Rightarrow> string \<Rightarrow> string \<Rightarrow> string \<Rightarrow> string go" where
  "local_Put E s tenantID prefix filename contentType r =
     bind_act (keyFor E tenantID prefix filename) (\<lambda>key.
     (let full = local_path s key in
      bind_act mkdir_all (\<lambda>_.
      bind_act (write_file full '''') (\<lambda>_.
      (let body = take (MaxUploadBytes + 1) r in
       bind_act (write_file full body) (\<lambda>_.
       if length body > MaxUploadBytes then
         bind_act (ignore (remove_file full)) (\<lambda>_.
           raise (ErrMsg (''object exceeds max size '' @ show_nat MaxUploadBytes @ '' bytes'')))
       else
         bind_act (ignore (write_file (full @ ''.ct'') contentType)) (\<lambda>_. ret key)))))))"

definition unix :: "time \<Rightarrow> int" where
  "unix t = t div Second"

definition sign_msg :: "string \<Rightarrow> int \<Rightarrow> string" where
  "sign_msg key ex = key @ '':'' @ Itoa ex"

definition sign :: "'z app_env_scheme \<Rightarrow> local_storage \<Rightarrow> string \<Rightarrow> int \<Rightarrow> string" where
  "sign E s key ex = hex_encode (e_hmac E (ls_signer_key s) (sign_msg key ex))"

definition local_SignedGetURL :: "'z app_env_scheme \<Rightarrow> local_storage \<Rightarrow> string \<Rightarrow> int \<Rightarrow> string go" where
  "local_SignedGetURL E s key ttlSeconds =
     bind_act now (\<lambda>n.
       (let ex = unix (n + ttlSeconds * Second); sig = sign E s key ex
        in ret (ls_base_url s @ ''/'' @ key @ ''?'' @ ''exp='' @ Itoa ex @ ''&sig='' @ sig)))"

definition local_Delete :: "local_storage \<Rightarrow> string \<Rightarrow> unit go" where
  "local_Delete s key =
     (let full = local_path s key in
      bind_act (ignore (remove_file (full @ ''.ct''))) (\<lambda>_. remove_file full))"

definition local_Open :: "'z app_env_scheme \<Rightarrow> local_storage \<Rightarrow> string \<Rightarrow> (string \<times> string) go" where
  "local_Open E s key =
     (let full = local_path s key in
      bind_act (read_file full) (\<lambda>f.
      bind_act (attempt (read_file (full @ ''.ct''))) (\<lambda>r.
        ret (f, case r of
              Inr b \<Rightarrow> if b \<noteq> '''' then b
                       else if e_mime_ext E (path_Ext key) \<noteq> '''' then e_mime_ext E (path_Ext key)
                       else ''application/octet-stream''
            | Inl _ \<Rightarrow> if e_mime_ext E (path_Ext key) \<noteq> '''' then e_mime_ext E (path_Ext key)
                       else ''application/octet-stream''))))"

definition local_Verify :: "'z app_env_scheme \<Rightarrow> local_storage \<Rightarrow> string \<Rightarrow> string \<Rightarrow> int \<Rightarrow> bool go" where
  "local_Verify E s key sig ex =
     bind_act now (\<lambda>n. ret (if unix n > ex then False else sign E s key ex = sig))"

definition LocalStorage :: "'z app_env_scheme \<Rightarrow> local_storage \<Rightarrow> storage" where
  "LocalStorage E s =
     \<lparr>st_Put = local_Put E s, st_SignedGetURL = local_SignedGetURL E s, st_Delete = local_Delete s,
      st_Open = local_Open E s\<rparr>"

section \<open>The file route (server.go)\<close>

text \<open>
  \<open>strconv.ParseInt\<close> in base 10 reads what \<open>Atoi\<close> reads, and a text that is no number as 0,
  out of range as the nearest bound. The answer is the content and its type.
\<close>

definition localFileHandler ::
  "'z app_env_scheme \<Rightarrow> local_storage \<Rightarrow> string \<Rightarrow> (string \<Rightarrow> string) \<Rightarrow> (string \<times> string) go" where
  "localFileHandler E ls key query =
     (let sig = query ''sig''; ex = fst (Atoi (query ''exp'')) in
      bind_act (local_Verify E ls key sig ex) (\<lambda>ok.
      bind_act (check ok (Forbidden ''invalid or expired signature'')) (\<lambda>_.
      or_else (local_Open E ls key) (NotFound ''file not found''))))"
section \<open>Runs\<close>

lemma fs_ok:
  "w_faults w = [] \<Longrightarrow>
   fs q w = (case q (w_files w) of Inl e \<Rightarrow> (w, Inl e) | Inr (x, f) \<Rightarrow> (w\<lparr>w_files := f\<rparr>, Inr x))"
  by (auto simp: fs_def split: sum.splits prod.splits)

lemma fs_db: "w_db (fst (fs q w)) = w_db w"
  by (auto simp: fs_def split: list.splits bool.splits sum.splits prod.splits)

lemma reads_fs: "reads (fs q)"
  by (simp add: keeps_def same_db_def fs_db)

lemmas file_ops = write_file_def remove_file_def read_file_def mkdir_all_def

lemma reads_files:
  "reads (write_file p c)" "reads (remove_file p)" "reads (read_file p)" "reads mkdir_all"
  unfolding file_ops by (rule reads_fs)+

lemma reads_keyFor: "reads (keyFor E t p f)"
  unfolding keyFor_def by (intro reads_combinators reads_uuid_string)

lemma reads_local_Put: "reads (local_Put E s t p f ct r)"
  unfolding local_Put_def by (intro reads_combinators reads_files reads_keyFor)

lemma reads_local_SignedGetURL: "reads (local_SignedGetURL E s key ttl)"
  unfolding local_SignedGetURL_def by (intro reads_combinators)

lemma reads_local_Delete: "reads (local_Delete s key)"
  unfolding local_Delete_def by (intro reads_combinators reads_files)

lemma reads_local_Open: "reads (local_Open E s key)"
  unfolding local_Open_def by (intro reads_combinators reads_files)

definition put_key :: "'z env_scheme \<Rightarrow> uuid \<Rightarrow> string \<Rightarrow> string \<Rightarrow> nat \<Rightarrow> string" where
  "put_key E t p f n =
     e_uuid_str E t @ ''/'' @ p @ ''/'' @ e_uuid_str E (e_uuid_gen E n) @ ''-'' @ sanitize f"

lemma keyFor_run: "keyFor E t p f w = (w\<lparr>w_seed := Suc (w_seed w)\<rparr>, Inr (put_key E t p f (w_seed w)))"
  by (simp add: keyFor_def uuid_string_def bind_act_def new_uuid_run put_key_def)

lemma local_Put_ok:
  assumes "w_faults w = []" and "key = put_key E t p f (w_seed w)"
  shows "\<exists>w'. local_Put E s t p f ct r w =
      (w', if length r > MaxUploadBytes
           then Inl (ErrMsg (''object exceeds max size '' @ show_nat MaxUploadBytes @ '' bytes''))
           else Inr key) \<and>
    w_faults w' = [] \<and>
    (length r \<le> MaxUploadBytes \<longrightarrow>
       w_files w' = AList.update (local_path s key @ ''.ct'') ct
         (AList.update (local_path s key) r (AList.update (local_path s key) '''' (w_files w))))"
  using assms unfolding local_Put_def Let_def
  by (auto simp: bind_act_def keyFor_run file_ops fs_ok ignore_def)

lemma local_Open_ok:
  "w_faults w = [] \<Longrightarrow> local_Open E s key w =
     (w, case map_of (w_files w) (local_path s key) of
           None \<Rightarrow> Inl (ErrMsg ''no such file'')
         | Some f \<Rightarrow> Inr (f, case map_of (w_files w) (local_path s key @ ''.ct'') of
               None \<Rightarrow> if e_mime_ext E (path_Ext key) \<noteq> '''' then e_mime_ext E (path_Ext key)
                      else ''application/octet-stream''
             | Some b \<Rightarrow> if b \<noteq> '''' then b
                        else if e_mime_ext E (path_Ext key) \<noteq> '''' then e_mime_ext E (path_Ext key)
                        else ''application/octet-stream''))"
  by (auto simp: local_Open_def Let_def bind_act_def attempt_def file_ops fs_ok split: option.splits)

lemma local_Delete_ok:
  "w_faults w = [] \<Longrightarrow> local_Delete s key w =
     (w\<lparr>w_files := AList.delete (local_path s key) (AList.delete (local_path s key @ ''.ct'') (w_files w))\<rparr>, Inr ())"
  by (simp add: local_Delete_def Let_def bind_act_def ignore_def file_ops fs_ok)

section \<open>The contract of an object store\<close>

locale object_store =
  fixes S :: storage
  assumes put_reads: "reads (st_Put S t p f ct r)"
    and url_reads: "reads (st_SignedGetURL S key ttl)"
    and delete_reads: "reads (st_Delete S key)"
    and open_reads: "reads (st_Open S key)"
begin

lemmas store_reads = put_reads url_reads delete_reads open_reads

end

text \<open>What the local back end promises besides: an object is there after \<open>Put\<close> and gone after \<open>Delete\<close>.\<close>

locale lasting_store = object_store S for S :: storage +
  assumes put_open: "w_faults w = [] \<Longrightarrow> st_Put S t p f ct r w = (w', Inr key) \<Longrightarrow> ct \<noteq> '''' \<Longrightarrow>
          w_faults w' = [] \<and> snd (st_Open S key w') = Inr (r, ct)"
    and put_bounded: "st_Put S t p f ct r w = (w', Inr key) \<Longrightarrow> length r \<le> MaxUploadBytes"
    and delete_open: "w_faults w = [] \<Longrightarrow> isl (snd (st_Open S key (fst (st_Delete S key w))))"

lemma local_put_open:
  assumes "w_faults w = []" and "local_Put E s t p f ct r w = (w', Inr key)" and "ct \<noteq> ''''"
  shows "w_faults w' = [] \<and> snd (local_Open E s key w') = Inr (r, ct)"
  using local_Put_ok [OF assms(1) refl, of E s t p f ct r] assms(2,3)
  by (auto simp: local_Open_ok update_conv' split: if_splits)

lemma local_put_bounded:
  "local_Put E s t p f ct r w = (w', Inr key) \<Longrightarrow> length r \<le> MaxUploadBytes"
  unfolding local_Put_def Let_def by (auto simp: bind_Inr_iff split: if_splits)

lemma local_delete_open:
  "w_faults w = [] \<Longrightarrow> isl (snd (local_Open E s key (fst (local_Delete s key w))))"
  by (simp add: local_Delete_ok local_Open_ok delete_conv')

interpretation local_store: lasting_store "LocalStorage E s" for E :: "'z app_env_scheme" and s
  by unfold_locales
    (simp_all add: LocalStorage_def reads_local_Put reads_local_SignedGetURL reads_local_Delete
      reads_local_Open local_put_open local_delete_open local_put_bounded)

section \<open>The MinIO back end (s3.go)\<close>

text \<open>
  The client of the MinIO package, a parameter: \<open>BucketExists\<close> and \<open>MakeBucket\<close> as they answer when
  the server starts, \<open>PutObject\<close> (bucket, key, content, content type), \<open>PresignedGetObject\<close> (bucket,
  key, duration), \<open>RemoveObject\<close>, \<open>GetObject\<close> (what its reader gives) and the content type of \<open>Stat\<close>.
\<close>

record minio =
  mc_exists :: "string \<Rightarrow> go_err + bool"
  mc_make :: "string \<Rightarrow> go_err + unit"
  mc_put :: "string \<Rightarrow> string \<Rightarrow> string \<Rightarrow> string \<Rightarrow> unit go"
  mc_presign :: "string \<Rightarrow> string \<Rightarrow> int \<Rightarrow> string go"
  mc_remove :: "string \<Rightarrow> string \<Rightarrow> unit go"
  mc_get :: "string \<Rightarrow> string \<Rightarrow> string go"
  mc_stat :: "string \<Rightarrow> string \<Rightarrow> string go"

definition s3_Put ::
  "'z env_scheme \<Rightarrow> minio \<Rightarrow> string \<Rightarrow> uuid \<Rightarrow> string \<Rightarrow> string \<Rightarrow> string \<Rightarrow> string \<Rightarrow> string go" where
  "s3_Put E M bucket tenantID prefix filename contentType r =
     bind_act (keyFor E tenantID prefix filename) (\<lambda>key.
     bind_act (mc_put M bucket key r contentType) (\<lambda>_. ret key))"

definition s3_SignedGetURL :: "minio \<Rightarrow> string \<Rightarrow> string \<Rightarrow> int \<Rightarrow> string go" where
  "s3_SignedGetURL M bucket key ttlSeconds = mc_presign M bucket key (ttlSeconds * Second)"

definition s3_Delete :: "minio \<Rightarrow> string \<Rightarrow> string \<Rightarrow> unit go" where
  "s3_Delete M bucket key = mc_remove M bucket key"

definition s3_Open :: "minio \<Rightarrow> string \<Rightarrow> string \<Rightarrow> (string \<times> string) go" where
  "s3_Open M bucket key =
     bind_act (mc_get M bucket key) (\<lambda>obj.
     bind_act (attempt (mc_stat M bucket key)) (\<lambda>r.
       ret (obj, case r of
           Inl _ \<Rightarrow> ''application/octet-stream''
         | Inr ct \<Rightarrow> if ct \<noteq> '''' then ct else ''application/octet-stream'')))"

definition S3Storage :: "'z env_scheme \<Rightarrow> minio \<Rightarrow> string \<Rightarrow> storage" where
  "S3Storage E M bucket =
     \<lparr>st_Put = s3_Put E M bucket, st_SignedGetURL = s3_SignedGetURL M bucket, st_Delete = s3_Delete M bucket,
      st_Open = s3_Open M bucket\<rparr>"

text \<open>\<open>minio.New\<close> is the first argument; a missing bucket is made.\<close>

definition NewS3 ::
  "(string \<Rightarrow> string \<Rightarrow> string \<Rightarrow> bool \<Rightarrow> go_err + minio) \<Rightarrow> 'z env_scheme \<Rightarrow>
   string \<Rightarrow> string \<Rightarrow> string \<Rightarrow> string \<Rightarrow> bool \<Rightarrow> go_err + storage" where
  "NewS3 client E endpoint accessKey secretKey bucket useSSL =
     (case client endpoint accessKey secretKey useSSL of
        Inl e \<Rightarrow> Inl e
      | Inr M \<Rightarrow>
          (case mc_exists M bucket of
             Inl e \<Rightarrow> Inl e
           | Inr found \<Rightarrow>
               (case (if found then Inr () else mc_make M bucket) of
                  Inl e \<Rightarrow> Inl e
                | Inr _ \<Rightarrow> Inr (S3Storage E M bucket))))"

text \<open>The client speaks to the object service only, not to the database.\<close>

definition minio_reads :: "minio \<Rightarrow> bool" where
  "minio_reads M \<longleftrightarrow>
     (\<forall>b k r ct. reads (mc_put M b k r ct)) \<and> (\<forall>b k n. reads (mc_presign M b k n)) \<and>
     (\<forall>b k. reads (mc_remove M b k) \<and> reads (mc_get M b k) \<and> reads (mc_stat M b k))"

lemma s3_object_store:
  assumes "minio_reads M"
  shows "object_store (S3Storage E M bucket)"
proof -
  have client: "reads (mc_put M b k r ct)" "reads (mc_presign M b k n)" "reads (mc_remove M b k)"
    "reads (mc_get M b k)" "reads (mc_stat M b k)" for b k r ct n
    using assms by (simp_all add: minio_reads_def)
  show ?thesis
    by unfold_locales
      (simp_all add: S3Storage_def s3_Put_def s3_SignedGetURL_def s3_Delete_def s3_Open_def client
        rd.keeps_bind rd.keeps_ret rd.keeps_attempt reads_keyFor)
qed

lemma NewS3_object_store:
  assumes "NewS3 client E ep ak sk bucket ssl = Inr S" and "\<And>M. client ep ak sk ssl = Inr M \<Longrightarrow> minio_reads M"
  shows "object_store S"
proof -
  from assms(1) obtain M where "client ep ak sk ssl = Inr M" and S: "S = S3Storage E M bucket"
    by (auto simp: NewS3_def split: sum.splits)
  with assms(2) show ?thesis by (simp add: s3_object_store)
qed

section \<open>Signatures\<close>

lemma hex_digit_inj: "a < 16 \<Longrightarrow> b < 16 \<Longrightarrow> hex_digit a = hex_digit b \<Longrightarrow> a = b"
proof -
  assume "a < 16" "b < 16" and eq: "hex_digit a = hex_digit b"
  then have "code (hex_digit a) = code (hex_digit b)" by simp
  with \<open>a < 16\<close> \<open>b < 16\<close> show ?thesis by (simp add: hex_digit_def split: if_splits)
qed

lemma hex_encode_inj: "hex_encode s = hex_encode t \<Longrightarrow> s = t"
proof (induction s arbitrary: t)
  case Nil
  then show ?case by (cases t) (simp_all add: hex_encode_def)
next
  case (Cons c cs)
  then obtain d ds where t: "t = d # ds" by (cases t) (simp_all add: hex_encode_def)
  with Cons.prems have "hex_digit (code c div 16) = hex_digit (code d div 16)"
    "hex_digit (code c mod 16) = hex_digit (code d mod 16)" "hex_encode cs = hex_encode ds"
    by (simp_all add: hex_encode_def)
  moreover have "code c div 16 < 16" "code d div 16 < 16" using code_less [of c] code_less [of d] by simp_all
  ultimately have "code c div 16 = code d div 16" "code c mod 16 = code d mod 16" "cs = ds"
    using hex_digit_inj Cons.IH by simp_all
  then have "code c = code d" by (metis div_mult_mod_eq)
  then show ?case using t \<open>cs = ds\<close> by (simp add: code_inject)
qed

lemma Itoa_no_colon: "CHR '':'' \<notin> set (Itoa n)"
proof
  assume "CHR '':'' \<in> set (Itoa n)"
  then have "CHR '':'' \<in> set (show_nat (nat \<bar>n\<bar>))" by (auto simp: Itoa_def split: if_splits)
  then have "is_digit (CHR '':'')" using show_nat_digits by (auto simp: list_all_iff)
  then show False by (simp add: is_digit_def code_def)
qed

lemma last_sep_unique:
  assumes "a @ c # s = b @ c # t" and "c \<notin> set s" and "c \<notin> set t"
  shows "a = b \<and> s = t"
proof -
  have "rev s @ c # rev a = rev t @ c # rev b" using arg_cong [OF assms(1), of rev] by simp
  moreover have "takeWhile (\<lambda>x. x \<noteq> c) (rev u @ c # v) = rev u" if "c \<notin> set u" for u v
    using that by (subst takeWhile_append2) auto
  ultimately have "rev s = rev t" using assms(2,3) by metis
  with assms(1) show ?thesis by simp
qed

text \<open>
  The text that is signed determines the key and the expiry, as the expiry has no colon.
\<close>

lemma sign_msg_inj:
  assumes "sign_msg k e = sign_msg k' e'" and "int64_min \<le> e" "e \<le> int64_max" "int64_min \<le> e'" "e' \<le> int64_max"
  shows "k = k' \<and> e = e'"
proof -
  have "k @ CHR '':'' # Itoa e = k' @ CHR '':'' # Itoa e'" using assms(1) by (simp add: sign_msg_def)
  then have "k = k' \<and> Itoa e = Itoa e'"
    by (rule last_sep_unique) (rule Itoa_no_colon)+
  moreover have "Atoi (Itoa e) = (e, True)" "Atoi (Itoa e') = (e', True)"
    using assms Atoi_Itoa by auto
  ultimately show ?thesis by (metis fst_conv)
qed

text \<open>Two different texts with the same code. Codes of 32 bytes have such pairs; that nobody can find one
  without the key is what HMAC is chosen for.\<close>

definition mac_clash :: "'z app_env_scheme \<Rightarrow> local_storage \<Rightarrow> string \<Rightarrow> string \<Rightarrow> bool" where
  "mac_clash E s a b \<longleftrightarrow> a \<noteq> b \<and> e_hmac E (ls_signer_key s) a = e_hmac E (ls_signer_key s) b"

text \<open>C10: The file route serves a request that carries the signature of a link made by
  SignedGetURL exactly when the second of its expiry has not passed and it asks for the key of the link with the
  expiry of the link, or for a key and an expiry whose text clashes with theirs under HMAC itself. Nothing else
  gets around the signature: no other key and expiry give the same signed text. Every other
  request, a later expiry written into the link for one, is refused with 403.\<close>

theorem signed_link_exact:
  assumes "query ''sig'' = sign E s key ex" and "int64_min \<le> ex" and "ex \<le> int64_max"
  shows "localFileHandler E s key' query v =
     (let ex' = fst (Atoi (query ''exp'')) in
      if unix (w_now v) \<le> ex' \<and> (key' = key \<and> ex' = ex \<or> mac_clash E s (sign_msg key' ex') (sign_msg key ex))
      then or_else (local_Open E s key') (NotFound ''file not found'') v
      else (v, Inl (Forbidden ''invalid or expired signature'')))"
proof -
  let ?ex = "fst (Atoi (query ''exp''))"
  have "sign_msg key' ?ex = sign_msg key ex \<longleftrightarrow> key' = key \<and> ?ex = ex"
    using sign_msg_inj [of key' ?ex key ex] assms(2,3) Atoi_range by blast
  then have "sign E s key' ?ex = sign E s key ex \<longleftrightarrow>
      key' = key \<and> ?ex = ex \<or> mac_clash E s (sign_msg key' ?ex) (sign_msg key ex)"
    using hex_encode_inj by (auto simp: sign_def mac_clash_def)
  then show ?thesis
    using assms(1) by (auto simp: localFileHandler_def Let_def bind_act_def local_Verify_def now_run)
qed

definition sample_app :: "claims \<Rightarrow> app_env" where
  "sample_app C = auth_env.extend (sample_env C)
     \<lparr>e_hmac = (\<lambda>k m. k @ m), e_mime_ext = (\<lambda>_. ''''), e_local_offset = (\<lambda>_. 28800)\<rparr>"

definition sample_store :: local_storage where
  "sample_store = \<lparr>ls_root = ''.data/objects'', ls_base_url = ''/api/files'', ls_signer_key = ''k''\<rparr>"

theorem signed_link_exact_witness:
  "snd (localFileHandler (sample_app sample_claims) sample_store ''b''
     (\<lambda>q. if q = ''sig'' then sign (sample_app sample_claims) sample_store ''a'' 60 else ''60'')
     (sample_world empty_db)) = Inl (Forbidden ''invalid or expired signature'')"
  by (subst signed_link_exact [where key = "''a''" and ex = 60])
    (simp_all add: mac_clash_def Let_def sample_app_def auth_env.defs int64_min_def int64_max_def)

section \<open>Keys\<close>

lemma sanitize_safe:
  "sanitize name \<noteq> '''' \<and> (\<forall>c \<in> set (sanitize name). safe_rune (code c))"
proof -
  have "safe_rune r \<Longrightarrow> safe_rune (code (char_of r))" for r
    by (subst code_char_of) (auto simp: safe_rune_def)
  moreover have "safe_rune (code (CHR ''_''))" "\<forall>c \<in> set ''file''. safe_rune (code c)"
    by (simp_all add: safe_rune_def code_def)
  ultimately show ?thesis by (auto simp: sanitize_def Let_def)
qed

text \<open>What the uuid package promises of its text: digits and dashes, at least one.\<close>

definition uuid_text :: "'z env_scheme \<Rightarrow> bool" where
  "uuid_text E \<longleftrightarrow> (\<forall>u. e_uuid_str E u \<noteq> '''' \<and> CHR ''/'' \<notin> set (e_uuid_str E u) \<and> CHR ''.'' \<notin> set (e_uuid_str E u))"

definition proper :: "string \<Rightarrow> bool" where
  "proper p \<longleftrightarrow> p \<noteq> '''' \<and> p \<noteq> ''.'' \<and> p \<noteq> ''..'' \<and> CHR ''/'' \<notin> set p"

lemma clean_parts_proper:
  "list_all proper ps \<Longrightarrow> clean_parts b ps acc = rev acc @ ps"
  by (induction ps arbitrary: acc) (auto simp: proper_def)

lemma Split_Join:
  "xs \<noteq> [] \<Longrightarrow> \<forall>x \<in> set xs. sep \<notin> set x \<Longrightarrow> Split (Join xs [sep]) sep = xs"
  by (induction xs "[sep]" rule: Join.induct) (simp_all add: Split_no_sep Split_append)

lemma Join_append:
  "xs \<noteq> [] \<Longrightarrow> ys \<noteq> [] \<Longrightarrow> Join (xs @ ys) sep = Join xs sep @ sep @ Join ys sep"
proof (induction xs sep rule: Join.induct)
  case (2 x sep)
  then show ?case by (cases ys) simp_all
qed simp_all

lemma Clean_proper:
  assumes "ps \<noteq> []" and "list_all proper ps"
  shows "Clean (Join ps ''/'') = Join ps ''/''"
proof -
  have split: "Split (Join ps ''/'') (CHR ''/'') = ps"
    using assms by (intro Split_Join) (auto simp: list_all_iff proper_def)
  obtain p qs where ps: "ps = p # qs" using assms(1) by (cases ps) auto
  with assms(2) have p: "p \<noteq> ''''" "CHR ''/'' \<notin> set p" by (simp_all add: proper_def)
  then obtain c cs where "p = c # cs" "c \<noteq> CHR ''/''" by (cases p) auto
  then have "\<not> HasPrefix (Join ps ''/'') ''/''" "Join ps ''/'' \<noteq> ''''"
    by (cases qs; simp add: ps HasPrefix_def)+
  then show ?thesis
    by (simp add: Clean_def Let_def split clean_parts_proper [OF assms(2)])
qed

text \<open>C34: An upload is stored under the directory of its tenant, whatever the name of the file
  is: with a plain root directory and prefix, the path of the object is the root, the tenant's
  id, the prefix, and one more name without a slash; no part of the file name is a path.\<close>

theorem upload_path:
  assumes "uuid_text E" and "ls_root s = Join rs ''/''" and "rs \<noteq> []" and "list_all proper rs"
    and "proper prefix" and "local_Put E s t prefix name ct r w = (w', Inr key)"
  shows "\<exists>leaf. proper leaf \<and> key = e_uuid_str E t @ ''/'' @ prefix @ ''/'' @ leaf \<and>
     local_path s key = ls_root s @ ''/'' @ e_uuid_str E t @ ''/'' @ prefix @ ''/'' @ leaf"
proof -
  let ?leaf = "e_uuid_str E (e_uuid_gen E (w_seed w)) @ ''-'' @ sanitize name"
  from assms(6) have key: "key = put_key E t prefix name (w_seed w)"
    unfolding local_Put_def Let_def by (auto simp: bind_Inr_iff keyFor_run split: if_splits)
  have "CHR ''/'' \<notin> set (sanitize name)" using sanitize_safe [of name] by (auto simp: safe_rune_def code_def)
  then have leaf: "proper ?leaf"
    using assms(1) unfolding proper_def uuid_text_def by (auto simp: append_eq_Cons_conv)
  have tid: "proper (e_uuid_str E t)"
    using assms(1) unfolding proper_def uuid_text_def by (metis list.set_intros(1))
  let ?ps = "rs @ [e_uuid_str E t, prefix, ?leaf]"
  have ps: "list_all proper ?ps" "?ps \<noteq> []" using assms(4,5) tid leaf by simp_all
  have k: "key = Join [e_uuid_str E t, prefix, ?leaf] ''/''" by (simp add: key put_key_def)
  have all: "Join ?ps ''/'' = ls_root s @ ''/'' @ key"
    using Join_append [OF assms(3), of "[e_uuid_str E t, prefix, ?leaf]" "''/''"] k assms(2) by simp
  have "ls_root s \<noteq> ''''"
    using assms(2-4) by (cases rs; cases "tl rs") (auto simp: proper_def)
  moreover have "key \<noteq> ''''" by (simp add: key put_key_def)
  ultimately have "local_path s key = Clean (ls_root s @ ''/'' @ key)" by (simp add: local_path_def path_Join_def)
  then have "local_path s key = Clean (Join ?ps ''/'')" unfolding all .
  then have "local_path s key = ls_root s @ ''/'' @ key" using Clean_proper [OF ps(2,1)] unfolding all by (rule trans)
  with leaf show ?thesis by (intro exI [of _ ?leaf]) (simp add: key put_key_def)
qed

theorem upload_path_witness:
  "\<exists>w' key leaf. local_Put (sample_app sample_claims) sample_store 7 ''products'' ''../../etc/passwd'' ''image/png''
       ''x'' (sample_world empty_db) = (w', Inr key) \<and>
     local_path sample_store key = ''.data/objects/7/products/'' @ leaf"
proof -
  let ?E = "sample_app sample_claims"
  have str: "e_uuid_str ?E u = show_nat (unat u)" for u
    by (simp add: sample_app_def auth_env.defs sample_env_def)
  have "is_digit c \<Longrightarrow> c \<noteq> CHR ''/'' \<and> c \<noteq> CHR ''.''" for c
    by (auto simp: is_digit_def code_def)
  then have plain: "uuid_text ?E"
    using show_nat_digits unfolding uuid_text_def str list_all_iff by auto
  have root: "ls_root sample_store = Join [''.data'', ''objects''] ''/''" by (simp add: sample_store_def)
  have "\<exists>w' key. local_Put ?E sample_store 7 ''products'' ''../../etc/passwd'' ''image/png'' ''x''
      (sample_world empty_db) = (w', Inr key)"
    using local_Put_ok [of "sample_world empty_db" _ ?E 7 "''products''" "''../../etc/passwd''" sample_store
        "''image/png''" "''x''"]
    by (auto simp: sample_world_def MaxUploadBytes_def)
  then obtain w' key where run: "local_Put ?E sample_store 7 ''products'' ''../../etc/passwd'' ''image/png'' ''x''
      (sample_world empty_db) = (w', Inr key)" by blast
  from upload_path [OF plain root _ _ _ run]
  obtain leaf where "local_path sample_store key = ls_root sample_store @ ''/'' @ show_nat (unat (7 :: uuid)) @ ''/products/'' @ leaf"
    by (auto simp: proper_def str)
  then show ?thesis using run by (auto simp: sample_store_def sample_show7)
qed

end
