(* ===== verification/Scoped.thy ===== *)
theory Scoped
  imports Storage
begin

text \<open>
  The contract of the tenant-scoped repositories. A statement of a repository writes rows of
  the tenant it is given and no token: \<open>scoped t\<close> is that the tables of every other tenant
  are unchanged, the constraints still hold, and spent tokens stay spent. The locale
  \<open>owned_table\<close> is what a table with an owner column offers; its lemmas give the three kinds
  of write (insert, update and delete of rows of one tenant) for every such table, and the
  interpretations instantiate it for the tables of the program.
\<close>

definition scoped_db :: "uuid \<Rightarrow> db \<Rightarrow> db \<Rightarrow> bool" where
  "scoped_db t d d' \<longleftrightarrow> isolates_db t d d' \<and> keeps_spent_db d d'"

definition scoped :: "uuid \<Rightarrow> world \<Rightarrow> world \<Rightarrow> bool" where
  "scoped t = on_db (scoped_db t)"

lemma scoped_db_refl [simp]: "scoped_db t d d"
  by (simp add: scoped_db_def)

lemma scoped_iff: "scoped t w w' \<longleftrightarrow> isolates t w w' \<and> keeps_spent w w'"
  by (simp add: scoped_def isolates_def keeps_spent_def on_db_def scoped_db_def)

interpretation sc: transition "scoped t" for t
  by unfold_locales (auto simp: scoped_iff intro: iso.stay spent.stay iso.chain spent.chain)

lemma scoped_sql: "(\<And>d x d'. q d = Inr (x, d') \<Longrightarrow> scoped_db t d d') \<Longrightarrow> keeps (scoped t) (sql q)"
  unfolding scoped_def by (rule keeps_sql) simp_all

lemma scoped_reads: "reads m \<Longrightarrow> keeps (scoped t) m"
  unfolding scoped_def by (rule reads_keeps) simp_all

lemma scoped_transact: "keeps (scoped t) m \<Longrightarrow> keeps (scoped t) (transact m)"
  unfolding scoped_def by (rule keeps_transact) simp_all

lemma scoped_iso: "keeps (scoped t) m \<Longrightarrow> keeps (isolates t) m"
  by (simp add: keeps_def scoped_iff)

lemma scoped_spent: "keeps (scoped t) m \<Longrightarrow> keeps keeps_spent m"
  by (simp add: keeps_def scoped_iff)

lemma scoped_commit:
  "(db_ok d' \<Longrightarrow> view (\<lambda>u. u \<noteq> t) d' = view (\<lambda>u. u \<noteq> t) d) \<Longrightarrow>
   refresh_tokens d' = refresh_tokens d \<Longrightarrow> auth_tokens d' = auth_tokens d \<Longrightarrow>
   commit x d' = Inr (y, e) \<Longrightarrow> scoped_db t d e"
  by (auto simp: scoped_db_def isolates_db_def keeps_spent_db_def refresh_spent_def auth_spent_def)

lemmas scoped_basics =
  scoped_transact sc.keeps_combinators sc.keeps_Bind sc.keeps_valid_or
  reads_sel [THEN scoped_reads] reads_now [THEN scoped_reads] reads_new_uuid [THEN scoped_reads]
  reads_num_arg [THEN scoped_reads] reads_emit [THEN scoped_reads] reads_Emit [THEN scoped_reads]
  reads_Mailer_Send [THEN scoped_reads] reads_tenantByQuery [THEN scoped_reads]

locale owned_table =
  fixes rows :: "db \<Rightarrow> 'r list"
    and upd :: "('r list \<Rightarrow> 'r list) \<Rightarrow> db \<Rightarrow> db"
    and owner :: "'r \<Rightarrow> uuid"
  assumes view_upd: "filter (\<lambda>r. P (owner r)) rs = filter (\<lambda>r. P (owner r)) (rows d) \<Longrightarrow>
      view P (upd (\<lambda>_. rs) d) = view P d"
    and upd_tokens: "refresh_tokens (upd f d) = refresh_tokens d" "auth_tokens (upd f d) = auth_tokens d"
begin

lemma scoped_insert:
  "owner r = t \<Longrightarrow> keeps (scoped t) (sql (\<lambda>d. commit (x d) (upd (\<lambda>_. rows d @ [r]) d)))"
  by (rule scoped_sql) (erule scoped_commit [rotated 3]; simp add: upd_tokens view_upd)

lemma scoped_update:
  assumes "\<And>r. U r \<Longrightarrow> owner r = t \<and> owner (f r) = t"
  shows "keeps (scoped t) (sql (\<lambda>d. commit (x d) (upd (\<lambda>_. update_rows U f (rows d)) d)))"
proof -
  have "filter (\<lambda>r. owner r \<noteq> t) (update_rows U f rs) = filter (\<lambda>r. owner r \<noteq> t) rs" for rs
    by (rule update_rows_frame) (use assms in auto)
  then show ?thesis
    by (intro scoped_sql) (erule scoped_commit [rotated 3]; simp add: upd_tokens view_upd)
qed

lemma scoped_delete:
  assumes "\<And>r. U r \<Longrightarrow> owner r = t"
  shows "keeps (scoped t) (sql (\<lambda>d. commit (x d) (upd (\<lambda>_. delete_rows U (rows d)) d)))"
proof -
  have "filter (\<lambda>r. owner r \<noteq> t) (delete_rows U rs) = filter (\<lambda>r. owner r \<noteq> t) rs" for rs
    by (rule delete_rows_frame) (use assms in auto)
  then show ?thesis
    by (intro scoped_sql) (erule scoped_commit [rotated 3]; simp add: upd_tokens view_upd)
qed

end

interpretation category_table: owned_table categories categories_update ct_tenant
  by unfold_locales (simp_all add: view_def order_ids_def)

interpretation product_table: owned_table products products_update pr_tenant
  by unfold_locales (simp_all add: view_def order_ids_def)

interpretation customer_table: owned_table customers customers_update cu_tenant
  by unfold_locales (simp_all add: view_def order_ids_def)

interpretation coupon_table: owned_table coupons coupons_update cp_tenant
  by unfold_locales (simp_all add: view_def order_ids_def)

interpretation order_table: owned_table orders orders_update or_tenant
  by unfold_locales (simp_all add: view_def order_ids_def)

lemmas scoped_writes =
  category_table.scoped_insert category_table.scoped_update
  product_table.scoped_insert product_table.scoped_update
  customer_table.scoped_insert customer_table.scoped_update
  coupon_table.scoped_insert coupon_table.scoped_update coupon_table.scoped_delete
  order_table.scoped_insert order_table.scoped_update

section \<open>Statements that report their rows\<close>

text \<open>\<open>if ct.RowsAffected() == 0 { return ErrNotFound }\<close> after a write.\<close>

definition affecting :: "pkg \<Rightarrow> nat go \<Rightarrow> unit go" where
  "affecting p m = bind_act m (\<lambda>n. check (n \<noteq> 0) (ErrNotFound p))"

text \<open>\<open>QueryRow\<close> of a SELECT: the first row, or \<open>pgx.ErrNoRows\<close> mapped to \<open>ErrNotFound\<close>.\<close>

definition query_row :: "pkg \<Rightarrow> (db \<Rightarrow> 'a option) \<Rightarrow> 'a go" where
  "query_row p f = bind_act (sel f) (\<lambda>r. case r of None \<Rightarrow> raise (ErrNotFound p) | Some x \<Rightarrow> ret x)"

text \<open>\<open>mapErr\<close> of a package: its sentinel becomes a 404.\<close>

definition mapErr :: "pkg \<Rightarrow> string \<Rightarrow> go_err \<Rightarrow> go_err" where
  "mapErr p msg err = (if err = ErrNotFound p then NotFound msg else err)"

definition parseID :: "'z env_scheme \<Rightarrow> string \<Rightarrow> uuid go" where
  "parseID E s = (case e_uuid_parse E s of None \<Rightarrow> raise (BadRequest ''invalid id'') | Some i \<Rightarrow> ret i)"

text \<open>\<open>col ILIKE '%search%'\<close>, and an empty search that filters nothing.\<close>

definition ilike :: "'z env_scheme \<Rightarrow> string \<Rightarrow> string \<Rightarrow> bool" where
  "ilike E search col \<longleftrightarrow> e_ilike E col (''%'' @ search @ ''%'')"

definition searching :: "'z env_scheme \<Rightarrow> string \<Rightarrow> string list \<Rightarrow> bool" where
  "searching E search cols \<longleftrightarrow> search = '''' \<or> list_ex (ilike E search) cols"

lemma scoped_affecting: "keeps (scoped t) m \<Longrightarrow> keeps (scoped t) (affecting p m)"
  unfolding affecting_def by (intro sc.keeps_combinators)

lemma reads_query_row: "reads (query_row p f)"
  unfolding query_row_def by (intro reads_combinators)

lemma reads_parseID: "reads (parseID E s)"
  unfolding parseID_def by (intro reads_combinators)

lemmas scoped_rules = scoped_basics scoped_affecting reads_query_row [THEN scoped_reads]
  reads_parseID [THEN scoped_reads]

lemma query_row_ok:
  "w_faults w = [] \<Longrightarrow>
   query_row p f w = (w, case f (w_db w) of None \<Rightarrow> Inl (ErrNotFound p) | Some x \<Rightarrow> Inr x)"
  by (simp add: query_row_def bind_act_def sel_ok split: option.splits)

lemma query_row_InrD: "query_row p f w = (w', Inr x) \<Longrightarrow> f (w_db w) = Some x \<and> w_db w' = w_db w"
  unfolding query_row_def
  by (erule bind_InrE, drule sel_InrD) (simp split: option.splits)

lemma affecting_run:
  "affecting p m w = (case m w of (v, Inl e) \<Rightarrow> (v, Inl e)
     | (v, Inr n) \<Rightarrow> (v, if n \<noteq> 0 then Inr () else Inl (ErrNotFound p)))"
  by (auto simp: affecting_def bind_act_def split: prod.splits sum.splits)

text \<open>
  The list queries: \<open>count(*)\<close>, then the page \<open>ORDER BY created_at DESC LIMIT .. OFFSET ..\<close>.
\<close>

definition query_page :: "(db \<Rightarrow> 'r list) \<Rightarrow> ('r \<Rightarrow> time) \<Rightarrow> int \<Rightarrow> int \<Rightarrow> ('r list \<times> nat) go" where
  "query_page rows created lmt off =
     bind_act (sel (\<lambda>d. length (rows d))) (\<lambda>total.
     bind_act (sql (\<lambda>d. case limit_offset lmt off (order_desc created (rows d)) of
                 Inl e \<Rightarrow> Inl e | Inr rs \<Rightarrow> Inr (rs, d))) (\<lambda>rs.
     ret (rs, total)))"

lemma reads_query_page: "reads (query_page rows created lmt off)"
  unfolding query_page_def
  by (intro reads_combinators reads_ro) (auto split: sum.splits)

lemma query_page_ok:
  "w_faults w = [] \<Longrightarrow> 0 \<le> lmt \<Longrightarrow> 0 \<le> off \<Longrightarrow>
   query_page rows created lmt off w =
     (w, Inr (take (nat lmt) (drop (nat off) (order_desc created (rows (w_db w)))), length (rows (w_db w))))"
  by (simp add: query_page_def bind_act_def sel_ok sql_ok limit_offset_def)

lemma query_page_InrD:
  assumes "query_page rows created lmt off w = (w', Inr (rs, n))"
  shows "n = length (rows (w_db w)) \<and> set rs \<subseteq> set (rows (w_db w)) \<and> int (length rs) \<le> lmt"
proof -
  from assms obtain v where sel: "sel (\<lambda>d. length (rows d)) w = (v, Inr n)"
    and page: "sql (\<lambda>d. case limit_offset lmt off (order_desc created (rows d)) of
                 Inl e \<Rightarrow> Inl e | Inr rs \<Rightarrow> Inr (rs, d)) v = (w', Inr rs)"
    unfolding query_page_def by (auto simp: bind_Inr_iff)
  from sel_InrD [OF sel] have v: "n = length (rows (w_db w))" "w_db v = w_db w" by simp_all
  from page have lim: "limit_offset lmt off (order_desc created (rows (w_db v))) = Inr rs"
    by (auto elim!: sql_InrE split: sum.splits)
  then have "0 \<le> lmt" by (simp add: limit_offset_def split: if_splits)
  with limit_offset_Inr [OF lim] v show ?thesis by (simp add: le_nat_iff)
qed

lemma query_page_sorted:
  assumes "query_page rows created lmt off w = (w', Inr (rs, n))"
  shows "sorted (map (\<lambda>r. - created r) rs)"
proof -
  from assms obtain v where page: "sql (\<lambda>d. case limit_offset lmt off (order_desc created (rows d)) of
                 Inl e \<Rightarrow> Inl e | Inr rs \<Rightarrow> Inr (rs, d)) v = (w', Inr rs)"
    unfolding query_page_def by (auto simp: bind_Inr_iff)
  then have "limit_offset lmt off (order_desc created (rows (w_db v))) = Inr rs"
    by (auto elim!: sql_InrE split: sum.splits)
  then have "rs = take (nat lmt) (drop (nat off) (order_desc created (rows (w_db v))))"
    by (auto simp: limit_offset_def split: if_splits)
  then show ?thesis
    using order_desc_sorted [of created "rows (w_db v)"] by (simp add: sorted_wrt_take sorted_wrt_drop flip: take_map drop_map)
qed

end
