(* ===== verification/Catalog.thy ===== *)
theory Catalog
  imports Scoped
begin

text \<open>
  Products and categories (\<open>api/internal/catalog\<close>: \<open>repo.go\<close>, \<open>service.go\<close>,
  \<open>handler.go\<close>). A \<open>product\<close> is the Go struct, with the price as the float the handlers
  see; \<open>product_row\<close> is its row, with the price in sen. A query that joins the category reads
  \<open>product_of\<close> of the row. \<open>TenantID\<close> has no JSON name, so an answer does not show it.
\<close>

record product =
  pd_id :: uuid
  pd_tenant :: uuid
  pd_category :: "uuid option"
  pd_category_name :: string
  pd_sku :: string
  pd_name :: string
  pd_desc :: string
  pd_price :: f64
  pd_slug :: string
  pd_image :: string
  pd_image_url :: string
  pd_status :: string
  pd_created :: time

section \<open>Categories (repo.go)\<close>

definition repo_CreateCategory :: "'z env_scheme \<Rightarrow> uuid \<Rightarrow> string \<Rightarrow> string \<Rightarrow> category go" where
  "repo_CreateCategory E tenantID name desc =
     bind_act (new_uuid E) (\<lambda>i. bind_act now (\<lambda>n.
       (let c = \<lparr>ct_id = i, ct_tenant = tenantID, ct_name = name, ct_desc = desc, ct_created = n\<rparr>
        in sql (\<lambda>d. commit c (d\<lparr>categories := categories d @ [c]\<rparr>)))))"

definition own_category :: "uuid \<Rightarrow> uuid \<Rightarrow> category \<Rightarrow> bool" where
  "own_category tenantID i c \<longleftrightarrow> ct_id c = i \<and> ct_tenant c = tenantID"

definition repo_UpdateCategory :: "uuid \<Rightarrow> uuid \<Rightarrow> string \<Rightarrow> string \<Rightarrow> unit go" where
  "repo_UpdateCategory tenantID i name desc =
     affecting PCatalog (sql (\<lambda>d. commit (affected (own_category tenantID i) (categories d))
       (d\<lparr>categories := update_rows (own_category tenantID i)
            (\<lambda>c. c\<lparr>ct_name := name, ct_desc := desc\<rparr>) (categories d)\<rparr>)))"

text \<open>The delete sets the category of the products that refer to it to NULL, whosever they are.\<close>

definition clear_category :: "uuid list \<Rightarrow> product_row list \<Rightarrow> product_row list" where
  "clear_category gone ps =
     update_rows (\<lambda>p. case pr_category p of None \<Rightarrow> False | Some c \<Rightarrow> c \<in> set gone)
       (\<lambda>p. p\<lparr>pr_category := None\<rparr>) ps"

definition drop_categories :: "(category \<Rightarrow> bool) \<Rightarrow> db \<Rightarrow> db" where
  "drop_categories P d =
     d\<lparr>categories := delete_rows P (categories d),
       products := clear_category (map ct_id (filter P (categories d))) (products d)\<rparr>"

definition repo_DeleteCategory :: "uuid \<Rightarrow> uuid \<Rightarrow> unit go" where
  "repo_DeleteCategory tenantID i =
     affecting PCatalog (sql (\<lambda>d. commit (affected (own_category tenantID i) (categories d))
       (drop_categories (own_category tenantID i) d)))"

text \<open>\<open>ORDER BY name\<close>, by bytes.\<close>

fun str_le :: "string \<Rightarrow> string \<Rightarrow> bool" where
  "str_le [] t = True"
| "str_le (a # s) [] = False"
| "str_le (a # s) (b # t) = (code a < code b \<or> a = b \<and> str_le s t)"

fun insert_by :: "('a \<Rightarrow> string) \<Rightarrow> 'a \<Rightarrow> 'a list \<Rightarrow> 'a list" where
  "insert_by k x [] = [x]"
| "insert_by k x (y # ys) = (if str_le (k x) (k y) then x # y # ys else y # insert_by k x ys)"

definition order_by :: "('a \<Rightarrow> string) \<Rightarrow> 'a list \<Rightarrow> 'a list" where
  "order_by k xs = foldr (insert_by k) xs []"

text \<open>The scan of a category leaves \<open>TenantID\<close> zero.\<close>

definition repo_ListCategories :: "uuid \<Rightarrow> category list go" where
  "repo_ListCategories tenantID =
     sel (\<lambda>d. map (\<lambda>c. c\<lparr>ct_tenant := uuid_Nil\<rparr>)
                (order_by ct_name (filter (\<lambda>c. ct_tenant c = tenantID) (categories d))))"

definition repo_GetCategory :: "uuid \<Rightarrow> uuid \<Rightarrow> category go" where
  "repo_GetCategory tenantID i =
     query_row PCatalog (\<lambda>d. map_option (\<lambda>c. c\<lparr>ct_tenant := uuid_Nil\<rparr>)
       (find (own_category tenantID i) (categories d)))"

section \<open>Products (repo.go)\<close>

definition category_name :: "db \<Rightarrow> uuid option \<Rightarrow> string" where
  "category_name d k = (case find (\<lambda>c. Some (ct_id c) = k) (categories d) of None \<Rightarrow> '''' | Some c \<Rightarrow> ct_name c)"

definition product_of :: "'z env_scheme \<Rightarrow> db \<Rightarrow> product_row \<Rightarrow> product" where
  "product_of E d r =
     \<lparr>pd_id = pr_id r, pd_tenant = uuid_Nil, pd_category = pr_category r,
      pd_category_name = category_name d (pr_category r), pd_sku = pr_sku r, pd_name = pr_name r,
      pd_desc = pr_desc r, pd_price = e_num_dec E (pr_price r), pd_slug = pr_slug r, pd_image = pr_image r,
      pd_image_url = '''', pd_status = pr_status r, pd_created = pr_created r\<rparr>"

definition repo_CreateProduct :: "'z env_scheme \<Rightarrow> product \<Rightarrow> product go" where
  "repo_CreateProduct E p =
     bind_act (num_arg E (pd_price p)) (\<lambda>price.
     bind_act (new_uuid E) (\<lambda>i. bind_act now (\<lambda>n.
       (let r = \<lparr>pr_id = i, pr_tenant = pd_tenant p, pr_category = pd_category p, pr_sku = pd_sku p,
                 pr_name = pd_name p, pr_desc = pd_desc p, pr_price = price, pr_slug = pd_slug p,
                 pr_image = pd_image p, pr_status = pd_status p, pr_created = n\<rparr>
        in sql (\<lambda>d. commit (p\<lparr>pd_id := i, pd_created := n\<rparr>) (d\<lparr>products := products d @ [r]\<rparr>))))))"

definition own_product :: "uuid \<Rightarrow> uuid \<Rightarrow> product_row \<Rightarrow> bool" where
  "own_product tenantID i p \<longleftrightarrow> pr_id p = i \<and> pr_tenant p = tenantID"

definition repo_UpdateProduct :: "'z env_scheme \<Rightarrow> product \<Rightarrow> unit go" where
  "repo_UpdateProduct E p =
     bind_act (num_arg E (pd_price p)) (\<lambda>price.
     affecting PCatalog (sql (\<lambda>d. commit (affected (own_product (pd_tenant p) (pd_id p)) (products d))
       (d\<lparr>products := update_rows (own_product (pd_tenant p) (pd_id p))
            (\<lambda>r. r\<lparr>pr_category := pd_category p, pr_sku := pd_sku p, pr_name := pd_name p,
                    pr_desc := pd_desc p, pr_price := price, pr_slug := pd_slug p,
                    pr_status := pd_status p\<rparr>) (products d)\<rparr>))))"

definition SetProductImage :: "uuid \<Rightarrow> uuid \<Rightarrow> string \<Rightarrow> string go" where
  "SetProductImage tenantID i imageKey =
     bind_act (sql (\<lambda>d. commit (map_option pr_image (find (own_product tenantID i) (products d)))
       (d\<lparr>products := update_rows (own_product tenantID i) (\<lambda>r. r\<lparr>pr_image := imageKey\<rparr>) (products d)\<rparr>)))
     (\<lambda>r. case r of None \<Rightarrow> raise (ErrNotFound PCatalog) | Some old \<Rightarrow> ret old)"

text \<open>The delete sets the product of order items and of coupons to NULL.\<close>

definition drop_products :: "(product_row \<Rightarrow> bool) \<Rightarrow> db \<Rightarrow> db" where
  "drop_products P d =
     (let gone = map pr_id (filter P (products d));
          hit = (\<lambda>k. case k of None \<Rightarrow> False | Some i \<Rightarrow> i \<in> set gone)
      in d\<lparr>products := delete_rows P (products d),
           order_items := update_rows (\<lambda>r. hit (it_product r)) (\<lambda>r. r\<lparr>it_product := None\<rparr>) (order_items d),
           coupons := update_rows (\<lambda>r. hit (cp_product r)) (\<lambda>r. r\<lparr>cp_product := None\<rparr>) (coupons d)\<rparr>)"

definition repo_DeleteProduct :: "uuid \<Rightarrow> uuid \<Rightarrow> unit go" where
  "repo_DeleteProduct tenantID i =
     affecting PCatalog (sql (\<lambda>d. commit (affected (own_product tenantID i) (products d))
       (drop_products (own_product tenantID i) d)))"

definition repo_GetProduct :: "'z env_scheme \<Rightarrow> uuid \<Rightarrow> uuid \<Rightarrow> product go" where
  "repo_GetProduct E tenantID i =
     query_row PCatalog (\<lambda>d. map_option (product_of E d) (find (own_product tenantID i) (products d)))"

definition sku_match :: "'z env_scheme \<Rightarrow> uuid \<Rightarrow> string \<Rightarrow> product_row \<Rightarrow> bool" where
  "sku_match E tenantID sku p \<longleftrightarrow> pr_tenant p = tenantID \<and> e_sql_lower E (pr_sku p) = e_sql_lower E sku"

definition repo_GetProductBySKU :: "'z env_scheme \<Rightarrow> uuid \<Rightarrow> string \<Rightarrow> product go" where
  "repo_GetProductBySKU E tenantID sku =
     query_row PCatalog (\<lambda>d. map_option (product_of E d) (find (sku_match E tenantID sku) (products d)))"

definition repo_ListProducts ::
  "'z env_scheme \<Rightarrow> uuid \<Rightarrow> string \<Rightarrow> int \<Rightarrow> int \<Rightarrow> (product list \<times> nat) go" where
  "repo_ListProducts E tenantID search lmt off =
     query_page (\<lambda>d. map (product_of E d)
         (filter (\<lambda>p. pr_tenant p = tenantID \<and> searching E search [pr_name p, pr_sku p, pr_desc p]) (products d)))
       pd_created lmt off"

section \<open>The service (service.go)\<close>

text \<open>A run of characters outside \<open>a-z0-9\<close> becomes one dash, then dashes are trimmed.\<close>

definition slug_char :: "char \<Rightarrow> bool" where
  "slug_char c \<longleftrightarrow> is_digit c \<or> 97 \<le> code c \<and> code c \<le> 122"

fun slug_runs :: "bool \<Rightarrow> string \<Rightarrow> string" where
  "slug_runs in_run [] = []"
| "slug_runs in_run (c # cs) =
     (if slug_char c then c # slug_runs False cs
      else if in_run then slug_runs True cs else CHR ''-'' # slug_runs True cs)"

definition slugify :: "string \<Rightarrow> string" where
  "slugify s = trim_if (\<lambda>c. c = CHR ''-'') (slug_runs False (ToLower (TrimSpace s)))"

definition toUUID :: "'z env_scheme \<Rightarrow> string \<Rightarrow> uuid option go" where
  "toUUID E s =
     (if TrimSpace s = '''' then ret None
      else case e_uuid_parse E s of
        None \<Rightarrow> raise (BadRequest (''invalid id: '' @ s))
      | Some i \<Rightarrow> ret (Some i))"

record product_input =
  pi_category :: string
  pi_sku :: string
  pi_name :: string
  pi_desc :: string
  pi_price :: f64
  pi_slug :: string
  pi_status :: string

definition product_fields :: "product_input \<Rightarrow> fields" where
  "product_fields i =
     (let v = Check (fle (Fin 0) (pi_price i)) ''unit_price'' ''must be >= 0''
                (Require ''product_name'' (pi_name i) (Require ''sku'' (pi_sku i) []))
      in if pi_status i \<noteq> '''' \<and> pi_status i \<noteq> ''active'' \<and> pi_status i \<noteq> ''inactive''
         then Check False ''status'' ''must be active or inactive'' v else v)"

definition validateProduct :: "product_input \<Rightarrow> unit go" where
  "validateProduct i = valid_or (product_fields i)"

definition CreateProduct :: "'z env_scheme \<Rightarrow> uuid \<Rightarrow> product_input \<Rightarrow> product go" where
  "CreateProduct E tenantID i =
     bind_act (validateProduct i) (\<lambda>_.
     bind_act (attempt (repo_GetProductBySKU E tenantID (pi_sku i))) (\<lambda>r.
     bind_act (check (isl r) (Conflict ''a product with this SKU already exists'')) (\<lambda>_.
     bind_act (toUUID E (pi_category i)) (\<lambda>cat.
     (let status = (if pi_status i = '''' then ''active'' else pi_status i);
          slug = (if pi_slug i = '''' then slugify (pi_name i) else pi_slug i)
      in bind_act (repo_CreateProduct E
           \<lparr>pd_id = uuid_Nil, pd_tenant = tenantID, pd_category = cat, pd_category_name = '''', pd_sku = pi_sku i,
            pd_name = pi_name i, pd_desc = pi_desc i, pd_price = pi_price i, pd_slug = slug, pd_image = '''',
            pd_image_url = '''', pd_status = status, pd_created = 0\<rparr>) (\<lambda>p.
         bind_act now (\<lambda>n.
         bind_act (Emit (ProductCreated E tenantID (pd_id p) n)) (\<lambda>_. ret p))))))))"

definition catalogErr :: "go_err \<Rightarrow> go_err" where
  "catalogErr = mapErr PCatalog ''resource not found''"

definition UpdateProduct :: "'z env_scheme \<Rightarrow> uuid \<Rightarrow> uuid \<Rightarrow> product_input \<Rightarrow> product go" where
  "UpdateProduct E tenantID i input =
     bind_act (validateProduct input) (\<lambda>_.
     bind_act (map_err catalogErr (repo_GetProduct E tenantID i)) (\<lambda>existing.
     bind_act (if \<not> e_equal_fold E (pd_sku existing) (pi_sku input)
               then bind_act (attempt (repo_GetProductBySKU E tenantID (pi_sku input))) (\<lambda>r.
                      check (isl r) (Conflict ''a product with this SKU already exists''))
               else ret ()) (\<lambda>_.
     bind_act (toUUID E (pi_category input)) (\<lambda>cat.
     (let status = (if pi_status input = '''' then pd_status existing else pi_status input);
          slug = (if pi_slug input = '''' then pd_slug existing else pi_slug input)
      in bind_act (map_err catalogErr (repo_UpdateProduct E
           \<lparr>pd_id = i, pd_tenant = tenantID, pd_category = cat, pd_category_name = '''', pd_sku = pi_sku input,
            pd_name = pi_name input, pd_desc = pi_desc input, pd_price = pi_price input, pd_slug = slug,
            pd_image = '''', pd_image_url = '''', pd_status = status, pd_created = 0\<rparr>)) (\<lambda>_.
         repo_GetProduct E tenantID i))))))"

definition attachImageURL :: "storage \<Rightarrow> product \<Rightarrow> product go" where
  "attachImageURL S p =
     (if pd_image p \<noteq> ''''
      then bind_act (attempt (st_SignedGetURL S (pd_image p) 3600)) (\<lambda>r.
             ret (case r of Inl _ \<Rightarrow> p | Inr url \<Rightarrow> p\<lparr>pd_image_url := url\<rparr>))
      else ret p)"

definition DeleteProduct :: "uuid \<Rightarrow> uuid \<Rightarrow> unit go" where
  "DeleteProduct tenantID i = map_err catalogErr (repo_DeleteProduct tenantID i)"

definition GetProduct :: "'z env_scheme \<Rightarrow> storage \<Rightarrow> uuid \<Rightarrow> uuid \<Rightarrow> product go" where
  "GetProduct E S tenantID i =
     bind_act (map_err catalogErr (repo_GetProduct E tenantID i)) (attachImageURL S)"

definition GetProductBySKU :: "'z env_scheme \<Rightarrow> storage \<Rightarrow> uuid \<Rightarrow> string \<Rightarrow> product go" where
  "GetProductBySKU E S tenantID sku =
     bind_act (map_err catalogErr (repo_GetProductBySKU E tenantID sku)) (attachImageURL S)"

definition ListProducts ::
  "'z env_scheme \<Rightarrow> storage \<Rightarrow> uuid \<Rightarrow> string \<Rightarrow> int \<Rightarrow> int \<Rightarrow> (product list \<times> nat) go" where
  "ListProducts E S tenantID search lmt off =
     bind_act (repo_ListProducts E tenantID search lmt off) (\<lambda>(ps, total).
     bind_act (for_each ps (attachImageURL S)) (\<lambda>ps'. ret (ps', total)))"

definition CreateCategory :: "'z env_scheme \<Rightarrow> uuid \<Rightarrow> string \<Rightarrow> string \<Rightarrow> category go" where
  "CreateCategory E tenantID name desc =
     bind_act (valid_or (Require ''name'' name [])) (\<lambda>_. repo_CreateCategory E tenantID name desc)"

definition UpdateCategory :: "uuid \<Rightarrow> uuid \<Rightarrow> string \<Rightarrow> string \<Rightarrow> unit go" where
  "UpdateCategory tenantID i name desc =
     bind_act (valid_or (Require ''name'' name [])) (\<lambda>_.
       map_err catalogErr (repo_UpdateCategory tenantID i name desc))"

definition DeleteCategory :: "uuid \<Rightarrow> uuid \<Rightarrow> unit go" where
  "DeleteCategory tenantID i = map_err catalogErr (repo_DeleteCategory tenantID i)"

definition ListCategories :: "uuid \<Rightarrow> category list go" where
  "ListCategories tenantID = repo_ListCategories tenantID"
section \<open>The handlers (handler.go)\<close>

datatype catalog_reply =
    R_products "product list_response"
  | R_product product
  | R_categories "category list"
  | R_category_list "category list_response"
  | R_category category
  | R_updated

text \<open>The part \<open>image\<close> of a multipart form; \<open>up_data\<close> is None when it cannot be opened.\<close>

record upload =
  up_filename :: string
  up_type :: string
  up_size :: nat
  up_data :: "string option"

definition listProducts ::
  "'z env_scheme \<Rightarrow> storage \<Rightarrow> identity option \<Rightarrow> (string \<Rightarrow> string) \<Rightarrow> catalog_reply response go" where
  "listProducts E S ctx query =
     (let p = ParsePage query in
      bind_act (ListProducts E S (tid ctx) (pg_search p) (pg_limit p) (pg_offset p)) (\<lambda>(items, total).
      ret (JSON 200 (R_products \<lparr>lr_records = items, lr_query_count = total, lr_total_count = total\<rparr>))))"

definition createProduct ::
  "'z env_scheme \<Rightarrow> identity option \<Rightarrow> product_input option \<Rightarrow> catalog_reply response go" where
  "createProduct E ctx body =
     bind_act (Bind body) (\<lambda>i.
     bind_act (CreateProduct E (tid ctx) i) (\<lambda>p. ret (JSON 201 (R_product p))))"

definition getProduct ::
  "'z env_scheme \<Rightarrow> storage \<Rightarrow> identity option \<Rightarrow> string \<Rightarrow> catalog_reply response go" where
  "getProduct E S ctx param =
     bind_act (parseID E param) (\<lambda>i.
     bind_act (GetProduct E S (tid ctx) i) (\<lambda>p. ret (JSON 200 (R_product p))))"

definition getProductBySKU ::
  "'z env_scheme \<Rightarrow> storage \<Rightarrow> identity option \<Rightarrow> string \<Rightarrow> catalog_reply response go" where
  "getProductBySKU E S ctx sku =
     bind_act (GetProductBySKU E S (tid ctx) sku) (\<lambda>p. ret (JSON 200 (R_product p)))"

definition updateProduct ::
  "'z env_scheme \<Rightarrow> identity option \<Rightarrow> string \<Rightarrow> product_input option \<Rightarrow> catalog_reply response go" where
  "updateProduct E ctx param body =
     bind_act (parseID E param) (\<lambda>i.
     bind_act (Bind body) (\<lambda>input.
     bind_act (UpdateProduct E (tid ctx) i input) (\<lambda>p. ret (JSON 200 (R_product p)))))"

definition deleteProduct :: "'z env_scheme \<Rightarrow> identity option \<Rightarrow> string \<Rightarrow> catalog_reply response go" where
  "deleteProduct E ctx param =
     bind_act (parseID E param) (\<lambda>i.
     bind_act (DeleteProduct (tid ctx) i) (\<lambda>_. ret (NoContent 204)))"

definition checked_upload :: "(string \<Rightarrow> bool) \<Rightarrow> string \<Rightarrow> string \<Rightarrow> string \<Rightarrow> string \<Rightarrow> upload option \<Rightarrow> (upload \<times> string) go" where
  "checked_upload allowed missing too_big unsupported unreadable up =
     (case up of
        None \<Rightarrow> raise (BadRequest missing)
      | Some f \<Rightarrow>
          if up_size f > MaxUploadBytes then raise (BadRequest too_big)
          else if \<not> allowed (up_type f) then raise (BadRequest (unsupported @ up_type f))
          else case up_data f of
            None \<Rightarrow> raise (BadRequest unreadable)
          | Some src \<Rightarrow> ret (f, src))"

definition uploadImage ::
  "'z env_scheme \<Rightarrow> storage \<Rightarrow> identity option \<Rightarrow> string \<Rightarrow> upload option \<Rightarrow> catalog_reply response go" where
  "uploadImage E S ctx param up =
     bind_act (parseID E param) (\<lambda>i.
     (let tenantID = tid ctx in
      bind_act (checked_upload AllowedImageMIME ''missing 'image' file'' ''image exceeds maximum size''
                  ''unsupported image type: '' ''cannot read upload'' up) (\<lambda>(f, src).
      bind_act (attempt (st_Put S tenantID ''products'' (up_filename f) (up_type f) src)) (\<lambda>r.
      case r of
        Inl e \<Rightarrow> raise (BadRequest (err_text e))
      | Inr key \<Rightarrow>
          bind_act (attempt (SetProductImage tenantID i key)) (\<lambda>q.
          case q of
            Inl e \<Rightarrow> bind_act (ignore (st_Delete S key)) (\<lambda>_. raise (catalogErr e))
          | Inr oldKey \<Rightarrow>
              bind_act (if oldKey \<noteq> '''' \<and> oldKey \<noteq> key then ignore (st_Delete S oldKey) else ret ()) (\<lambda>_.
              bind_act (GetProduct E S tenantID i) (\<lambda>p. ret (JSON 200 (R_product p)))))))))"

definition listCategories :: "identity option \<Rightarrow> catalog_reply response go" where
  "listCategories ctx =
     bind_act (ListCategories (tid ctx)) (\<lambda>items. ret (JSON 200 (R_categories items)))"

definition legacyCategories :: "identity option \<Rightarrow> catalog_reply response go" where
  "legacyCategories ctx =
     bind_act (ListCategories (tid ctx)) (\<lambda>items.
     ret (JSON 200 (R_category_list
       \<lparr>lr_records = items, lr_query_count = length items, lr_total_count = length items\<rparr>)))"

definition createCategory ::
  "'z env_scheme \<Rightarrow> identity option \<Rightarrow> (string \<times> string) option \<Rightarrow> catalog_reply response go" where
  "createCategory E ctx body =
     bind_act (Bind body) (\<lambda>(name, desc).
     bind_act (CreateCategory E (tid ctx) name desc) (\<lambda>c. ret (JSON 201 (R_category c))))"

definition updateCategory ::
  "'z env_scheme \<Rightarrow> identity option \<Rightarrow> string \<Rightarrow> (string \<times> string) option \<Rightarrow> catalog_reply response go" where
  "updateCategory E ctx param body =
     bind_act (parseID E param) (\<lambda>i.
     bind_act (Bind body) (\<lambda>(name, desc).
     bind_act (UpdateCategory (tid ctx) i name desc) (\<lambda>_. ret (JSON 200 R_updated))))"

definition deleteCategory :: "'z env_scheme \<Rightarrow> identity option \<Rightarrow> string \<Rightarrow> catalog_reply response go" where
  "deleteCategory E ctx param =
     bind_act (parseID E param) (\<lambda>i.
     bind_act (DeleteCategory (tid ctx) i) (\<lambda>_. ret (NoContent 204)))"

section \<open>What the operations do to the tables\<close>

lemma scoped_repo_CreateCategory: "keeps (scoped t) (repo_CreateCategory E t name desc)"
  unfolding repo_CreateCategory_def Let_def
  by (intro scoped_rules category_table.scoped_insert) simp

lemma scoped_repo_UpdateCategory: "keeps (scoped t) (repo_UpdateCategory t i name desc)"
  unfolding repo_UpdateCategory_def
  by (intro scoped_rules category_table.scoped_update) (simp add: own_category_def)

lemma scoped_repo_CreateProduct: "pd_tenant p = t \<Longrightarrow> keeps (scoped t) (repo_CreateProduct E p)"
  unfolding repo_CreateProduct_def Let_def
  by (intro scoped_rules product_table.scoped_insert) simp

lemma scoped_repo_UpdateProduct: "pd_tenant p = t \<Longrightarrow> keeps (scoped t) (repo_UpdateProduct E p)"
  unfolding repo_UpdateProduct_def
  by (intro scoped_rules product_table.scoped_update) (auto simp: own_product_def)

lemma scoped_SetProductImage: "keeps (scoped t) (SetProductImage t i key)"
  unfolding SetProductImage_def
  by (intro scoped_rules product_table.scoped_update) (auto simp: own_product_def)

lemma reads_repo_catalog:
  "reads (repo_GetProduct E t i)" "reads (repo_GetProductBySKU E t s)" "reads (repo_ListProducts E t q l f)"
  "reads (repo_ListCategories t)" "reads (repo_GetCategory t i)" "reads (toUUID E s)" "reads (validateProduct inp)"
  unfolding repo_GetProduct_def repo_GetProductBySKU_def repo_ListProducts_def repo_ListCategories_def
    repo_GetCategory_def toUUID_def validateProduct_def
  by (intro reads_combinators reads_query_row reads_query_page)+

lemmas scoped_catalog_repo =
  scoped_rules scoped_repo_CreateCategory scoped_repo_UpdateCategory scoped_repo_CreateProduct
  scoped_repo_UpdateProduct scoped_SetProductImage reads_repo_catalog [THEN scoped_reads]

lemma scoped_CreateProduct: "keeps (scoped t) (CreateProduct E t i)"
  unfolding CreateProduct_def by (intro scoped_catalog_repo) simp

lemma scoped_UpdateProduct: "keeps (scoped t) (UpdateProduct E t i input)"
  unfolding UpdateProduct_def by (intro scoped_catalog_repo) simp

lemma scoped_categories:
  "keeps (scoped t) (CreateCategory E t name desc)" "keeps (scoped t) (UpdateCategory t i name desc)"
  "keeps (scoped t) (ListCategories t)"
  unfolding CreateCategory_def UpdateCategory_def ListCategories_def by (intro scoped_catalog_repo)+

lemma scoped_checked_upload: "keeps (scoped t) (checked_upload al a b c d up)"
  unfolding checked_upload_def by (intro scoped_rules)

context object_store
begin

lemma reads_attachImageURL: "reads (attachImageURL S p)"
  unfolding attachImageURL_def by (intro reads_combinators url_reads)

lemma reads_GetProduct: "reads (GetProduct E S t i)"
  unfolding GetProduct_def by (intro reads_combinators reads_repo_catalog reads_attachImageURL)

lemma reads_GetProductBySKU: "reads (GetProductBySKU E S t sku)"
  unfolding GetProductBySKU_def by (intro reads_combinators reads_repo_catalog reads_attachImageURL)

lemma reads_ListProducts: "reads (ListProducts E S t q l f)"
  unfolding ListProducts_def by (intro reads_combinators reads_repo_catalog reads_attachImageURL)

lemmas catalog_reads = reads_GetProduct reads_GetProductBySKU reads_ListProducts store_reads

lemma scoped_catalog_handlers:
  "keeps (scoped (tid ctx)) (listProducts E S ctx q)"
  "keeps (scoped (tid ctx)) (getProduct E S ctx param)"
  "keeps (scoped (tid ctx)) (getProductBySKU E S ctx sku)"
  "keeps (scoped (tid ctx)) (uploadImage E S ctx param up)"
  unfolding listProducts_def getProduct_def getProductBySKU_def uploadImage_def
  by (intro scoped_catalog_repo scoped_checked_upload catalog_reads [THEN scoped_reads])+

end

lemma scoped_catalog_handlers_plain:
  "keeps (scoped (tid ctx)) (createProduct E ctx body)"
  "keeps (scoped (tid ctx)) (updateProduct E ctx param body)"
  "keeps (scoped (tid ctx)) (listCategories ctx)"
  "keeps (scoped (tid ctx)) (legacyCategories ctx)"
  "keeps (scoped (tid ctx)) (createCategory E ctx pair)"
  "keeps (scoped (tid ctx)) (updateCategory E ctx param pair)"
  unfolding createProduct_def updateProduct_def listCategories_def legacyCategories_def createCategory_def
    updateCategory_def
  by (intro scoped_rules scoped_CreateProduct scoped_UpdateProduct scoped_categories)+

section \<open>Deletes\<close>

text \<open>
  A delete also writes the rows that refer to the row deleted. They are the tenant's own when
  no row of another tenant refers to it, which the constraints do not ask.
\<close>

definition own_category_refs :: "uuid \<Rightarrow> db \<Rightarrow> bool" where
  "own_category_refs t d \<longleftrightarrow>
     (\<forall>c \<in> set (categories d). \<forall>p \<in> set (products d).
        ct_tenant c = t \<longrightarrow> pr_category p = Some (ct_id c) \<longrightarrow> pr_tenant p = t)"

definition own_product_refs :: "uuid \<Rightarrow> db \<Rightarrow> bool" where
  "own_product_refs t d \<longleftrightarrow>
     (\<forall>p \<in> set (products d). pr_tenant p = t \<longrightarrow>
        (\<forall>c \<in> set (coupons d). cp_product c = Some (pr_id p) \<longrightarrow> cp_tenant c = t) \<and>
        (\<forall>r \<in> set (order_items d). it_product r = Some (pr_id p) \<longrightarrow>
           it_order r \<notin> set (order_ids (\<lambda>u. u \<noteq> t) d)))"

lemma view_drop_categories:
  assumes "\<And>c. P c \<Longrightarrow> ct_tenant c = t" and "own_category_refs t d"
  shows "view (\<lambda>u. u \<noteq> t) (drop_categories P d) = view (\<lambda>u. u \<noteq> t) d"
proof -
  have "filter (\<lambda>c. ct_tenant c \<noteq> t) (delete_rows P (categories d)) = filter (\<lambda>c. ct_tenant c \<noteq> t) (categories d)"
    by (rule delete_rows_frame) (use assms(1) in auto)
  moreover have "filter (\<lambda>p. pr_tenant p \<noteq> t) (clear_category (map ct_id (filter P (categories d))) (products d))
      = filter (\<lambda>p. pr_tenant p \<noteq> t) (products d)"
    unfolding clear_category_def
    by (rule update_rows_frame) (use assms in \<open>auto simp: own_category_refs_def split: option.splits\<close>)
  ultimately show ?thesis by (simp add: view_def order_ids_def drop_categories_def)
qed

lemma view_drop_products:
  assumes "\<And>p. P p \<Longrightarrow> pr_tenant p = t" and "own_product_refs t d"
  shows "view (\<lambda>u. u \<noteq> t) (drop_products P d) = view (\<lambda>u. u \<noteq> t) d"
proof -
  let ?hit = "\<lambda>k. case k of None \<Rightarrow> False | Some i \<Rightarrow> i \<in> set (map pr_id (filter P (products d)))"
  have "filter (\<lambda>p. pr_tenant p \<noteq> t) (delete_rows P (products d)) = filter (\<lambda>p. pr_tenant p \<noteq> t) (products d)"
    by (rule delete_rows_frame) (use assms(1) in auto)
  moreover have "filter (\<lambda>c. cp_tenant c \<noteq> t) (update_rows (\<lambda>r. ?hit (cp_product r)) (\<lambda>r. r\<lparr>cp_product := None\<rparr>) (coupons d))
      = filter (\<lambda>c. cp_tenant c \<noteq> t) (coupons d)"
    by (rule update_rows_frame) (use assms in \<open>auto simp: own_product_refs_def split: option.splits\<close>)
  moreover have "filter (\<lambda>r. it_order r \<in> set (order_ids (\<lambda>u. u \<noteq> t) d))
        (update_rows (\<lambda>r. ?hit (it_product r)) (\<lambda>r. r\<lparr>it_product := None\<rparr>) (order_items d))
      = filter (\<lambda>r. it_order r \<in> set (order_ids (\<lambda>u. u \<noteq> t) d)) (order_items d)"
    by (rule update_rows_frame) (use assms in \<open>auto simp: own_product_refs_def split: option.splits\<close>)
  ultimately show ?thesis by (simp add: view_def order_ids_def drop_products_def Let_def)
qed

lemma on_db_sql:
  assumes "Q (w_db w) (w_db w)" and "\<And>x d'. q (w_db w) = Inr (x, d') \<Longrightarrow> Q (w_db w) d'"
  shows "on_db Q w (fst (sql q w))"
proof -
  obtain w' r where run: "sql q w = (w', r)" by fastforce
  with sql_cases [OF run] assms show ?thesis by (auto simp: on_db_def)
qed

lemma scoped_at_affecting: "scoped t w (fst (m w)) \<Longrightarrow> scoped t w (fst (map_err g (affecting p m) w))"
  by (cases "m w"; cases "snd (m w)") (auto simp: affecting_run)

lemma DeleteCategory_scoped:
  assumes "own_category_refs t (w_db w)"
  shows "scoped t w (fst (DeleteCategory t i w))"
proof -
  have "view (\<lambda>u. u \<noteq> t) (drop_categories (own_category t i) (w_db w)) = view (\<lambda>u. u \<noteq> t) (w_db w)"
    by (rule view_drop_categories) (use assms in \<open>auto simp: own_category_def\<close>)
  then show ?thesis
    unfolding DeleteCategory_def repo_DeleteCategory_def
    by (intro scoped_at_affecting) (auto simp: scoped_def drop_categories_def intro!: on_db_sql
        elim!: scoped_commit [rotated 3])
qed

lemma DeleteProduct_scoped:
  assumes "own_product_refs t (w_db w)"
  shows "scoped t w (fst (DeleteProduct t i w))"
proof -
  have "view (\<lambda>u. u \<noteq> t) (drop_products (own_product t i) (w_db w)) = view (\<lambda>u. u \<noteq> t) (w_db w)"
    by (rule view_drop_products) (use assms in \<open>auto simp: own_product_def\<close>)
  then show ?thesis
    unfolding DeleteProduct_def repo_DeleteProduct_def
    by (intro scoped_at_affecting) (auto simp: scoped_def drop_products_def Let_def intro!: on_db_sql
        elim!: scoped_commit [rotated 3])
qed

lemma spent_deletes: "keeps keeps_spent (DeleteCategory t i)" "keeps keeps_spent (DeleteProduct t i)"
  unfolding DeleteCategory_def repo_DeleteCategory_def DeleteProduct_def repo_DeleteProduct_def affecting_def
    drop_categories_def drop_products_def Let_def
  by (intro spent_store spent_sql; auto intro!: spent_other_tables)+

section \<open>SKUs are unique up to case\<close>

definition sku_unique :: "'z env_scheme \<Rightarrow> db \<Rightarrow> bool" where
  "sku_unique E d \<longleftrightarrow> distinct (map (\<lambda>p. (pr_tenant p, e_sql_lower E (pr_sku p))) (products d))"

lemma repo_GetProductBySKU_isl:
  "w_faults w = [] \<Longrightarrow> fst (repo_GetProductBySKU E t sku w) = w \<and>
     isl (snd (repo_GetProductBySKU E t sku w)) = (\<forall>p \<in> set (products (w_db w)). \<not> sku_match E t sku p)"
  by (auto simp: repo_GetProductBySKU_def query_row_ok find_None_iff split: option.splits dest: find_Some_iff')

lemma sku_unique_insert:
  assumes "sku_unique E d" and "\<forall>p \<in> set (products d). \<not> sku_match E (pr_tenant r) (pr_sku r) p"
  shows "sku_unique E (d\<lparr>products := products d @ [r]\<rparr>)"
  using assms by (auto simp: sku_unique_def sku_match_def)

lemma sku_unique_replace:
  assumes "sku_unique E d" and "distinct (map pr_id (products d))" and "r \<in> set (products d)" and "own_product t i r"
    and "e_sql_lower E sku = e_sql_lower E (pr_sku r) \<or> (\<forall>p \<in> set (products d). \<not> sku_match E t sku p)"
    and "\<And>p. pr_tenant (f p) = pr_tenant p \<and> pr_sku (f p) = sku"
  shows "sku_unique E (d\<lparr>products := update_rows (own_product t i) f (products d)\<rparr>)"
proof -
  let ?k = "\<lambda>p. (pr_tenant p, e_sql_lower E (pr_sku p))"
  have only: "p = r" if "p \<in> set (products d)" "own_product t i p" for p
    using assms(2-4) that by (metis distinct_map_unique own_product_def)
  show ?thesis
  proof (cases "e_sql_lower E sku = e_sql_lower E (pr_sku r)")
    case True
    then have "map ?k (update_rows (own_product t i) f (products d)) = map ?k (products d)"
      using only assms(6) by (auto simp: update_rows_def)
    with assms(1) show ?thesis by (simp add: sku_unique_def)
  next
    case False
    with assms(5) have free: "p \<in> set (products d) \<Longrightarrow> \<not> sku_match E t sku p" for p by blast
    have key: "?k (f p) = (pr_tenant p, e_sql_lower E sku)" for p using assms(6) [of p] by simp
    let ?g = "\<lambda>p. if own_product t i p then f p else p"
    have "p = q" if p: "p \<in> set (products d)" and q: "q \<in> set (products d)" and eq: "?k (?g p) = ?k (?g q)" for p q
    proof (cases "own_product t i p")
      case True
      have "own_product t i q"
      proof (rule ccontr)
        assume "\<not> own_product t i q"
        moreover have "pr_tenant p = t" using True by (simp add: own_product_def)
        ultimately have "sku_match E t sku q" using True eq key [of p] by (simp add: sku_match_def)
        with free [OF q] show False by simp
      qed
      with True only p q show ?thesis by blast
    next
      case False
      have "\<not> own_product t i q"
      proof
        assume "own_product t i q"
        moreover from this have "pr_tenant q = t" by (simp add: own_product_def)
        ultimately have "sku_match E t sku p" using False eq key [of q] by (simp add: sku_match_def)
        with free [OF p] show False by simp
      qed
      with False eq have "?k p = ?k q" by simp
      with assms(1) p q show ?thesis unfolding sku_unique_def by (rule distinct_map_unique)
    qed
    then have "inj_on (\<lambda>p. ?k (?g p)) (set (products d))" by (rule inj_onI)
    moreover have "distinct (products d)" using assms(1) by (simp add: sku_unique_def distinct_map)
    ultimately show ?thesis by (simp add: sku_unique_def update_rows_def distinct_map comp_inj_on_iff comp_def)
  qed
qed

lemma repo_GetProduct_InrD:
  assumes "repo_GetProduct E t i w = (w', Inr p)"
  obtains r where "r \<in> set (products (w_db w))" "own_product t i r" "pd_sku p = pr_sku r" "w_db w' = w_db w"
  using query_row_InrD [OF assms [unfolded repo_GetProduct_def]]
  by (auto simp: product_of_def dest: find_Some_iff')

lemma repo_CreateProduct_db:
  assumes "repo_CreateProduct E p w = (w', s)"
  shows "w_db w' = w_db w \<or> (\<exists>r. pr_tenant r = pd_tenant p \<and> pr_sku r = pd_sku p \<and>
           w_db w' = w_db w\<lparr>products := products (w_db w) @ [r]\<rparr>)"
proof -
  let ?r = "\<lambda>price. \<lparr>pr_id = e_uuid_gen E (w_seed w), pr_tenant = pd_tenant p, pr_category = pd_category p,
      pr_sku = pd_sku p, pr_name = pd_name p, pr_desc = pd_desc p, pr_price = price, pr_slug = pd_slug p,
      pr_image = pd_image p, pr_status = pd_status p, pr_created = w_now w\<rparr>"
  from assms have "w_db w' = w_db w \<or> (\<exists>price. w_db w' = w_db w\<lparr>products := products (w_db w) @ [?r price]\<rparr>)"
    unfolding repo_CreateProduct_def
    by (auto simp: bind_act_def num_arg_run new_uuid_run now_run Let_def dest!: sql_cases
        split: option.splits)
  then show ?thesis
  proof
    assume "\<exists>price. w_db w' = w_db w\<lparr>products := products (w_db w) @ [?r price]\<rparr>"
    then obtain price where "w_db w' = w_db w\<lparr>products := products (w_db w) @ [?r price]\<rparr>" by blast
    then show ?thesis by (intro disjI2 exI [of _ "?r price"]) simp
  qed simp
qed

lemma repo_UpdateProduct_db:
  assumes "repo_UpdateProduct E p w = (w', s)"
  shows "w_db w' = w_db w \<or> (\<exists>price. w_db w' = w_db w\<lparr>products :=
     update_rows (own_product (pd_tenant p) (pd_id p))
       (\<lambda>r. r\<lparr>pr_category := pd_category p, pr_sku := pd_sku p, pr_name := pd_name p,
               pr_desc := pd_desc p, pr_price := price, pr_slug := pd_slug p,
               pr_status := pd_status p\<rparr>) (products (w_db w))\<rparr>)"
proof (cases "e_num_enc E (pd_price p)")
  case None
  with assms show ?thesis by (simp add: repo_UpdateProduct_def bind_act_def num_arg_run)
next
  case (Some price)
  obtain v r where run: "sql (\<lambda>d. commit (affected (own_product (pd_tenant p) (pd_id p)) (products d))
       (d\<lparr>products := update_rows (own_product (pd_tenant p) (pd_id p))
            (\<lambda>r. r\<lparr>pr_category := pd_category p, pr_sku := pd_sku p, pr_name := pd_name p,
                    pr_desc := pd_desc p, pr_price := price, pr_slug := pd_slug p,
                    pr_status := pd_status p\<rparr>) (products d)\<rparr>)) w = (v, r)" by fastforce
  with assms Some have "w' = v"
    by (cases r) (simp_all add: repo_UpdateProduct_def bind_act_def num_arg_run affecting_run)
  with sql_cases [OF run] show ?thesis by auto
qed

lemma reads_db_step: "reads m \<Longrightarrow> bind_act m f w = (w', r) \<Longrightarrow>
   (w_db w' = w_db w) \<or> (\<exists>x v. m w = (v, Inr x) \<and> w_db v = w_db w \<and> f x v = (w', r))"
  unfolding bind_act_def using reads_db [of m w] by (auto split: prod.splits sum.splits)

lemma CreateProduct_db:
  assumes "w_faults w = []"
  shows "w_db (fst (CreateProduct E t i w)) = w_db w \<or>
    ((\<forall>p \<in> set (products (w_db w)). \<not> sku_match E t (pi_sku i) p) \<and>
     (\<exists>r. pr_tenant r = t \<and> pr_sku r = pi_sku i \<and>
        w_db (fst (CreateProduct E t i w)) = w_db w\<lparr>products := products (w_db w) @ [r]\<rparr>))"
proof -
  let ?p = "\<lambda>cat. \<lparr>pd_id = uuid_Nil, pd_tenant = t, pd_category = cat, pd_category_name = '''', pd_sku = pi_sku i,
      pd_name = pi_name i, pd_desc = pi_desc i, pd_price = pi_price i,
      pd_slug = (if pi_slug i = '''' then slugify (pi_name i) else pi_slug i), pd_image = '''',
      pd_image_url = '''', pd_status = (if pi_status i = '''' then ''active'' else pi_status i), pd_created = 0\<rparr>"
  note look = repo_GetProductBySKU_isl [OF assms, of E t "pi_sku i"]
  have emit: "w_db (fst (bind_act m (\<lambda>p. bind_act now (\<lambda>n. bind_act (Emit (ev p n)) (\<lambda>_. ret p))) v)) = w_db (fst (m v))"
    for m :: "product go" and ev v
    by (simp add: bind_act_def now_run split: prod.split sum.split)
  have uuid: "w_db (fst (bind_act (toUUID E s) f v)) = w_db v \<or> (\<exists>c. bind_act (toUUID E s) f v = f c v)"
    for s v and f :: "uuid option \<Rightarrow> product go"
    by (auto simp: toUUID_def split: option.split)
  show ?thesis
  proof (cases "product_fields i = [] \<and> (\<forall>p \<in> set (products (w_db w)). \<not> sku_match E t (pi_sku i) p)")
    case False
    with look have "fst (CreateProduct E t i w) = w"
      unfolding CreateProduct_def validateProduct_def
      by (auto simp: bind_valid_or bind_attempt bind_check)
    then show ?thesis by simp
  next
    case True
    let ?f = "\<lambda>cat. bind_act (repo_CreateProduct E (?p cat)) (\<lambda>p. bind_act now (\<lambda>n.
          bind_act (Emit (ProductCreated E t (pd_id p) n)) (\<lambda>_. ret p)))"
    from True look have run: "CreateProduct E t i w = bind_act (toUUID E (pi_category i)) ?f w"
      unfolding CreateProduct_def validateProduct_def Let_def by (simp add: bind_valid_or bind_attempt bind_check)
    from uuid [of "pi_category i" ?f w] show ?thesis
    proof
      assume "w_db (fst (bind_act (toUUID E (pi_category i)) ?f w)) = w_db w"
      then show ?thesis by (simp only: run simp_thms)
    next
      assume "\<exists>c. bind_act (toUUID E (pi_category i)) ?f w = ?f c w"
      then obtain cat where cat: "bind_act (toUUID E (pi_category i)) ?f w = ?f cat w" ..
      obtain v s where v: "repo_CreateProduct E (?p cat) w = (v, s)" by fastforce
      have "w_db (fst (CreateProduct E t i w)) = w_db v" unfolding run cat emit v by simp
      with repo_CreateProduct_db [OF v] True show ?thesis by auto
    qed
  qed
qed

lemma UpdateProduct_db:
  assumes "w_faults w = []" and "db_ok (w_db w)"
  shows "w_db (fst (UpdateProduct E t i a w)) = w_db w \<or>
    (\<exists>r f. r \<in> set (products (w_db w)) \<and> own_product t i r \<and>
      (e_equal_fold E (pr_sku r) (pi_sku a) \<or> (\<forall>p \<in> set (products (w_db w)). \<not> sku_match E t (pi_sku a) p)) \<and>
      (\<forall>p. pr_tenant (f p) = pr_tenant p \<and> pr_sku (f p) = pi_sku a) \<and>
      w_db (fst (UpdateProduct E t i a w)) = w_db w\<lparr>products := update_rows (own_product t i) f (products (w_db w))\<rparr>)"
proof -
  note look = repo_GetProductBySKU_isl [OF assms(1), of E t "pi_sku a"]
  have get: "repo_GetProduct E t i w = (w, case find (own_product t i) (products (w_db w)) of
      None \<Rightarrow> Inl (ErrNotFound PCatalog) | Some r \<Rightarrow> Inr (product_of E (w_db w) r))"
    by (simp add: repo_GetProduct_def query_row_ok [OF assms(1)] split: option.split)
  have uuid: "w_db (fst (bind_act (toUUID E s) f v)) = w_db v \<or> (\<exists>c. bind_act (toUUID E s) f v = f c v)"
    for s v and f :: "uuid option \<Rightarrow> product go"
    by (auto simp: toUUID_def split: option.split)
  have tail: "w_db (fst (bind_act (map_err g m) (\<lambda>_. repo_GetProduct E t i) v)) = w_db (fst (m v))"
    for g and m :: "unit go" and v
    by (simp add: bind_act_def map_err_def reads_db [OF reads_repo_catalog(1)] split: prod.split sum.split)
  show ?thesis
  proof (cases "find (own_product t i) (products (w_db w))")
    case None
    then have "fst (UpdateProduct E t i a w) = w"
      by (simp add: UpdateProduct_def validateProduct_def bind_valid_or) (simp add: bind_act_def map_err_def get)
    then show ?thesis by simp
  next
    case (Some r)
    then have r: "r \<in> set (products (w_db w))" "own_product t i r" by (auto dest: find_Some_iff')
    let ?p = "\<lambda>c. \<lparr>pd_id = i, pd_tenant = t, pd_category = c, pd_category_name = '''', pd_sku = pi_sku a,
        pd_name = pi_name a, pd_desc = pi_desc a, pd_price = pi_price a,
        pd_slug = (if pi_slug a = '''' then pr_slug r else pi_slug a), pd_image = '''', pd_image_url = '''',
        pd_status = (if pi_status a = '''' then pr_status r else pi_status a), pd_created = 0\<rparr>"
    let ?f = "\<lambda>c. bind_act (map_err catalogErr (repo_UpdateProduct E (?p c))) (\<lambda>_. repo_GetProduct E t i)"
    let ?new = "e_equal_fold E (pr_sku r) (pi_sku a) \<or> (\<forall>p \<in> set (products (w_db w)). \<not> sku_match E t (pi_sku a) p)"
    have run: "UpdateProduct E t i a w =
        (if product_fields a \<noteq> [] then (w, Inl (Validation (product_fields a)))
         else if ?new then bind_act (toUUID E (pi_category a)) ?f w
         else (w, Inl (Conflict ''a product with this SKU already exists'')))"
      using look unfolding UpdateProduct_def validateProduct_def Let_def
      by (auto simp: bind_valid_or bind_act_def [of "map_err _ (repo_GetProduct _ _ _)"] map_err_def get Some
          product_of_def bind_assoc bind_attempt bind_check)
    show ?thesis
    proof (cases "product_fields a = [] \<and> ?new")
      case False
      then have "fst (UpdateProduct E t i a w) = w" unfolding run by auto
      then show ?thesis by simp
    next
      case True
      then have run': "UpdateProduct E t i a w = bind_act (toUUID E (pi_category a)) ?f w" unfolding run by simp
      from uuid [of "pi_category a" ?f w] show ?thesis
      proof
        assume "w_db (fst (bind_act (toUUID E (pi_category a)) ?f w)) = w_db w"
        then show ?thesis by (simp only: run' simp_thms)
      next
        assume "\<exists>c. bind_act (toUUID E (pi_category a)) ?f w = ?f c w"
        then obtain c where c: "bind_act (toUUID E (pi_category a)) ?f w = ?f c w" ..
        obtain v s where v: "repo_UpdateProduct E (?p c) w = (v, s)" by fastforce
        have "w_db (fst (UpdateProduct E t i a w)) = w_db v" unfolding run' c tail v by simp
        let ?g = "\<lambda>price q. q\<lparr>pr_category := c, pr_sku := pi_sku a, pr_name := pi_name a, pr_desc := pi_desc a,
            pr_price := price, pr_slug := (if pi_slug a = '''' then pr_slug r else pi_slug a),
            pr_status := (if pi_status a = '''' then pr_status r else pi_status a)\<rparr>"
        from repo_UpdateProduct_db [OF v] \<open>w_db (fst (UpdateProduct E t i a w)) = w_db v\<close>
        consider "w_db (fst (UpdateProduct E t i a w)) = w_db w"
          | price where "w_db (fst (UpdateProduct E t i a w)) =
              w_db w\<lparr>products := update_rows (own_product t i) (?g price) (products (w_db w))\<rparr>"
          by auto
        then show ?thesis
        proof cases
          case 2
          show ?thesis by (rule disjI2, rule exI [of _ r], rule exI [of _ "?g price"]) (use 2 True r in simp)
        qed simp
      qed
    qed
  qed
qed

text \<open>C13: The SKUs of a tenant stay different from each other under the database's lower, although its
  constraint only asks that they differ as texts: with the connection up, no product that is created
  through the service breaks the invariant, and none that is changed does, provided that a SKU which
  EqualFold takes for the product's old one is the same under lower too. Go and the database agree on that for
  ASCII, but not for all letters: for a final and a plain sigma the check is skipped and may fail.\<close>

theorem sku_unique_kept:
  assumes "w_faults w = []" and "db_ok (w_db w)" and "sku_unique E (w_db w)"
    and "\<And>r. r \<in> set (products (w_db w)) \<Longrightarrow> own_product t i r \<Longrightarrow> e_equal_fold E (pr_sku r) (pi_sku b) \<Longrightarrow>
      e_sql_lower E (pi_sku b) = e_sql_lower E (pr_sku r)"
  shows "sku_unique E (w_db (fst (CreateProduct E t a w))) \<and>
     sku_unique E (w_db (fst (UpdateProduct E t i b w)))"
proof
  from CreateProduct_db [OF assms(1), of E t a] assms(3)
  show "sku_unique E (w_db (fst (CreateProduct E t a w)))"
    using sku_unique_insert [OF assms(3)] by auto
next
  have ids: "distinct (map pr_id (products (w_db w)))"
    using assms(2) by (simp add: db_ok_def products_ok_def)
  from UpdateProduct_db [OF assms(1,2), of E t i b]
  show "sku_unique E (w_db (fst (UpdateProduct E t i b w)))"
  proof (elim disjE exE conjE)
    fix r f assume r: "r \<in> set (products (w_db w))" "own_product t i r"
      and f: "\<forall>p. pr_tenant (f p) = pr_tenant p \<and> pr_sku (f p) = pi_sku b"
      and db: "w_db (fst (UpdateProduct E t i b w)) = w_db w\<lparr>products := update_rows (own_product t i) f (products (w_db w))\<rparr>"
      and "e_equal_fold E (pr_sku r) (pi_sku b)"
    with assms(4) [OF r] sku_unique_replace [OF assms(3) ids r, of "pi_sku b" f] show ?thesis by simp
  next
    fix r f assume "r \<in> set (products (w_db w))" "own_product t i r"
      and f: "\<forall>p. pr_tenant (f p) = pr_tenant p \<and> pr_sku (f p) = pi_sku b"
      and db: "w_db (fst (UpdateProduct E t i b w)) = w_db w\<lparr>products := update_rows (own_product t i) f (products (w_db w))\<rparr>"
      and "\<forall>p \<in> set (products (w_db w)). \<not> sku_match E t (pi_sku b) p"
    with sku_unique_replace [OF assms(3) ids, of r t i "pi_sku b" f] show ?thesis by simp
  qed (use assms(3) in simp)
qed

section \<open>Slugs\<close>

fun no_double :: "string \<Rightarrow> bool" where
  "no_double (a # b # s) \<longleftrightarrow> \<not> (a = CHR ''-'' \<and> b = CHR ''-'') \<and> no_double (b # s)"
| "no_double _ \<longleftrightarrow> True"

lemma dash_not_slug: "\<not> slug_char (CHR ''-'')"
  by (simp add: slug_char_def is_digit_def code_def)

lemma slug_runs_chars: "c \<in> set (slug_runs b s) \<Longrightarrow> slug_char c \<or> c = CHR ''-''"
  by (induction b s rule: slug_runs.induct) (auto split: if_splits)

lemma slug_runs_True_hd: "slug_runs True s = [] \<or> hd (slug_runs True s) \<noteq> CHR ''-''"
  by (induction s) (auto simp: dash_not_slug)

lemma no_double_Cons: "no_double s \<Longrightarrow> s = [] \<or> hd s \<noteq> CHR ''-'' \<or> c \<noteq> CHR ''-'' \<Longrightarrow> no_double (c # s)"
  by (cases s) auto

lemma no_double_slug_runs: "no_double (slug_runs b s)"
proof (induction b s rule: slug_runs.induct)
  case (2 b c s)
  then show ?case
    using slug_runs_True_hd [of s] by (auto simp: dash_not_slug intro!: no_double_Cons)
qed simp

lemma no_double_append: "no_double (a @ b) \<Longrightarrow> no_double a \<and> no_double b"
  by (induction a rule: no_double.induct) (auto elim: no_double.elims)

lemma trim_if_infix: "\<exists>a b. s = a @ trim_if p s @ b"
proof -
  have "rev (dropWhile p s) = takeWhile p (rev (dropWhile p s)) @ dropWhile p (rev (dropWhile p s))" by simp
  then have "dropWhile p s = trim_if p s @ rev (takeWhile p (rev (dropWhile p s)))"
    unfolding trim_if_def by (metis rev_append rev_rev_ident)
  then have "s = takeWhile p s @ trim_if p s @ rev (takeWhile p (rev (dropWhile p s)))"
    by (metis takeWhile_dropWhile_id)
  then show ?thesis by blast
qed

lemma slug_runs_fix:
  "\<forall>c \<in> set s. slug_char c \<or> c = CHR ''-'' \<Longrightarrow> no_double s \<Longrightarrow> b \<longrightarrow> s = [] \<or> hd s \<noteq> CHR ''-'' \<Longrightarrow>
   slug_runs b s = s"
proof (induction b s rule: slug_runs.induct)
  case (2 b c s)
  then show ?case by (cases s) (auto simp: dash_not_slug)
qed simp

lemma slug_char_plain: "slug_char c \<or> c = CHR ''-'' \<Longrightarrow> lower_char c = c \<and> \<not> is_space c"
  by (auto simp: slug_char_def is_digit_def lower_char_def is_upper_def is_space_def code_def)

lemma slugify_fix:
  assumes "\<forall>c \<in> set s. slug_char c \<or> c = CHR ''-''" and "no_double s"
    and "s = [] \<or> hd s \<noteq> CHR ''-'' \<and> last s \<noteq> CHR ''-''"
  shows "slugify s = s"
proof -
  have "s = [] \<or> \<not> is_space (hd s) \<and> \<not> is_space (last s)"
    using assms(1) slug_char_plain by (metis hd_in_set last_in_set)
  then have "TrimSpace s = s" unfolding TrimSpace_def by (rule trim_if_fix)
  moreover have "ToLower s = s" using assms(1) slug_char_plain unfolding ToLower_def by (simp add: map_idI)
  moreover have "slug_runs False s = s" using assms(1,2) by (rule slug_runs_fix) simp
  ultimately show ?thesis using assms(3) unfolding slugify_def by (simp add: trim_if_fix)
qed

text \<open>C35: A slug holds only lower-case letters, digits and single dashes, and neither begins nor
  ends with a dash, whatever the product name is; a name that is such a slug already is kept.\<close>

theorem slugify_shape:
  "(\<forall>c \<in> set (slugify s). slug_char c \<or> c = CHR ''-'') \<and> no_double (slugify s) \<and>
   (slugify s = [] \<or> hd (slugify s) \<noteq> CHR ''-'' \<and> last (slugify s) \<noteq> CHR ''-'') \<and>
   slugify (slugify s) = slugify s"
proof -
  obtain a b where ab: "slug_runs False (ToLower (TrimSpace s)) = a @ slugify s @ b"
    using trim_if_infix unfolding slugify_def by blast
  have 1: "\<forall>c \<in> set (slugify s). slug_char c \<or> c = CHR ''-''"
    using set_trim_if slug_runs_chars unfolding slugify_def by blast
  have 2: "no_double (slugify s)"
    using no_double_slug_runs [of False "ToLower (TrimSpace s)"] no_double_append ab by metis
  have 3: "slugify s = [] \<or> hd (slugify s) \<noteq> CHR ''-'' \<and> last (slugify s) \<noteq> CHR ''-''"
    unfolding slugify_def using trim_if_hd trim_if_last by blast
  show ?thesis using 1 2 3 slugify_fix [OF 1 2 3] by blast
qed

theorem slugify_shape_witness: "list_all (\<lambda>c. slug_char c \<or> c = CHR ''-'') (slugify '' Nasi Lemak!'')"
  using slugify_shape [of "'' Nasi Lemak!''"] by (simp add: list_all_iff)

section \<open>Lists\<close>

text \<open>C36: A product list answers with at most the page size of the request's products (one to a
  hundred), all of them products of the tenant that match the search, newest first, and with the
  number of all matches; a bad page parameter never reaches the database.\<close>

theorem list_products_page:
  assumes "listProducts E S ctx query w = (w', Inr (JSON s (R_products l)))"
  shows "s = 200 \<and> length (lr_records l) \<le> 100 \<and>
     (\<exists>ps. map (\<lambda>p. p\<lparr>pd_image_url := ''''\<rparr>) (lr_records l) = ps \<and> sorted (map (\<lambda>p. - pd_created p) ps) \<and>
        set ps \<subseteq> product_of E (w_db w) ` {p \<in> set (products (w_db w)). pr_tenant p = tid ctx \<and>
          searching E (pg_search (ParsePage query)) [pr_name p, pr_sku p, pr_desc p]}) \<and>
     lr_total_count l = length (filter (\<lambda>p. pr_tenant p = tid ctx \<and>
          searching E (pg_search (ParsePage query)) [pr_name p, pr_sku p, pr_desc p]) (products (w_db w)))"
proof -
  let ?q = "ParsePage query"
  let ?rows = "\<lambda>d. map (product_of E d) (filter (\<lambda>p. pr_tenant p = tid ctx \<and>
      searching E (pg_search ?q) [pr_name p, pr_sku p, pr_desc p]) (products d))"
  have image: "\<exists>u. q = p\<lparr>pd_image_url := u\<rparr>" if "attachImageURL S p v = (v', Inr q)" for p q v v'
  proof -
    from that have "q = p \<or> (\<exists>u. q = p\<lparr>pd_image_url := u\<rparr>)"
      unfolding attachImageURL_def by (auto simp: bind_attempt split: if_splits sum.splits)
    moreover have "p = p\<lparr>pd_image_url := pd_image_url p\<rparr>" by simp
    ultimately show ?thesis by metis
  qed
  have images: "map (\<lambda>p. p\<lparr>pd_image_url := ''''\<rparr>) qs = map (\<lambda>p. p\<lparr>pd_image_url := ''''\<rparr>) ps"
    if "for_each ps (attachImageURL S) v = (v', Inr qs)" for ps qs v v'
    using that
  proof (induction ps arbitrary: qs v)
    case (Cons p ps)
    then obtain q rest u where "attachImageURL S p v = (u, Inr q)" "for_each ps (attachImageURL S) u = (v', Inr rest)"
      "qs = q # rest" by (auto simp: bind_Inr_iff)
    with Cons.IH image show ?case by fastforce
  qed simp
  from assms obtain ps total v where s: "s = 200" and tot: "lr_total_count l = total"
    and page: "query_page ?rows pd_created (pg_limit ?q) (pg_offset ?q) w = (v, Inr (ps, total))"
    and imgs: "for_each ps (attachImageURL S) v = (w', Inr (lr_records l))"
    unfolding listProducts_def ListProducts_def repo_ListProducts_def Let_def
    by (auto simp: bind_Inr_iff)
  have strip: "map (\<lambda>p. p\<lparr>pd_image_url := ''''\<rparr>) ps = ps" if "set ps \<subseteq> set (?rows (w_db w))"
    using that by (intro map_idI) (auto simp: product_of_def)
  note pg = query_page_InrD [OF page]
  have "length (lr_records l) = length ps" using images [OF imgs] by (metis length_map)
  moreover have "pg_limit ?q \<le> 100" using ParsePage_bounds by blast
  ultimately have len: "length (lr_records l) \<le> 100" using pg by linarith
  have "sorted (map (\<lambda>p. - pd_created p) ps)" by (rule query_page_sorted [OF page])
  with pg images [OF imgs] strip show ?thesis
    unfolding s tot using len by (intro conjI exI [of _ ps]) auto
qed

definition sample_product :: product_row where
  "sample_product =
     \<lparr>pr_id = 1, pr_tenant = 7, pr_category = None, pr_sku = ''K-1'', pr_name = ''Kopi'', pr_desc = '''',
      pr_price = 500, pr_slug = ''kopi'', pr_image = '''', pr_status = ''active'', pr_created = 0\<rparr>"

definition sample_shop :: db where
  "sample_shop = sample_db\<lparr>products := [sample_product]\<rparr>"

definition sample_ctx :: "identity option" where
  "sample_ctx = Some \<lparr>idn_tenant = 7, idn_role = ''seller'', idn_username = ''ali''\<rparr>"

theorem sku_unique_kept_witness:
  "sku_unique (sample_env sample_claims) (w_db (fst (UpdateProduct (sample_env sample_claims) 7 1
     \<lparr>pi_category = '''', pi_sku = ''k-1'', pi_name = ''Kopi'', pi_desc = '''', pi_price = Fin 5, pi_slug = '''',
      pi_status = ''''\<rparr> (sample_world sample_shop))))"
  by (rule sku_unique_kept [THEN conjunct2])
    (simp_all add: sample_world_def sku_unique_def sample_shop_def sample_db_def empty_db_def db_ok_defs sample_tenant_def
      sample_product_def own_product_def sample_env_def)

text \<open>Without the agreement the invariant breaks: an \<open>EqualFold\<close> that takes two SKUs for one, which
  \<open>lower\<close> keeps apart, skips the look-up that would have found a third product.\<close>

definition sigma_env :: auth_env where
  "sigma_env = (sample_env sample_claims)\<lparr>e_sql_lower := (\<lambda>s. if s = ''S'' then ''s'' else s),
     e_equal_fold := (\<lambda>a b. a \<in> {''S'', ''s'', ''z''} \<and> b \<in> {''S'', ''s'', ''z''} \<or> a = b)\<rparr>"

definition sigma_shop :: db where
  "sigma_shop = sample_db\<lparr>products := [sample_product\<lparr>pr_sku := ''z''\<rparr>, sample_product\<lparr>pr_id := 2, pr_sku := ''s''\<rparr>]\<rparr>"

lemma sku_fold_gap:
  "sku_unique sigma_env sigma_shop \<and>
   \<not> sku_unique sigma_env (w_db (fst (UpdateProduct sigma_env 7 1
     \<lparr>pi_category = '''', pi_sku = ''S'', pi_name = ''Kopi'', pi_desc = '''', pi_price = Fin 5, pi_slug = '''',
      pi_status = ''''\<rparr> (sample_world sigma_shop))))"
proof
  show "sku_unique sigma_env sigma_shop"
    by (simp add: sku_unique_def sigma_env_def sigma_shop_def sample_db_def sample_product_def)
next
  let ?i = "\<lparr>pi_category = '''', pi_sku = ''S'', pi_name = ''Kopi'', pi_desc = '''', pi_price = Fin 5, pi_slug = '''',
      pi_status = ''''\<rparr>"
  have trim: "TrimSpace ''S'' = ''S''" "TrimSpace ''Kopi'' = ''Kopi''" "TrimSpace '''' = ''''" by code_simp+
  have ok: "db_ok (sigma_shop\<lparr>products := [sample_product\<lparr>pr_sku := ''S''\<rparr>, sample_product\<lparr>pr_id := 2, pr_sku := ''s''\<rparr>]\<rparr>)"
    by (simp add: db_ok_defs sigma_shop_def sample_product_def sample_db_def empty_db_def sample_tenant_def)
  have "w_db (fst (UpdateProduct sigma_env 7 1 ?i (sample_world sigma_shop))) =
      sigma_shop\<lparr>products := [sample_product\<lparr>pr_sku := ''S''\<rparr>, sample_product\<lparr>pr_id := 2, pr_sku := ''s''\<rparr>]\<rparr>"
    using ok
    by (simp add: UpdateProduct_def validateProduct_def product_fields_def Require_def Check_def trim bind_valid_or bind_act_def map_err_def
        repo_GetProduct_def query_row_ok repo_UpdateProduct_def num_arg_run affecting_def sql_ok commit_def affected_def
        update_rows_def toUUID_def own_product_def product_of_def sigma_env_def sample_env_def sigma_shop_def sample_db_def
        empty_db_def sample_product_def sample_world_def Let_def)
  then show "\<not> sku_unique sigma_env (w_db (fst (UpdateProduct sigma_env 7 1 ?i (sample_world sigma_shop))))"
    by (simp add: sku_unique_def sigma_env_def sample_product_def)
qed

lemma sample_tid [simp]: "tid sample_ctx = 7"
  by (simp add: sample_ctx_def tid_Some uuid_Nil_def)

lemma sample_page: "ParsePage (\<lambda>_. '''') = \<lparr>pg_limit = 20, pg_offset = 0, pg_search = ''''\<rparr>"
  by (simp add: ParsePage_def int_param_def)

lemma sample_shop_ok: "db_ok sample_shop"
  by (simp add: db_ok_defs sample_shop_def sample_product_def sample_db_def empty_db_def sample_tenant_def)

theorem list_products_page_witness:
  "\<exists>w' l. listProducts (sample_env sample_claims) (LocalStorage (sample_app sample_claims) sample_store) sample_ctx (\<lambda>_. '''') (sample_world sample_shop)
       = (w', Inr (JSON 200 (R_products l))) \<and> length (lr_records l) \<le> 100 \<and> lr_total_count l = 1"
proof -
  have "\<exists>w' l. listProducts (sample_env sample_claims) (LocalStorage (sample_app sample_claims) sample_store) sample_ctx (\<lambda>_. '''') (sample_world sample_shop)
       = (w', Inr (JSON 200 (R_products l)))"
    by (simp add: listProducts_def ListProducts_def repo_ListProducts_def sample_page bind_act_def query_page_ok
        sample_world_def sample_shop_def sample_product_def searching_def order_desc_def product_of_def
        attachImageURL_def)
  then obtain w' l where run: "listProducts (sample_env sample_claims) (LocalStorage (sample_app sample_claims) sample_store) sample_ctx (\<lambda>_. '''') (sample_world sample_shop)
       = (w', Inr (JSON 200 (R_products l)))" by blast
  from list_products_page [OF run] run show ?thesis
    by (auto simp: sample_page sample_world_def sample_shop_def sample_product_def searching_def)
qed

section \<open>Product images\<close>

definition set_image :: "uuid \<Rightarrow> uuid \<Rightarrow> string \<Rightarrow> db \<Rightarrow> db" where
  "set_image t i key d =
     d\<lparr>products := update_rows (own_product t i) (\<lambda>r. r\<lparr>pr_image := key\<rparr>) (products d)\<rparr>"

lemma SetProductImage_ok:
  assumes "w_faults w = []" and "db_ok (set_image t i key (w_db w))"
  shows "SetProductImage t i key w =
     (w\<lparr>w_db := set_image t i key (w_db w)\<rparr>,
      case find (own_product t i) (products (w_db w)) of
        None \<Rightarrow> Inl (ErrNotFound PCatalog) | Some r \<Rightarrow> Inr (pr_image r))"
  using assms(2) unfolding set_image_def
  by (simp add: SetProductImage_def bind_act_def sql_ok [OF assms(1)] commit_def split: option.split)

lemma set_image_absent:
  "find (own_product t i) (products d) = None \<Longrightarrow> set_image t i key d = d"
  unfolding set_image_def by (subst update_rows_id) (auto simp: find_None_iff)

definition good_upload :: "(string \<Rightarrow> bool) \<Rightarrow> upload \<Rightarrow> string \<Rightarrow> bool" where
  "good_upload allowed f src \<longleftrightarrow> up_size f \<le> MaxUploadBytes \<and> allowed (up_type f) \<and> up_data f = Some src"

lemma checked_upload_good: "good_upload al f src \<Longrightarrow> checked_upload al a b c d (Some f) w = (w, Inr (f, src))"
  by (simp add: checked_upload_def good_upload_def)

context lasting_store
begin

lemma uploadImage_unknown_product:
  assumes "w_faults w = []" and "db_ok (w_db w)" and "e_uuid_parse E param = Some i"
    and "good_upload AllowedImageMIME f src"
    and put: "st_Put S (tid ctx) ''products'' (up_filename f) (up_type f) src w = (v, Inr key)"
    and absent: "find (own_product (tid ctx) i) (products (w_db w)) = None"
  shows "snd (uploadImage E S ctx param (Some f) w) = Inl (NotFound ''resource not found'') \<and>
     w_db (fst (uploadImage E S ctx param (Some f) w)) = w_db w \<and>
     isl (snd (st_Open S key (fst (uploadImage E S ctx param (Some f) w))))"
proof -
  have "up_type f \<noteq> ''''" using assms(4) by (auto simp: good_upload_def AllowedImageMIME_def)
  then have v: "w_faults v = []" using put_open [OF assms(1) put] by simp
  have db: "w_db v = w_db w" using put_reads put by (rule reads_db')
  then have "SetProductImage (tid ctx) i key v = (v, Inl (ErrNotFound PCatalog))"
    using absent assms(2) v SetProductImage_ok [OF v, of "tid ctx" i key]
    by (simp add: set_image_absent)
  then have run: "uploadImage E S ctx param (Some f) w = (fst (st_Delete S key v), Inl (NotFound ''resource not found''))"
    using assms(3) checked_upload_good [OF assms(4)] put
    by (simp add: uploadImage_def parseID_def Let_def bind_act_def attempt_run ignore_run catalogErr_def mapErr_def)
  show ?thesis
    unfolding run using db reads_db [OF delete_reads, of key v] delete_open [OF v] by simp
qed

lemma uploadImage_replaces:
  assumes "w_faults w = []" and "db_ok (set_image (tid ctx) i key (w_db w))" and "e_uuid_parse E param = Some i"
    and "good_upload AllowedImageMIME f src"
    and put: "st_Put S (tid ctx) ''products'' (up_filename f) (up_type f) src w = (v, Inr key)"
    and present: "find (own_product (tid ctx) i) (products (w_db w)) = Some r"
  shows "w_db (fst (uploadImage E S ctx param (Some f) w)) = set_image (tid ctx) i key (w_db w)"
proof -
  have "up_type f \<noteq> ''''" using assms(4) by (auto simp: good_upload_def AllowedImageMIME_def)
  then have v: "w_faults v = []" using put_open [OF assms(1) put] by simp
  have db: "w_db v = w_db w" using put_reads put by (rule reads_db')
  let ?u = "v\<lparr>w_db := set_image (tid ctx) i key (w_db w)\<rparr>"
  have set: "SetProductImage (tid ctx) i key v = (?u, Inr (pr_image r))"
    using present assms(2) SetProductImage_ok [OF v, of "tid ctx" i key] by (simp add: db)
  let ?rest = "bind_act (if pr_image r \<noteq> '''' \<and> pr_image r \<noteq> key then ignore (st_Delete S (pr_image r)) else ret ()) (\<lambda>_.
              bind_act (GetProduct E S (tid ctx) i) (\<lambda>p. ret (JSON 200 (R_product p))))"
  have run: "uploadImage E S ctx param (Some f) w = ?rest ?u"
    using assms(3) checked_upload_good [OF assms(4)] put set
    by (simp add: uploadImage_def parseID_def Let_def bind_act_def attempt_run)
  have "reads ?rest" by (intro reads_combinators delete_reads reads_GetProduct)
  from reads_db [OF this, of ?u] show ?thesis unfolding run by simp
qed

end


definition sample_upload :: upload where
  "sample_upload = \<lparr>up_filename = ''a.png'', up_type = ''image/png'', up_size = 1, up_data = Some ''x''\<rparr>"

lemma sample_upload_good: "good_upload AllowedImageMIME sample_upload ''x''"
  by (simp add: good_upload_def sample_upload_def AllowedImageMIME_def MaxUploadBytes_def)

lemma sample_put:
  "\<exists>v key. local_Put (sample_app sample_claims) sample_store t p (up_filename sample_upload) (up_type sample_upload)
     ''x'' (sample_world d) = (v, Inr key)"
  using local_Put_ok [of "sample_world d" _ "sample_app sample_claims" t p "up_filename sample_upload" sample_store
      "up_type sample_upload" "''x''"]
  by (auto simp: sample_world_def MaxUploadBytes_def)

lemma sample_parse: "e_uuid_parse (sample_app C) (show_nat n) = Some (of_nat n)"
  by (simp add: sample_app_def auth_env.defs sample_env_def show_nat_digits)


text \<open>An image uploaded for a product of the tenant changes one column of one row: that
  product's image key becomes the key of the stored object, and every other row of every table
  stays as it was.\<close>

theorem upload_sets_image:
  fixes E :: "'z app_env_scheme"
  assumes "w_faults w = []" and "db_ok (set_image (tid ctx) i key (w_db w))" and "e_uuid_parse E param = Some i"
    and "good_upload AllowedImageMIME f src"
    and "local_Put E ls (tid ctx) ''products'' (up_filename f) (up_type f) src w = (v, Inr key)"
    and "find (own_product (tid ctx) i) (products (w_db w)) = Some r"
  shows "w_db (fst (uploadImage E (LocalStorage E ls) ctx param (Some f) w)) =
     w_db w\<lparr>products := map (\<lambda>p. if pr_id p = i \<and> pr_tenant p = tid ctx then p\<lparr>pr_image := key\<rparr> else p)
              (products (w_db w))\<rparr>"
proof -
  have "st_Put (LocalStorage E ls) (tid ctx) ''products'' (up_filename f) (up_type f) src w = (v, Inr key)"
    using assms(5) by (simp add: LocalStorage_def)
  from local_store.uploadImage_replaces [OF assms(1-4) this assms(6)] show ?thesis
    by (simp add: set_image_def update_rows_def own_product_def)
qed

theorem upload_sets_image_witness:
  "map pr_image (products (w_db (fst (uploadImage (sample_app sample_claims)
      (LocalStorage (sample_app sample_claims) sample_store) sample_ctx (show_nat 1) (Some sample_upload)
      (sample_world sample_shop))))) \<noteq> ['''']"
proof -
  obtain v key where put: "local_Put (sample_app sample_claims) sample_store (tid sample_ctx) ''products''
      (up_filename sample_upload) (up_type sample_upload) ''x'' (sample_world sample_shop) = (v, Inr key)"
    using sample_put by blast
  have ok: "db_ok (set_image (tid sample_ctx) 1 key sample_shop)"
    by (simp add: set_image_def update_rows_def db_ok_defs sample_shop_def sample_product_def sample_db_def
        empty_db_def sample_tenant_def)
  have present: "find (own_product (tid sample_ctx) 1) (products (w_db (sample_world sample_shop))) = Some sample_product"
    by (simp add: sample_world_def sample_shop_def own_product_def) (simp add: sample_product_def)
  have parse: "e_uuid_parse (sample_app sample_claims) (show_nat 1) = Some 1"
    using sample_parse [of sample_claims 1] by simp
  have "key \<noteq> ''''"
    using put unfolding local_Put_def Let_def
    by (auto simp: bind_Inr_iff keyFor_run put_key_def split: if_splits)
  then show ?thesis
    using upload_sets_image [OF _ _ parse sample_upload_good put present] ok
    by (simp add: sample_world_def sample_shop_def sample_product_def)
qed

section \<open>A category of another tenant\<close>

text \<open>The category of a product is not checked to be the tenant's own: a product whose
  category is anybody's category shows the name of that category to its tenant.\<close>

theorem foreign_category_visible:
  assumes "w_faults w = []" and "db_ok (w_db w)" and "find (own_product t i) (products (w_db w)) = Some r"
    and "c \<in> set (categories (w_db w))" and "pr_category r = Some (ct_id c)"
  shows "\<exists>p. repo_GetProduct E t i w = (w, Inr p) \<and> pd_category_name p = ct_name c"
proof -
  have "find (\<lambda>k. Some (ct_id k) = pr_category r) (categories (w_db w)) = Some c"
    using assms(2,4,5) by (intro find_unique [where k = ct_id]) (auto simp: db_ok_def categories_ok_def)
  then show ?thesis
    using assms(3) by (simp add: repo_GetProduct_def query_row_ok [OF assms(1)] product_of_def category_name_def)
qed

definition sample_foreign :: db where
  "sample_foreign = sample_db\<lparr>
     tenants := tenants sample_db @ [sample_tenant\<lparr>tn_id := 8, tn_username := ''b'', tn_email := ''b@x.my''\<rparr>],
     categories := [\<lparr>ct_id = 3, ct_tenant = 8, ct_name = ''Rahsia'', ct_desc = '''', ct_created = 0\<rparr>],
     products := [sample_product\<lparr>pr_category := Some 3\<rparr>]\<rparr>"

theorem foreign_category_visible_witness:
  "\<exists>p. snd (repo_GetProduct (sample_env sample_claims) 7 1 (sample_world sample_foreign)) = Inr p \<and>
     pd_category_name p = ''Rahsia''"
proof -
  have "db_ok sample_foreign"
    by (simp add: db_ok_defs sample_foreign_def sample_product_def sample_db_def empty_db_def sample_tenant_def)
  then show ?thesis
    using foreign_category_visible [of "sample_world sample_foreign" 7 1 "sample_product\<lparr>pr_category := Some 3\<rparr>"
        "hd (categories sample_foreign)" "sample_env sample_claims"]
    by (auto simp: sample_world_def sample_foreign_def own_product_def sample_product_def)
qed

end
