(* ===== verification/Orders.thy ===== *)
theory Orders
  imports Catalog
begin

text \<open>
  Orders, their items and payments (\<open>api/internal/orders\<close>: \<open>repo.go\<close>, \<open>service.go\<close>,
  \<open>handler.go\<close>). The structs \<open>order\<close>, \<open>order_item\<close> and \<open>payment\<close> hold floats where
  their rows hold sen. The status machine is \<open>transitions\<close>; \<open>Create\<close> is one transaction.
\<close>

section \<open>Data (repo.go)\<close>

record order_item =
  oi_id :: uuid
  oi_product :: "uuid option"
  oi_sku :: string
  oi_name :: string
  oi_quantity :: int
  oi_price :: f64
  oi_line :: f64

record payment =
  py_id :: uuid
  py_proof :: string
  py_url :: string
  py_amount :: f64
  py_status :: string
  py_created :: time

record order =
  od_id :: uuid
  od_tenant :: uuid
  od_customer :: "uuid option"
  od_status :: string
  od_full_name :: string
  od_email :: string
  od_contact :: string
  od_shipping :: shipping_address
  od_notes :: string
  od_total :: f64
  od_expired :: time
  od_created :: time
  od_items :: "order_item list"
  od_payments :: "payment list"

definition transitions :: "string \<Rightarrow> string list" where
  "transitions s =
     (case map_of
        [(''pending'', [''payment_received'', ''cancelled'', ''expired'']),
         (''payment_received'', [''payment_accepted'', ''rejected'', ''cancelled'']),
         (''payment_accepted'', [''shipped'', ''cancelled'']),
         (''shipped'', []), (''expired'', []), (''cancelled'', []),
         (''rejected'', [''payment_received''])] s
      of None \<Rightarrow> [] | Some l \<Rightarrow> l)"

definition CanTransition :: "string \<Rightarrow> string \<Rightarrow> bool" where
  "CanTransition s t \<longleftrightarrow> list_ex (\<lambda>u. u = t) (transitions s)"

text \<open>The zero \<open>time.Time\<close>, the first instant of the year 1.\<close>

definition time_zero :: time where
  "time_zero = - 62135596800 * Second"

section \<open>The repository (repo.go)\<close>

definition line_totals :: "order_item list \<Rightarrow> order_item list" where
  "line_totals items = map (\<lambda>i. i\<lparr>oi_line := fmul (f64_of_int (oi_quantity i)) (oi_price i)\<rparr>) items"

definition items_total :: "order_item list \<Rightarrow> f64" where
  "items_total items = foldl (\<lambda>total i. fadd total (oi_line i)) (Fin 0) items"

definition priced :: "time \<Rightarrow> order \<Rightarrow> order" where
  "priced n o1 =
     (let items = line_totals (od_items o1)
      in o1\<lparr>od_expired := (if od_expired o1 = time_zero then n + 72 * Hour else od_expired o1),
            od_items := items,
            od_total := (if feq (od_total o1) (Fin 0) then items_total items else od_total o1)\<rparr>)"

definition order_row_of :: "order \<Rightarrow> int \<Rightarrow> order_row" where
  "order_row_of o1 sen =
     \<lparr>or_id = od_id o1, or_tenant = od_tenant o1, or_customer = od_customer o1, or_status = od_status o1,
      or_full_name = od_full_name o1, or_email = od_email o1, or_contact_no = od_contact o1,
      or_shipping = od_shipping o1, or_notes = od_notes o1, or_total = sen, or_expired = od_expired o1,
      or_created = od_created o1\<rparr>"

definition insert_order :: "'z env_scheme \<Rightarrow> order \<Rightarrow> order go" where
  "insert_order E o1 =
     bind_act (num_arg E (od_total o1)) (\<lambda>total.
     bind_act (new_uuid E) (\<lambda>i. bind_act now (\<lambda>n.
       (let o2 = o1\<lparr>od_id := i, od_created := n\<rparr>
        in sql (\<lambda>d. commit o2 (d\<lparr>orders := orders d @ [order_row_of o2 total]\<rparr>))))))"

definition insert_item :: "'z env_scheme \<Rightarrow> uuid \<Rightarrow> order_item \<Rightarrow> order_item go" where
  "insert_item E orderID it =
     bind_act (num_arg E (oi_price it)) (\<lambda>price.
     bind_act (num_arg E (oi_line it)) (\<lambda>line.
     bind_act (new_uuid E) (\<lambda>i.
       (let r = \<lparr>it_id = i, it_order = orderID, it_product = oi_product it, it_sku = oi_sku it, it_name = oi_name it,
                 it_quantity = oi_quantity it, it_unit_price = price, it_line_total = line\<rparr>
        in sql (\<lambda>d. commit (it\<lparr>oi_id := i\<rparr>) (d\<lparr>order_items := order_items d @ [r]\<rparr>))))))"

definition repo_Create :: "'z env_scheme \<Rightarrow> order \<Rightarrow> order go" where
  "repo_Create E o0 =
     transact
      (bind_act now (\<lambda>n.
       bind_act (insert_order E (priced n o0)) (\<lambda>o1.
       bind_act (for_each (od_items o1) (insert_item E (od_id o1))) (\<lambda>items.
       ret (o1\<lparr>od_items := items\<rparr>)))))"

definition own_order :: "uuid \<Rightarrow> uuid \<Rightarrow> order_row \<Rightarrow> bool" where
  "own_order tenantID i r \<longleftrightarrow> or_id r = i \<and> or_tenant r = tenantID"

definition repo_UpdateStatus :: "uuid \<Rightarrow> uuid \<Rightarrow> string \<Rightarrow> unit go" where
  "repo_UpdateStatus tenantID i status =
     affecting POrders (sql (\<lambda>d. commit (affected (own_order tenantID i) (orders d))
       (d\<lparr>orders := update_rows (own_order tenantID i) (\<lambda>r. r\<lparr>or_status := status\<rparr>) (orders d)\<rparr>)))"

definition repo_UpdateDetails :: "'z env_scheme \<Rightarrow> order \<Rightarrow> unit go" where
  "repo_UpdateDetails E o1 =
     bind_act (num_arg E (od_total o1)) (\<lambda>total.
     affecting POrders (sql (\<lambda>d. commit (affected (own_order (od_tenant o1) (od_id o1)) (orders d))
       (d\<lparr>orders := update_rows (own_order (od_tenant o1) (od_id o1))
            (\<lambda>r. r\<lparr>or_full_name := od_full_name o1, or_email := od_email o1, or_contact_no := od_contact o1,
                    or_shipping := od_shipping o1, or_notes := od_notes o1, or_total := total\<rparr>)
            (orders d)\<rparr>))))"

text \<open>Items and payments of a deleted order go with it.\<close>

definition drop_orders :: "(order_row \<Rightarrow> bool) \<Rightarrow> db \<Rightarrow> db" where
  "drop_orders P d =
     (let gone = map or_id (filter P (orders d))
      in d\<lparr>orders := delete_rows P (orders d),
           order_items := delete_rows (\<lambda>i. it_order i \<in> set gone) (order_items d),
           payments := delete_rows (\<lambda>p. pm_order p \<in> set gone) (payments d)\<rparr>)"

definition repo_Delete :: "uuid \<Rightarrow> uuid \<Rightarrow> unit go" where
  "repo_Delete tenantID i =
     affecting POrders (sql (\<lambda>d. commit (affected (own_order tenantID i) (orders d))
       (drop_orders (own_order tenantID i) d)))"

definition order_of_row :: "'z env_scheme \<Rightarrow> order_row \<Rightarrow> order" where
  "order_of_row E r =
     \<lparr>od_id = or_id r, od_tenant = or_tenant r, od_customer = or_customer r, od_status = or_status r,
      od_full_name = or_full_name r, od_email = or_email r, od_contact = or_contact_no r,
      od_shipping = or_shipping r, od_notes = or_notes r, od_total = e_num_dec E (or_total r),
      od_expired = or_expired r, od_created = or_created r, od_items = [], od_payments = []\<rparr>"

definition item_of_row :: "'z env_scheme \<Rightarrow> item_row \<Rightarrow> order_item" where
  "item_of_row E r =
     \<lparr>oi_id = it_id r, oi_product = it_product r, oi_sku = it_sku r, oi_name = it_name r, oi_quantity = it_quantity r,
      oi_price = e_num_dec E (it_unit_price r), oi_line = e_num_dec E (it_line_total r)\<rparr>"

definition payment_of_row :: "'z env_scheme \<Rightarrow> payment_row \<Rightarrow> payment" where
  "payment_of_row E r =
     \<lparr>py_id = pm_id r, py_proof = pm_proof_key r, py_url = '''', py_amount = e_num_dec E (pm_amount r),
      py_status = pm_status r, py_created = pm_created r\<rparr>"

definition loadChildren :: "'z env_scheme \<Rightarrow> order \<Rightarrow> order go" where
  "loadChildren E o1 =
     bind_act (sel (\<lambda>d. map (item_of_row E)
       (sort_key it_id (filter (\<lambda>r. it_order r = od_id o1) (order_items d))))) (\<lambda>items.
     bind_act (sel (\<lambda>d. map (payment_of_row E)
       (order_desc pm_created (filter (\<lambda>r. pm_order r = od_id o1) (payments d))))) (\<lambda>pays.
     ret (o1\<lparr>od_items := items, od_payments := pays\<rparr>)))"

definition repo_Get :: "'z env_scheme \<Rightarrow> uuid \<Rightarrow> uuid \<Rightarrow> order go" where
  "repo_Get E tenantID i =
     bind_act (query_row POrders (\<lambda>d. map_option (order_of_row E) (find (own_order tenantID i) (orders d))))
       (loadChildren E)"

definition repo_GetByID :: "'z env_scheme \<Rightarrow> uuid \<Rightarrow> order go" where
  "repo_GetByID E i =
     bind_act (query_row POrders (\<lambda>d. map_option (order_of_row E) (find (\<lambda>r. or_id r = i) (orders d))))
       (loadChildren E)"

definition repo_List ::
  "'z env_scheme \<Rightarrow> uuid \<Rightarrow> string list \<Rightarrow> string \<Rightarrow> int \<Rightarrow> int \<Rightarrow> (order list \<times> nat) go" where
  "repo_List E tenantID statuses search lmt off =
     query_page (\<lambda>d. map (order_of_row E)
         (filter (\<lambda>r. or_tenant r = tenantID \<and> (statuses = [] \<or> or_status r \<in> set statuses) \<and>
                      searching E search [or_full_name r, or_email r, or_contact_no r]) (orders d)))
       od_created lmt off"

text \<open>The decimal of a placeholder number; right for one or two digits only.\<close>

definition itoa :: "int \<Rightarrow> string" where
  "itoa n =
     (if n < 10 then [char_of (nat (48 + n))]
      else [char_of (nat (48 + n div 10)), char_of (nat (48 + n mod 10))])"

text \<open>The text of the condition and of the page clause of \<open>List\<close>, with their placeholders, and the
  number of arguments in the end.\<close>

definition list_where :: "string list \<Rightarrow> string \<Rightarrow> string \<times> int" where
  "list_where statuses search =
     (let (w, n) = (if statuses \<noteq> [] then (''tenant_id=$1 AND status = ANY($2)'', 2) else (''tenant_id=$1'', 1))
      in if search \<noteq> '''' then
           (w @ '' AND (full_name ILIKE $'' @ itoa (n + 1) @ '' OR email ILIKE $'' @ itoa (n + 1) @
            '' OR contact_no ILIKE $'' @ itoa (n + 1) @ '')'', n + 1)
         else (w, n))"

definition list_page_clause :: "int \<Rightarrow> string" where
  "list_page_clause n = '' LIMIT $'' @ itoa (n + 2 - 1) @ '' OFFSET $'' @ itoa (n + 2)"

definition stale :: "time \<Rightarrow> order_row \<Rightarrow> bool" where
  "stale n r \<longleftrightarrow> or_status r = ''pending'' \<and> or_expired r < n"

definition ExpireStale :: "nat go" where
  "ExpireStale =
     bind_act now (\<lambda>n.
     sql (\<lambda>d. commit (affected (stale n) (orders d))
       (d\<lparr>orders := update_rows (stale n) (\<lambda>r. r\<lparr>or_status := ''expired''\<rparr>) (orders d)\<rparr>)))"

definition AddPayment :: "'z env_scheme \<Rightarrow> uuid \<Rightarrow> string \<Rightarrow> f64 \<Rightarrow> payment go" where
  "AddPayment E orderID proofKey amount =
     bind_act (num_arg E amount) (\<lambda>sen.
     bind_act (new_uuid E) (\<lambda>i. bind_act now (\<lambda>n.
       (let r = \<lparr>pm_id = i, pm_order = orderID, pm_proof_key = proofKey, pm_amount = sen,
                 pm_status = ''submitted'', pm_created = n\<rparr>
        in sql (\<lambda>d. commit (payment_of_row E r) (d\<lparr>payments := payments d @ [r]\<rparr>))))))"

definition own_payment :: "db \<Rightarrow> uuid \<Rightarrow> uuid \<Rightarrow> payment_row \<Rightarrow> bool" where
  "own_payment d tenantID i p \<longleftrightarrow> pm_id p = i \<and> list_ex (own_order tenantID (pm_order p)) (orders d)"

definition SetPaymentStatus :: "uuid \<Rightarrow> uuid \<Rightarrow> string \<Rightarrow> unit go" where
  "SetPaymentStatus tenantID paymentID status =
     affecting POrders (sql (\<lambda>d. commit (affected (own_payment d tenantID paymentID) (payments d))
       (d\<lparr>payments := update_rows (own_payment d tenantID paymentID) (\<lambda>p. p\<lparr>pm_status := status\<rparr>)
            (payments d)\<rparr>)))"

section \<open>The service (service.go)\<close>

record item_input =
  ii_sku :: string
  ii_quantity :: int
  ii_price :: f64

record admin_input =
  ai_full_name :: string
  ai_email :: string
  ai_contact :: string
  ai_shipping :: shipping_address
  ai_notes :: string
  ai_items :: "item_input list"

definition build_item :: "'z env_scheme \<Rightarrow> storage \<Rightarrow> uuid \<Rightarrow> item_input \<Rightarrow> order_item go" where
  "build_item E S tenantID input =
     (let qty = (if ii_quantity input \<le> 0 then 1 else ii_quantity input);
          it = \<lparr>oi_id = uuid_Nil, oi_product = None, oi_sku = ii_sku input, oi_name = '''', oi_quantity = qty,
                oi_price = ii_price input, oi_line = Fin 0\<rparr>
      in bind_act (attempt (GetProductBySKU E S tenantID (ii_sku input))) (\<lambda>r.
         ret (case r of
                Inl _ \<Rightarrow> it
              | Inr p \<Rightarrow>
                  it\<lparr>oi_product := Some (pd_id p), oi_name := pd_name p,
                     oi_price := (if feq (oi_price it) (Fin 0) then pd_price p else oi_price it)\<rparr>)))"

definition buildItems :: "'z env_scheme \<Rightarrow> storage \<Rightarrow> uuid \<Rightarrow> item_input list \<Rightarrow> order_item list go" where
  "buildItems E S tenantID inputs = for_each inputs (build_item E S tenantID)"

definition CreateAdmin :: "'z env_scheme \<Rightarrow> storage \<Rightarrow> uuid \<Rightarrow> admin_input \<Rightarrow> order go" where
  "CreateAdmin E S tenantID i =
     bind_act (valid_or (Require ''full_name'' (ai_full_name i) [])) (\<lambda>_.
     bind_act (check (ai_items i \<noteq> []) (BadRequest ''at least one item is required'')) (\<lambda>_.
     bind_act (buildItems E S tenantID (ai_items i)) (\<lambda>items.
     bind_act (repo_Create E
       \<lparr>od_id = uuid_Nil, od_tenant = tenantID, od_customer = None, od_status = ''pending'',
        od_full_name = ai_full_name i, od_email = ai_email i, od_contact = ai_contact i,
        od_shipping = ai_shipping i, od_notes = ai_notes i, od_total = Fin 0, od_expired = time_zero,
        od_created = time_zero, od_items = items, od_payments = []\<rparr>) (\<lambda>o1.
     bind_act now (\<lambda>n.
     bind_act (Emit (OrderCreated E tenantID (od_id o1) n)) (\<lambda>_. ret o1))))))"

definition GuestCheckout :: "'z env_scheme \<Rightarrow> storage \<Rightarrow> uuid \<Rightarrow> admin_input \<Rightarrow> order go" where
  "GuestCheckout E S tenantID i =
     bind_act (valid_or (Require ''contact_no'' (ai_contact i) (Require ''full_name'' (ai_full_name i) []))) (\<lambda>_.
     bind_act (check (ai_items i \<noteq> []) (BadRequest ''cart is empty'')) (\<lambda>_.
     CreateAdmin E S tenantID i))"

definition ordersErr :: "go_err \<Rightarrow> go_err" where
  "ordersErr = mapErr POrders ''order not found''"

definition UpdateStatus :: "'z env_scheme \<Rightarrow> uuid \<Rightarrow> uuid \<Rightarrow> string \<Rightarrow> order go" where
  "UpdateStatus E tenantID i to =
     bind_act (map_err ordersErr (repo_Get E tenantID i)) (\<lambda>o1.
     if od_status o1 = to then ret o1
     else if \<not> CanTransition (od_status o1) to then
       raise (BadRequest (''invalid status transition: '' @ od_status o1 @ '' -> '' @ to))
     else
       bind_act (map_err ordersErr (repo_UpdateStatus tenantID i to)) (\<lambda>_.
       repo_Get E tenantID i))"

definition UpdateDetails :: "'z env_scheme \<Rightarrow> uuid \<Rightarrow> uuid \<Rightarrow> admin_input \<Rightarrow> order go" where
  "UpdateDetails E tenantID i input =
     bind_act (map_err ordersErr (repo_Get E tenantID i)) (\<lambda>o1.
     (let o2 = o1\<lparr>od_full_name := ai_full_name input, od_email := ai_email input, od_contact := ai_contact input,
                  od_shipping := ai_shipping input, od_notes := ai_notes input\<rparr>
      in bind_act (map_err ordersErr (repo_UpdateDetails E o2)) (\<lambda>_.
         repo_Get E tenantID i)))"

definition order_Delete :: "uuid \<Rightarrow> uuid \<Rightarrow> unit go" where
  "order_Delete tenantID i = map_err ordersErr (repo_Delete tenantID i)"

definition attachProofURLs :: "storage \<Rightarrow> order \<Rightarrow> order go" where
  "attachProofURLs S o1 =
     bind_act (for_each (od_payments o1) (\<lambda>p.
       if py_proof p \<noteq> '''' then
         bind_act (attempt (st_SignedGetURL S (py_proof p) 3600)) (\<lambda>r.
           ret (case r of Inl _ \<Rightarrow> p | Inr url \<Rightarrow> p\<lparr>py_url := url\<rparr>))
       else ret p)) (\<lambda>ps. ret (o1\<lparr>od_payments := ps\<rparr>))"

definition order_Get :: "'z env_scheme \<Rightarrow> storage \<Rightarrow> uuid \<Rightarrow> uuid \<Rightarrow> order go" where
  "order_Get E S tenantID i =
     bind_act (map_err ordersErr (repo_Get E tenantID i)) (attachProofURLs S)"

definition order_List ::
  "'z env_scheme \<Rightarrow> uuid \<Rightarrow> string list \<Rightarrow> string \<Rightarrow> int \<Rightarrow> int \<Rightarrow> (order list \<times> nat) go" where
  "order_List E tenantID statuses search lmt off = repo_List E tenantID statuses search lmt off"

definition AddPaymentProof :: "'z env_scheme \<Rightarrow> uuid \<Rightarrow> string \<Rightarrow> f64 \<Rightarrow> payment go" where
  "AddPaymentProof E orderID proofKey amount =
     bind_act (map_err ordersErr (repo_GetByID E orderID)) (\<lambda>o1.
     bind_act (AddPayment E orderID proofKey amount) (\<lambda>p.
     bind_act (if od_status o1 = ''pending''
               then ignore (repo_UpdateStatus (od_tenant o1) orderID ''payment_received'') else ret ()) (\<lambda>_.
     bind_act now (\<lambda>n.
     bind_act (Emit (PaymentUploaded E (od_tenant o1) orderID n)) (\<lambda>_. ret p)))))"

definition VerifyPayment :: "uuid \<Rightarrow> uuid \<Rightarrow> bool \<Rightarrow> unit go" where
  "VerifyPayment tenantID paymentID accept =
     map_err ordersErr (SetPaymentStatus tenantID paymentID (if accept then ''verified'' else ''rejected''))"

section \<open>What the statements do to the tables\<close>

lemma reads_loadChildren: "reads (loadChildren E o1)"
  unfolding loadChildren_def by (intro reads_combinators)

lemma reads_orders:
  "reads (repo_Get E t i)" "reads (repo_GetByID E i)" "reads (repo_List E t ss q l f)"
  "reads (order_List E t ss q l f)"
  unfolding repo_Get_def repo_GetByID_def repo_List_def order_List_def
  by (intro reads_combinators reads_query_row reads_query_page reads_loadChildren)+

lemma scoped_repo_UpdateStatus: "keeps (scoped t) (repo_UpdateStatus t i s)"
  unfolding repo_UpdateStatus_def
  by (intro scoped_rules order_table.scoped_update) (auto simp: own_order_def)

lemma scoped_repo_UpdateDetails: "od_tenant o1 = t \<Longrightarrow> keeps (scoped t) (repo_UpdateDetails E o1)"
  unfolding repo_UpdateDetails_def
  by (intro scoped_rules order_table.scoped_update) (auto simp: own_order_def)

lemma scoped_insert_order: "od_tenant o1 = t \<Longrightarrow> keeps (scoped t) (insert_order E o1)"
  unfolding insert_order_def Let_def
  by (intro scoped_rules order_table.scoped_insert) (simp add: order_row_of_def)

text \<open>
  Rows under an order belong to its tenant. \<open>owns t i d\<close> is that the order \<open>i\<close> is a row of
  tenant \<open>t\<close>; \<open>under t i\<close> is \<open>scoped t\<close> as long as that holds, and that it goes on to hold.
\<close>

definition owns :: "uuid \<Rightarrow> uuid \<Rightarrow> db \<Rightarrow> bool" where
  "owns t i d \<longleftrightarrow> list_ex (own_order t i) (orders d)"

definition under_db :: "uuid \<Rightarrow> uuid \<Rightarrow> db \<Rightarrow> db \<Rightarrow> bool" where
  "under_db t i d d' \<longleftrightarrow> (owns t i d \<longrightarrow> owns t i d' \<and> scoped_db t d d')"

definition under :: "uuid \<Rightarrow> uuid \<Rightarrow> world \<Rightarrow> world \<Rightarrow> bool" where
  "under t i = on_db (under_db t i)"

lemma under_iff: "under t i w w' \<longleftrightarrow> (owns t i (w_db w) \<longrightarrow> owns t i (w_db w') \<and> scoped t w w')"
  by (simp add: under_def on_db_def under_db_def scoped_def)

interpretation un: transition "under t i" for t i
  by unfold_locales (auto simp: under_iff intro: sc.stay sc.chain)

lemma under_reads: "reads m \<Longrightarrow> keeps (under t i) m"
  unfolding under_def by (rule reads_keeps) (simp_all add: under_db_def)

lemma under_sql: "(\<And>d x d'. q d = Inr (x, d') \<Longrightarrow> under_db t i d d') \<Longrightarrow> keeps (under t i) (sql q)"
  unfolding under_def by (rule keeps_sql) (simp_all add: under_db_def)

lemma owns_update:
  assumes "\<And>r. or_id (f r) = or_id r \<and> or_tenant (f r) = or_tenant r"
  shows "owns t i (d\<lparr>orders := update_rows P f (orders d)\<rparr>) = owns t i d"
proof -
  have "own_order t i (if P r then f r else r) = own_order t i r" for r
    using assms by (simp add: own_order_def)
  moreover have "list_ex Q (map g xs) = list_ex (\<lambda>x. Q (g x)) xs" for Q and g :: "order_row \<Rightarrow> order_row" and xs
    by (induction xs) auto
  ultimately show ?thesis by (simp add: owns_def update_rows_def)
qed

lemma owns_not_others:
  assumes "db_ok d" and "owns t i d"
  shows "i \<notin> set (order_ids (\<lambda>u. u \<noteq> t) d)"
proof
  assume "i \<in> set (order_ids (\<lambda>u. u \<noteq> t) d)"
  then obtain r where r: "r \<in> set (orders d)" "or_id r = i" "or_tenant r \<noteq> t" by (auto simp: order_ids_def)
  from assms(2) obtain q where q: "q \<in> set (orders d)" "or_id q = i" "or_tenant q = t"
    by (auto simp: owns_def list_ex_iff own_order_def)
  have "distinct (map or_id (orders d))" using assms(1) by (simp add: db_ok_def orders_ok_def)
  with r q have "r = q" by (metis distinct_map_unique)
  with r q show False by simp
qed

lemma db_ok_items: "db_ok (d\<lparr>order_items := rs\<rparr>) \<Longrightarrow> owns t i d \<Longrightarrow> i \<notin> set (order_ids (\<lambda>u. u \<noteq> t) d)"
  using owns_not_others [of "d\<lparr>order_items := rs\<rparr>" t i] by (simp add: owns_def order_ids_def)

lemma db_ok_payments: "db_ok (d\<lparr>payments := ps\<rparr>) \<Longrightarrow> owns t i d \<Longrightarrow> i \<notin> set (order_ids (\<lambda>u. u \<noteq> t) d)"
  using owns_not_others [of "d\<lparr>payments := ps\<rparr>" t i] by (simp add: owns_def order_ids_def)

lemma under_insert_item: "keeps (under t i) (insert_item E i it)"
  unfolding insert_item_def Let_def
proof (intro un.keeps_combinators under_reads [OF reads_num_arg] under_reads [OF reads_new_uuid] under_sql)
  fix price line u d x d'
  let ?r = "\<lparr>it_id = u, it_order = i, it_product = oi_product it, it_sku = oi_sku it, it_name = oi_name it,
      it_quantity = oi_quantity it, it_unit_price = price, it_line_total = line\<rparr>"
  assume run: "commit (it\<lparr>oi_id := u\<rparr>) (d\<lparr>order_items := order_items d @ [?r]\<rparr>) = Inr (x, d')"
  then have d': "d' = d\<lparr>order_items := order_items d @ [?r]\<rparr>" and ok: "db_ok (d\<lparr>order_items := order_items d @ [?r]\<rparr>)"
    by simp_all
  show "under_db t i d d'"
    unfolding under_db_def
  proof
    assume own: "owns t i d"
    have "view (\<lambda>u. u \<noteq> t) d' = view (\<lambda>u. u \<noteq> t) d"
      using db_ok_items [OF ok own] by (simp add: d' view_def order_ids_def)
    then have "scoped_db t d d'" using run by (intro scoped_commit [OF _ _ _ run]) (simp_all add: d')
    with own show "owns t i d' \<and> scoped_db t d d'" by (simp add: d' owns_def)
  qed
qed

lemma under_AddPayment: "keeps (under t i) (AddPayment E i key amount)"
  unfolding AddPayment_def Let_def
proof (intro un.keeps_combinators under_reads [OF reads_num_arg] under_reads [OF reads_new_uuid]
    under_reads [OF reads_now] under_sql)
  fix sen u n d x d'
  let ?r = "\<lparr>pm_id = u, pm_order = i, pm_proof_key = key, pm_amount = sen, pm_status = ''submitted'', pm_created = n\<rparr>"
  assume run: "commit (payment_of_row E ?r) (d\<lparr>payments := payments d @ [?r]\<rparr>) = Inr (x, d')"
  then have d': "d' = d\<lparr>payments := payments d @ [?r]\<rparr>" and ok: "db_ok (d\<lparr>payments := payments d @ [?r]\<rparr>)"
    by simp_all
  show "under_db t i d d'"
    unfolding under_db_def
  proof
    assume own: "owns t i d"
    have "view (\<lambda>u. u \<noteq> t) d' = view (\<lambda>u. u \<noteq> t) d"
      using db_ok_payments [OF ok own] by (simp add: d' view_def order_ids_def)
    then have "scoped_db t d d'" using run by (intro scoped_commit [OF _ _ _ run]) (simp_all add: d')
    with own show "owns t i d' \<and> scoped_db t d d'" by (simp add: d' owns_def)
  qed
qed

lemma under_repo_UpdateStatus: "keeps (under t i) (repo_UpdateStatus t j s)"
  unfolding repo_UpdateStatus_def affecting_def
proof (intro un.keeps_combinators under_sql)
  fix d x d'
  let ?f = "\<lambda>r. r\<lparr>or_status := s\<rparr>"
  assume run: "commit (affected (own_order t j) (orders d))
      (d\<lparr>orders := update_rows (own_order t j) ?f (orders d)\<rparr>) = Inr (x, d')"
  have "view (\<lambda>u. u \<noteq> t) (d\<lparr>orders := update_rows (own_order t j) ?f (orders d)\<rparr>) = view (\<lambda>u. u \<noteq> t) d"
    by (rule isolates_update_orders) (auto simp: own_order_def)
  then have "scoped_db t d d'" by (intro scoped_commit [OF _ _ _ run]) simp_all
  moreover have "owns t i d' = owns t i d" using run owns_update [of ?f] by simp
  ultimately show "under_db t i d d'" by (simp add: under_db_def)
qed

lemma scoped_then_under:
  assumes m: "keeps (scoped t) m" and post: "\<And>w v x. m w = (v, Inr x) \<Longrightarrow> owns t (g x) (w_db v)"
    and f: "\<And>x. keeps (under t (g x)) (f x)"
  shows "keeps (scoped t) (bind_act m f)"
proof (rule keepsI)
  fix w
  obtain v r where run: "m w = (v, r)" by fastforce
  with m have 1: "scoped t w v" by (rule keepsD')
  show "scoped t w (fst (bind_act m f w))"
  proof (cases r)
    case (Inl e)
    with run 1 show ?thesis by simp
  next
    case (Inr x)
    with run post have "owns t (g x) (w_db v)" by blast
    with keepsD [OF f, of x v] have "scoped t v (fst (f x v))" by (simp add: under_iff)
    with 1 have "scoped t w (fst (f x v))" by (rule sc.chain)
    with run Inr show ?thesis by simp
  qed
qed

lemma insert_order_InrE:
  assumes "insert_order E o1 w = (v, Inr o2)"
  obtains sen where "e_num_enc E (od_total o1) = Some sen"
    and "o2 = o1\<lparr>od_id := e_uuid_gen E (w_seed w), od_created := w_now w\<rparr>"
    and "w_db v = w_db w\<lparr>orders := orders (w_db w) @ [order_row_of o2 sen]\<rparr>" and "db_ok (w_db v)"
    and "w_now v = w_now w"
proof -
  let ?o2 = "o1\<lparr>od_id := e_uuid_gen E (w_seed w), od_created := w_now w\<rparr>"
  from assms obtain sen where sen: "e_num_enc E (od_total o1) = Some sen"
    and run: "sql (\<lambda>d. commit ?o2 (d\<lparr>orders := orders d @ [order_row_of ?o2 sen]\<rparr>)) (w\<lparr>w_seed := Suc (w_seed w)\<rparr>) = (v, Inr o2)"
    by (simp add: insert_order_def bind_act_def num_arg_run new_uuid_run now_run Let_def split: option.splits)
  from run have "o2 = ?o2" "w_db v = w_db w\<lparr>orders := orders (w_db w) @ [order_row_of ?o2 sen]\<rparr>" "db_ok (w_db v)"
    by (auto elim!: sql_InrE)
  with sen sql_now [OF run] that [of sen] show thesis by simp
qed

lemma insert_order_owns: "insert_order E o1 w = (v, Inr o2) \<Longrightarrow> owns (od_tenant o1) (od_id o2) (w_db v)"
  by (erule insert_order_InrE) (simp add: owns_def own_order_def order_row_of_def)

lemma scoped_repo_Create:
  assumes own: "od_tenant o1 = t"
  shows "keeps (scoped t) (repo_Create E o1)"
  unfolding repo_Create_def
proof (rule scoped_transact, rule sc.keeps_bind [OF scoped_reads [OF reads_now]], rule scoped_then_under [where g = od_id])
  fix n
  have pt: "od_tenant (priced n o1) = t" using own by (simp add: priced_def Let_def)
  show "keeps (scoped t) (insert_order E (priced n o1))" by (rule scoped_insert_order [OF pt])
  show "owns t (od_id x) (w_db v)" if run: "insert_order E (priced n o1) w = (v, Inr x)" for w v x
    using insert_order_owns [OF run] pt by simp
  show "keeps (under t (od_id x)) (bind_act (for_each (od_items x) (insert_item E (od_id x)))
      (\<lambda>items. ret (x\<lparr>od_items := items\<rparr>)))" for x
    by (intro un.keeps_combinators under_insert_item)
qed

lemma scoped_UpdateStatus: "keeps (scoped t) (UpdateStatus E t i s)"
  unfolding UpdateStatus_def
  by (intro scoped_rules scoped_repo_UpdateStatus reads_orders [THEN scoped_reads])

lemma loadChildren_InrD: "loadChildren E o0 u = (v, Inr o1) \<Longrightarrow>
   od_tenant o1 = od_tenant o0 \<and> od_id o1 = od_id o0 \<and> od_status o1 = od_status o0 \<and> od_total o1 = od_total o0"
  unfolding loadChildren_def by (auto elim!: bind_InrE)

lemma repo_Get_InrD:
  assumes run: "repo_Get E t i w = (v, Inr o1)"
  shows "w_db v = w_db w \<and> od_tenant o1 = t \<and> od_id o1 = i \<and>
    (\<exists>r. find (own_order t i) (orders (w_db w)) = Some r \<and> od_status o1 = or_status r \<and> od_total o1 = e_num_dec E (or_total r))"
proof -
  obtain o0 u where q: "query_row POrders (\<lambda>d. map_option (order_of_row E) (find (own_order t i) (orders d))) w = (u, Inr o0)"
    and l: "loadChildren E o0 u = (v, Inr o1)" using run unfolding repo_Get_def by (auto elim: bind_InrE)
  obtain r where r: "find (own_order t i) (orders (w_db w)) = Some r" "o0 = order_of_row E r"
    using query_row_InrD [OF q] by auto
  have "own_order t i r" using r(1) by (auto simp: find_Some_iff')
  moreover have "w_db v = w_db w" using reads_db' [OF reads_orders(1) run] .
  ultimately show ?thesis using r loadChildren_InrD [OF l] by (auto simp: order_of_row_def own_order_def)
qed

lemma scoped_after_reads:
  assumes m: "reads m" and f: "\<And>w v x. m w = (v, Inr x) \<Longrightarrow> keeps (scoped t) (f x)"
  shows "keeps (scoped t) (bind_act m f)"
proof (rule keepsI)
  fix w
  obtain v r where run: "m w = (v, r)" by fastforce
  have 1: "scoped t w v" using keepsD' [OF scoped_reads [OF m] run] .
  show "scoped t w (fst (bind_act m f w))"
  proof (cases r)
    case (Inr x)
    with run f have "keeps (scoped t) (f x)" by blast
    then have "scoped t v (fst (f x v))" by (rule keepsD)
    with 1 have "scoped t w (fst (f x v))" by (rule sc.chain)
    with run Inr show ?thesis by simp
  qed (use run 1 in simp)
qed

lemma scoped_UpdateDetails: "keeps (scoped t) (UpdateDetails E t i input)"
  unfolding UpdateDetails_def Let_def
proof (rule scoped_after_reads)
  show "reads (map_err ordersErr (repo_Get E t i))" by (intro reads_combinators reads_orders)
next
  fix w v o1
  assume "map_err ordersErr (repo_Get E t i) w = (v, Inr o1)"
  then have "od_tenant o1 = t" by (auto dest: repo_Get_InrD)
  then show "keeps (scoped t) (bind_act (map_err ordersErr (repo_UpdateDetails E
      (o1\<lparr>od_full_name := ai_full_name input, od_email := ai_email input, od_contact := ai_contact input,
          od_shipping := ai_shipping input, od_notes := ai_notes input\<rparr>))) (\<lambda>_. repo_Get E t i))"
    by (intro scoped_rules scoped_repo_UpdateDetails reads_orders [THEN scoped_reads]) simp
qed

lemma view_drop_orders:
  assumes "db_ok d" and "\<And>r. P r \<Longrightarrow> or_tenant r = t"
  shows "view (\<lambda>u. u \<noteq> t) (drop_orders P d) = view (\<lambda>u. u \<noteq> t) d"
proof -
  have ords: "filter (\<lambda>r. or_tenant r \<noteq> t) (delete_rows P (orders d)) = filter (\<lambda>r. or_tenant r \<noteq> t) (orders d)"
    by (rule delete_rows_frame) (use assms(2) in auto)
  have gone: "or_id q \<notin> set (order_ids (\<lambda>u. u \<noteq> t) d)" if "q \<in> set (orders d)" "P q" for q
    using that assms owns_not_others [OF assms(1), of t "or_id q"]
    by (auto simp: owns_def list_ex_iff own_order_def)
  have "filter (\<lambda>i. it_order i \<in> set (order_ids (\<lambda>u. u \<noteq> t) d))
      (delete_rows (\<lambda>i. it_order i \<in> set (map or_id (filter P (orders d)))) (order_items d))
      = filter (\<lambda>i. it_order i \<in> set (order_ids (\<lambda>u. u \<noteq> t) d)) (order_items d)"
    by (rule delete_rows_frame) (use gone in auto)
  moreover have "filter (\<lambda>p. pm_order p \<in> set (order_ids (\<lambda>u. u \<noteq> t) d))
      (delete_rows (\<lambda>p. pm_order p \<in> set (map or_id (filter P (orders d)))) (payments d))
      = filter (\<lambda>p. pm_order p \<in> set (order_ids (\<lambda>u. u \<noteq> t) d)) (payments d)"
    by (rule delete_rows_frame) (use gone in auto)
  ultimately show ?thesis using ords by (simp add: view_def order_ids_def drop_orders_def Let_def)
qed

lemma scoped_commit':
  "(db_ok d \<Longrightarrow> db_ok d' \<Longrightarrow> view (\<lambda>u. u \<noteq> t) d' = view (\<lambda>u. u \<noteq> t) d) \<Longrightarrow>
   refresh_tokens d' = refresh_tokens d \<Longrightarrow> auth_tokens d' = auth_tokens d \<Longrightarrow>
   commit x d' = Inr (y, e) \<Longrightarrow> scoped_db t d e"
  by (auto simp: scoped_db_def isolates_db_def keeps_spent_db_def refresh_spent_def auth_spent_def)

lemma scoped_order_Delete: "keeps (scoped t) (order_Delete t i)"
  unfolding order_Delete_def repo_Delete_def
proof (intro scoped_rules scoped_sql)
  fix d x d'
  assume run: "commit (affected (own_order t i) (orders d)) (drop_orders (own_order t i) d) = Inr (x, d')"
  show "scoped_db t d d'"
  proof (rule scoped_commit' [OF _ _ _ run])
    show "db_ok d \<Longrightarrow> view (\<lambda>u. u \<noteq> t) (drop_orders (own_order t i) d) = view (\<lambda>u. u \<noteq> t) d"
      by (rule view_drop_orders) (simp_all add: own_order_def)
  qed (simp_all add: drop_orders_def Let_def)
qed

lemma scoped_VerifyPayment: "keeps (scoped t) (VerifyPayment t i accept)"
  unfolding VerifyPayment_def SetPaymentStatus_def
proof (intro scoped_rules scoped_sql)
  fix d x d'
  let ?s = "if accept then ''verified'' else ''rejected''"
  assume run: "commit (affected (own_payment d t i) (payments d))
      (d\<lparr>payments := update_rows (own_payment d t i) (\<lambda>p. p\<lparr>pm_status := ?s\<rparr>) (payments d)\<rparr>) = Inr (x, d')"
  show "scoped_db t d d'"
  proof (rule scoped_commit' [OF _ _ _ run])
    assume "db_ok d"
    then have "filter (\<lambda>p. pm_order p \<in> set (order_ids (\<lambda>u. u \<noteq> t) d))
        (update_rows (own_payment d t i) (\<lambda>p. p\<lparr>pm_status := ?s\<rparr>) (payments d))
      = filter (\<lambda>p. pm_order p \<in> set (order_ids (\<lambda>u. u \<noteq> t) d)) (payments d)"
      using owns_not_others [of d t] by (intro update_rows_frame) (auto simp: own_payment_def owns_def)
    then show "view (\<lambda>u. u \<noteq> t) (d\<lparr>payments := update_rows (own_payment d t i) (\<lambda>p. p\<lparr>pm_status := ?s\<rparr>) (payments d)\<rparr>)
      = view (\<lambda>u. u \<noteq> t) d" by (simp add: view_def order_ids_def)
  qed simp_all
qed

context object_store
begin

lemma reads_buildItems: "reads (buildItems E S t inputs)"
  unfolding buildItems_def build_item_def Let_def by (intro reads_combinators reads_GetProductBySKU)

lemma reads_attachProofURLs: "reads (attachProofURLs S o1)"
  unfolding attachProofURLs_def by (intro reads_combinators url_reads)

lemma reads_order_Get: "reads (order_Get E S t i)"
  unfolding order_Get_def by (intro reads_combinators reads_orders reads_attachProofURLs)

lemma scoped_CreateAdmin: "keeps (scoped t) (CreateAdmin E S t i)"
  unfolding CreateAdmin_def
  by (intro scoped_rules scoped_reads [OF reads_buildItems] scoped_repo_Create) simp

lemma scoped_GuestCheckout: "keeps (scoped t) (GuestCheckout E S t i)"
  unfolding GuestCheckout_def by (intro scoped_rules scoped_CreateAdmin)

end

end
