(* ===== verification/GoTime.thy ===== *)
theory GoTime
  imports World
begin

text \<open>
  The parts of Go's package \<open>time\<close> that the source uses: calendar dates from instants and
  back (proleptic Gregorian, as \<open>time.Date\<close> and \<open>Time.Date\<close>), \<open>Format\<close> with the layout
  \<open>2006-01-02 15:04\<close>, \<open>time.Parse\<close> with the layouts \<open>2006-01-02\<close>,
  \<open>2006-01-02 15:04:05\<close> and RFC 3339, and \<open>time.ParseDuration\<close>. An instant is a number of
  nanoseconds since 1970-01-01 00:00 UTC; the zone of the server is given as the offset in
  seconds.
\<close>

section \<open>Calendar dates\<close>

definition is_leap :: "int \<Rightarrow> bool" where
  "is_leap y \<longleftrightarrow> y mod 4 = 0 \<and> (y mod 100 \<noteq> 0 \<or> y mod 400 = 0)"

definition days_in :: "int \<Rightarrow> int \<Rightarrow> int" where
  "days_in y m =
     (if m = 2 then (if is_leap y then 29 else 28) else if m \<in> set [4, 6, 9, 11] then 30 else 31)"

text \<open>Years are counted from March, so that the leap day is the last one.\<close>

definition days_of_civil :: "int \<Rightarrow> int \<Rightarrow> int \<Rightarrow> int" where
  "days_of_civil y m d =
     (let y' = (if m \<le> 2 then y - 1 else y); yoe = y' mod 400; mp = (m + 9) mod 12;
          doy = (153 * mp + 2) div 5 + d - 1
      in (y' div 400) * 146097 + (yoe * 365 + yoe div 4 - yoe div 100 + doy) - 719468)"

definition civil_of_days :: "int \<Rightarrow> int \<times> int \<times> int" where
  "civil_of_days z0 =
     (let z = z0 + 719468; era = z div 146097; doe = z mod 146097;
          yoe = (doe - doe div 1460 + doe div 36524 - doe div 146096) div 365;
          doy = doe - (365 * yoe + yoe div 4 - yoe div 100);
          mp = (5 * doy + 2) div 153;
          d = doy - (153 * mp + 2) div 5 + 1;
          m = (if mp < 10 then mp + 3 else mp - 9)
      in (yoe + era * 400 + (if m \<le> 2 then 1 else 0), m, d))"

definition clock_of :: "int \<Rightarrow> (int \<times> int \<times> int) \<times> int" where
  "clock_of secs = (civil_of_days (secs div 86400), secs mod 86400)"

text \<open>\<open>t.Format("2006-01-02 15:04")\<close>, the zone being \<open>off\<close> seconds east.\<close>

definition show_pad :: "nat \<Rightarrow> int \<Rightarrow> string" where
  "show_pad n k = pad0 n (show_nat (nat k))"

definition format_minute :: "int \<Rightarrow> time \<Rightarrow> string" where
  "format_minute off t =
     (let ((y, m, d), s) = clock_of (t div Second + off)
      in show_pad 4 y @ ''-'' @ show_pad 2 m @ ''-'' @ show_pad 2 d @ '' '' @
         show_pad 2 (s div 3600) @ '':'' @ show_pad 2 (s mod 3600 div 60))"

section \<open>Parsing\<close>

definition fixed_digits :: "nat \<Rightarrow> string \<Rightarrow> (int \<times> string) option" where
  "fixed_digits n s =
     (if n \<le> length s \<and> list_all is_digit (take n s) then Some (int (nat_of_digits (take n s)), drop n s)
      else None)"

text \<open>\<open>getnum\<close> without \<open>fixed\<close>: one digit or two.\<close>

definition one_or_two :: "string \<Rightarrow> (int \<times> string) option" where
  "one_or_two s = (case fixed_digits 2 s of Some r \<Rightarrow> Some r | None \<Rightarrow> fixed_digits 1 s)"

definition lit :: "string \<Rightarrow> string \<Rightarrow> string option" where
  "lit l s = (if HasPrefix s l then Some (drop (length l) s) else None)"

definition in_range :: "int \<Rightarrow> int \<Rightarrow> int \<times> string \<Rightarrow> (int \<times> string) option" where
  "in_range lo hi r = (if lo \<le> fst r \<and> fst r \<le> hi then Some r else None)"

definition scan_date :: "string \<Rightarrow> ((int \<times> int \<times> int) \<times> string) option" where
  "scan_date s =
     Option.bind (fixed_digits 4 s) (\<lambda>(y, s1). Option.bind (lit ''-'' s1) (\<lambda>s2.
     Option.bind (fixed_digits 2 s2) (\<lambda>r. Option.bind (in_range 1 12 r) (\<lambda>(m, s3).
     Option.bind (lit ''-'' s3) (\<lambda>s4. Option.bind (fixed_digits 2 s4) (\<lambda>(d, s5).
     Some ((y, m, d), s5)))))))"

text \<open>A fraction may follow the seconds although the layout has none; nine digits count.\<close>

definition scan_fraction :: "string \<Rightarrow> int \<times> string" where
  "scan_fraction s =
     (case s of
        c # d # r \<Rightarrow>
          if (c = CHR ''.'' \<or> c = CHR '','') \<and> is_digit d then
            (let ds = takeWhile is_digit (d # r); nine = take 9 (ds @ ''00000000'')
             in (int (nat_of_digits nine), drop (length ds) (d # r)))
          else (0, s)
      | _ \<Rightarrow> (0, s))"

definition scan_clock :: "string \<Rightarrow> (int \<times> string) option" where
  "scan_clock s =
     Option.bind (one_or_two s) (\<lambda>r. Option.bind (in_range 0 23 r) (\<lambda>(h, s1).
     Option.bind (lit '':'' s1) (\<lambda>s2. Option.bind (fixed_digits 2 s2) (\<lambda>r. Option.bind (in_range 0 59 r) (\<lambda>(mi, s3).
     Option.bind (lit '':'' s3) (\<lambda>s4. Option.bind (fixed_digits 2 s4) (\<lambda>r. Option.bind (in_range 0 59 r) (\<lambda>(se, s5).
     (let (ns, s6) = scan_fraction s5 in Some ((h * 3600 + mi * 60 + se) * Second + ns, s6))))))))))"

text \<open>\<open>Z07:00\<close>: an offset in seconds.\<close>

definition scan_zone :: "string \<Rightarrow> (int \<times> string) option" where
  "scan_zone s =
     (case s of
        [] \<Rightarrow> None
      | c # r \<Rightarrow>
          if c = CHR ''Z'' then Some (0, r)
          else if c = CHR ''+'' \<or> c = CHR ''-'' then
            Option.bind (fixed_digits 2 r) (\<lambda>q. Option.bind (in_range 0 24 q) (\<lambda>(h, s1).
            Option.bind (lit '':'' s1) (\<lambda>s2. Option.bind (fixed_digits 2 s2) (\<lambda>q. Option.bind (in_range 0 60 q) (\<lambda>(mi, s3).
            Some ((if c = CHR ''-'' then - 1 else 1) * (h * 3600 + mi * 60), s3))))))
          else None)"

definition valid_day :: "int \<times> int \<times> int \<Rightarrow> bool" where
  "valid_day r = (case r of (y, m, d) \<Rightarrow> 1 \<le> d \<and> d \<le> days_in y m)"

definition instant :: "int \<times> int \<times> int \<Rightarrow> int \<Rightarrow> time" where
  "instant r ns = (case r of (y, m, d) \<Rightarrow> days_of_civil y m d * 86400 * Second + ns)"

definition parse_date :: "string \<Rightarrow> time option" where
  "parse_date s =
     (case scan_date s of Some (r, []) \<Rightarrow> if valid_day r then Some (instant r 0) else None | _ \<Rightarrow> None)"

definition parse_date_time :: "string \<Rightarrow> time option" where
  "parse_date_time s =
     Option.bind (scan_date s) (\<lambda>(r, s1). Option.bind (lit '' '' s1) (\<lambda>s2.
     case scan_clock (dropWhile (\<lambda>c. c = CHR '' '') s2) of
       Some (ns, []) \<Rightarrow> if valid_day r then Some (instant r ns) else None | _ \<Rightarrow> None))"

definition parse_rfc3339 :: "string \<Rightarrow> time option" where
  "parse_rfc3339 s =
     Option.bind (scan_date s) (\<lambda>(r, s1). Option.bind (lit ''T'' s1) (\<lambda>s2. Option.bind (scan_clock s2) (\<lambda>(ns, s3).
     case scan_zone s3 of
       Some (off, []) \<Rightarrow> if valid_day r then Some (instant r ns - off * Second) else None | _ \<Rightarrow> None)))"

section \<open>Durations\<close>

text \<open>
  \<open>time.ParseDuration\<close>: a sign, then one or more terms of a decimal number and a unit. The sum
  and the terms are \<open>uint64\<close> values kept below \<open>2^63\<close>; digits of a fraction that no longer
  fit are dropped.
\<close>

definition unit_ns :: "string \<Rightarrow> nat option" where
  "unit_ns = map_of
     [(''ns'', 1), (''us'', 1000), (map char_of [194 :: nat, 181, 115], 1000),
      (map char_of [206 :: nat, 188, 115], 1000), (''ms'', 1000000), (''s'', 1000000000),
      (''m'', 60000000000), (''h'', 3600000000000)]"

fun leadingInt :: "nat \<Rightarrow> string \<Rightarrow> (nat \<times> string) option" where
  "leadingInt x [] = Some (x, [])"
| "leadingInt x (c # s) =
     (if \<not> is_digit c then Some (x, c # s)
      else if x > 2 ^ 63 div 10 then None
      else if x * 10 + digit_val c > 2 ^ 63 then None
      else leadingInt (x * 10 + digit_val c) s)"

fun leadingFraction :: "bool \<Rightarrow> nat \<Rightarrow> f64 \<Rightarrow> string \<Rightarrow> nat \<times> f64 \<times> string" where
  "leadingFraction over x sc [] = (x, sc, [])"
| "leadingFraction over x sc (c # s) =
     (if \<not> is_digit c then (x, sc, c # s)
      else if over \<or> x > (2 ^ 63 - 1) div 10 then leadingFraction True x sc s
      else if x * 10 + digit_val c > 2 ^ 63 then leadingFraction True x sc s
      else leadingFraction False (x * 10 + digit_val c) (fmul sc (Fin 10)) s)"

definition number_char :: "char \<Rightarrow> bool" where
  "number_char c \<longleftrightarrow> c = CHR ''.'' \<or> is_digit c"

text \<open>One term: its nanoseconds and the rest of the text.\<close>

definition duration_term :: "string \<Rightarrow> (nat \<times> string) option" where
  "duration_term s =
     (if s = [] \<or> \<not> number_char (hd s) then None
      else Option.bind (leadingInt 0 s) (\<lambda>(v, s1).
        (let (f, sc, s2) =
               (case s1 of c # r \<Rightarrow> if c = CHR ''.'' then leadingFraction False 0 (Fin 1) r else (0, Fin 1, s1)
                         | [] \<Rightarrow> (0, Fin 1, s1));
             pre = (length s1 \<noteq> length s);
             post = (s1 \<noteq> [] \<and> hd s1 = CHR ''.'' \<and> length s2 + 1 < length s1);
             u = takeWhile (\<lambda>c. \<not> number_char c) s2; r = drop (length u) s2
         in if \<not> pre \<and> \<not> post \<or> u = [] then None
            else Option.bind (unit_ns u) (\<lambda>un.
              if v > 2 ^ 63 div un then None
              else (let w = v * un + (if f > 0 then nat (int64_of (fmul (f64_of_int (int f)) (fdiv (f64_of_int (int un)) sc))) else 0)
                    in if w > 2 ^ 63 then None else Some (w, r))))))"

lemma leadingInt_length: "leadingInt x s = Some (y, r) \<Longrightarrow> length r \<le> length s"
  by (induction x s rule: leadingInt.induct) (auto split: if_splits)

lemma leadingFraction_length: "leadingFraction b x sc s = (y, sc', r) \<Longrightarrow> length r \<le> length s"
  by (induction b x sc s rule: leadingFraction.induct) (auto split: if_splits)

lemma duration_term_length: "duration_term s = Some (v, r) \<Longrightarrow> length r < length s"
  unfolding duration_term_def
  by (fastforce split: if_splits prod.splits list.splits Option.bind_splits
      dest!: leadingInt_length leadingFraction_length simp: Let_def)

function duration_sum :: "nat \<Rightarrow> string \<Rightarrow> nat option" where
  "duration_sum d s =
     (if s = [] then Some d
      else case duration_term s of
        None \<Rightarrow> None
      | Some (v, r) \<Rightarrow> (let d' = (d + v) mod 2 ^ 64 in if d' > 2 ^ 63 then None else duration_sum d' r))"
  by pat_completeness auto
termination by (relation "measure (\<lambda>(d, s). length s)") (auto dest: duration_term_length)

declare duration_sum.simps [simp del]

definition ParseDuration :: "string \<Rightarrow> time option" where
  "ParseDuration s0 =
     (let neg = (s0 \<noteq> [] \<and> hd s0 = CHR ''-'');
          s = (if s0 \<noteq> [] \<and> (hd s0 = CHR ''-'' \<or> hd s0 = CHR ''+'') then tl s0 else s0)
      in if s = ''0'' then Some 0
         else if s = [] then None
         else Option.bind (duration_sum 0 s) (\<lambda>d.
           if neg then Some (- int d) else if d > 2 ^ 63 - 1 then None else Some (int d)))"

end
