(* ===== verification/Invoice.thy ===== *)
theory Invoice
  imports Orders GoTime
begin

text \<open>
  The invoice (\<open>api/internal/orders/invoice.go\<close>): the lines of text and the PDF file around
  them, byte by byte. The lemmas read the file back: a string of the page is the text that was
  put in, whatever characters it has, and the table of offsets points at the objects.
\<close>

record invoice =
  iv_order :: order
  iv_seller_name :: string
  iv_store_name :: string

section \<open>Formatting\<close>

text \<open>The verbs with a width pad by runes: \<open>%-30s\<close> on the right, \<open>%12.2f\<close> on the left.\<close>

definition pad_right :: "nat \<Rightarrow> string \<Rightarrow> string" where
  "pad_right n s = s @ replicate (n - length (runes s)) (CHR '' '')"

definition pad_left :: "nat \<Rightarrow> string \<Rightarrow> string" where
  "pad_left n s = replicate (n - length (runes s)) (CHR '' '') @ s"

text \<open>The three bytes of the ellipsis.\<close>

definition ellipsis :: string where
  "ellipsis = map char_of [226 :: nat, 128, 166]"

definition truncate_text :: "string \<Rightarrow> nat \<Rightarrow> string" where
  "truncate_text s n = (if length s > n then take (n - 1) s @ ellipsis else s)"

definition invoice_lines :: "'z app_env_scheme \<Rightarrow> invoice \<Rightarrow> string list" where
  "invoice_lines E iv =
     (let o1 = iv_order iv; a = od_shipping o1;
          store = (if iv_store_name iv = '''' then iv_seller_name iv else iv_store_name iv);
          minute = (\<lambda>t. format_minute (e_local_offset E t) t)
      in [''INVOICE'', store, '''',
          ''Invoice ID: '' @ e_uuid_str E (od_id o1),
          ''Status: '' @ od_status o1,
          ''Date: '' @ minute (od_created o1),
          ''Due (expires): '' @ minute (od_expired o1),
          '''',
          ''Bill to: '' @ od_full_name o1,
          ''Email: '' @ od_email o1 @ ''   Phone: '' @ od_contact o1,
          ''Ship to: '' @ sa_mailing_addr a @ '' '' @ sa_mailing_addr2 a @ '', '' @ sa_postcode a @ '' '' @
            sa_city a @ '' '' @ sa_state a,
          '''',
          pad_right 30 ''Item'' @ '' '' @ pad_left 5 ''Qty'' @ '' '' @ pad_left 12 ''Unit'' @ '' '' @ pad_left 12 ''Total'',
          Repeat ''-'' 62] @
         map (\<lambda>it. pad_right 30 (truncate_text (if oi_name it = '''' then oi_sku it else oi_name it) 30) @ '' '' @
                    pad_left 5 (Itoa (oi_quantity it)) @ '' '' @ pad_left 12 (fmt2 (oi_price it)) @ '' '' @
                    pad_left 12 (fmt2 (oi_line it))) (od_items o1) @
         [Repeat ''-'' 62,
          pad_right 48 ''TOTAL (MYR)'' @ '' '' @ pad_left 12 (fmt2 (od_total o1))] @
         (if od_notes o1 \<noteq> '''' then ['''', ''Notes: '' @ truncate_text (od_notes o1) 80] else []))"

section \<open>The PDF file\<close>

definition newline :: string where
  "newline = [CHR 0x0A]"

definition backslash :: char where
  "backslash = CHR 0x5C"

definition ascii_only :: "string \<Rightarrow> string" where
  "ascii_only s = map (\<lambda>r. if r < 128 then char_of r else CHR ''?'') (runes s)"

definition escape_char :: "char \<Rightarrow> string" where
  "escape_char c =
     (if c = backslash \<or> c = CHR ''('' \<or> c = CHR '')'' then [backslash, c] else [c])"

definition escapePDF :: "string \<Rightarrow> string" where
  "escapePDF s = concat (map escape_char (ascii_only s))"

fun page_content :: "bool \<Rightarrow> string list \<Rightarrow> string" where
  "page_content head_line [] = ''''"
| "page_content head_line (s # lns) =
     (if head_line then '''' else ''T*'' @ newline) @ ''('' @ escapePDF s @ '') Tj'' @ newline @ page_content False lns"

definition content_stream :: "string list \<Rightarrow> string" where
  "content_stream lns =
     ''BT'' @ newline @ ''/F1 11 Tf'' @ newline @ ''12 TL'' @ newline @ ''50 800 Td'' @ newline @
     page_content True lns @ ''ET''"

definition pdf_objects :: "string list \<Rightarrow> string list" where
  "pdf_objects lns =
     (let content = content_stream lns in
      [''<< /Type /Catalog /Pages 2 0 R >>'',
       ''<< /Type /Pages /Kids [3 0 R] /Count 1 >>'',
       ''<< /Type /Page /Parent 2 0 R /MediaBox [0 0 595 842] /Resources << /Font << /F1 4 0 R >> >> /Contents 5 0 R >>'',
       ''<< /Type /Font /Subtype /Type1 /BaseFont /Courier >>'',
       ''<< /Length '' @ show_nat (length content) @ '' >>'' @ newline @ ''stream'' @ newline @ content @ newline @
         ''endstream''])"

definition object_text :: "nat \<Rightarrow> string \<Rightarrow> string" where
  "object_text k body = show_nat k @ '' 0 obj'' @ newline @ body @ newline @ ''endobj'' @ newline"

text \<open>The loop over the objects: the buffer so far, the offsets so far.\<close>

fun write_objects :: "nat \<Rightarrow> string list \<Rightarrow> string \<Rightarrow> nat list \<Rightarrow> string \<times> nat list" where
  "write_objects k [] buf offs = (buf, offs)"
| "write_objects k (b # bs) buf offs = write_objects (k + 1) bs (buf @ object_text k b) (offs @ [length buf])"

definition xref_entry :: "nat \<Rightarrow> string" where
  "xref_entry off = pad0 10 (show_nat off) @ '' 00000 n '' @ newline"

definition buildPDF :: "string list \<Rightarrow> string" where
  "buildPDF lns =
     (let objs = pdf_objects lns;
          (buf, offsets) = write_objects 1 objs (''%PDF-1.4'' @ newline) [];
          xrefPos = length buf
      in buf @ ''xref'' @ newline @ ''0 '' @ show_nat (length objs + 1) @ newline @
         ''0000000000 65535 f '' @ newline @ concat (map xref_entry offsets) @
         ''trailer'' @ newline @ ''<< /Size '' @ show_nat (length objs + 1) @ '' /Root 1 0 R >>'' @ newline @
         ''startxref'' @ newline @ show_nat xrefPos @ newline @ ''%%EOF'')"

definition RenderPDF :: "'z app_env_scheme \<Rightarrow> invoice \<Rightarrow> string" where
  "RenderPDF E iv = buildPDF (invoice_lines E iv)"

section \<open>Reading a string of the page back\<close>

text \<open>
  The literal strings of PDF (ISO 32000-1, 7.3.4.2): the text runs to the parenthesis that closes it and pairs of
  plain parentheses nest. An end of line (CR, LF or both) is read as LF. After a backslash come a letter for
  a control character, a parenthesis or a backslash, up to three octal digits, or an end of line, which
  is left out; before any other character the backslash itself is left out.
\<close>

definition lf :: char where
  "lf = CHR 0x0A"

definition cr :: char where
  "cr = CHR 0x0D"

lemma eol_chars [simp]: "lf \<noteq> cr" "backslash \<noteq> lf" "backslash \<noteq> cr" "CHR ''('' \<noteq> lf" "CHR ''('' \<noteq> cr"
  "CHR '')'' \<noteq> lf" "CHR '')'' \<noteq> cr" "CHR ''('' \<noteq> backslash" "CHR '')'' \<noteq> backslash"
  "cr \<noteq> lf" "lf \<noteq> backslash" "cr \<noteq> backslash" "lf \<noteq> CHR ''(''" "cr \<noteq> CHR ''(''"
  "lf \<noteq> CHR '')''" "cr \<noteq> CHR '')''" "backslash \<noteq> CHR ''(''" "backslash \<noteq> CHR '')''"
  by (simp_all add: lf_def cr_def backslash_def)

definition octal :: "char \<Rightarrow> bool" where
  "octal c \<longleftrightarrow> 48 \<le> code c \<and> code c \<le> 55"

definition octal_value :: "string \<Rightarrow> nat" where
  "octal_value ds = foldl (\<lambda>n c. 8 * n + (code c - 48)) 0 ds"

fun after_eol :: "string \<Rightarrow> string" where
  "after_eol (c # d # s) = (if c = cr \<and> d = lf then s else d # s)"
| "after_eol (c # s) = s"
| "after_eol [] = []"

definition read_escape :: "string \<Rightarrow> string \<times> string" where
  "read_escape s =
     (case s of
        [] \<Rightarrow> ([], [])
      | d # t \<Rightarrow>
          if d = lf \<or> d = cr then ([], after_eol s)
          else if octal d then
            (let ds = takeWhile octal (take 3 s) in ([char_of (octal_value ds mod 256)], drop (length ds) s))
          else (case map_of [(CHR ''n'', 10), (CHR ''r'', 13), (CHR ''t'', 9), (CHR ''b'', 8), (CHR ''f'', 12)] d of
                  Some k \<Rightarrow> ([char_of (k :: nat)], t)
                | None \<Rightarrow> ([d], t)))"

lemma length_after_eol: "length (after_eol s) \<le> length s"
  by (induction s rule: after_eol.induct) auto

lemma length_read_escape: "length (snd (read_escape s)) \<le> length s"
proof (cases s)
  case (Cons d t)
  have "length (snd (case m of Some k \<Rightarrow> ([char_of k], t) | None \<Rightarrow> ([d], t))) \<le> length s" for m :: "nat option"
    by (cases m) (simp_all add: Cons)
  then show ?thesis using length_after_eol [of s] unfolding read_escape_def Let_def Cons list.case by (simp add: le_SucI)
qed (simp add: read_escape_def)

definition before :: "string \<Rightarrow> (string \<times> string) option \<Rightarrow> (string \<times> string) option" where
  "before a = map_option (\<lambda>(b, r). (a @ b, r))"

function read_literal :: "nat \<Rightarrow> string \<Rightarrow> (string \<times> string) option" where
  "read_literal n [] = None"
| "read_literal n (c # s) =
     (if c = backslash then before (fst (read_escape s)) (read_literal n (snd (read_escape s)))
      else if c = lf \<or> c = cr then before [lf] (read_literal n (after_eol (c # s)))
      else if c = CHR ''('' then before [c] (read_literal (Suc n) s)
      else if c = CHR '')'' then (case n of 0 \<Rightarrow> Some ([], s) | Suc m \<Rightarrow> before [c] (read_literal m s))
      else before [c] (read_literal n s))"
  by pat_completeness auto

lemma length_after_eol_Cons: "length (after_eol (c # s)) \<le> length s"
  by (cases s) auto

termination read_literal
  by (relation "measure (\<lambda>(n, s). length s)")
    (simp_all add: less_Suc_eq_le length_after_eol_Cons length_read_escape)

text \<open>A text with its ends of line as a reader gives them back.\<close>

fun unix_eol :: "string \<Rightarrow> string" where
  "unix_eol [] = []"
| "unix_eol (c # s) =
     (if c = cr then lf # (case s of [] \<Rightarrow> [] | d # t \<Rightarrow> if d = lf then unix_eol t else unix_eol s)
      else c # unix_eol s)"

lemma read_escape_plain:
  "c = backslash \<or> c = CHR ''('' \<or> c = CHR '')'' \<Longrightarrow> read_escape (c # s) = ([c], s)"
proof -
  assume c: "c = backslash \<or> c = CHR ''('' \<or> c = CHR '')''"
  then have "\<not> octal c" "c \<noteq> lf" "c \<noteq> cr" by (auto simp: octal_def code_def backslash_def lf_def cr_def)
  moreover have "map_of [(CHR ''n'', 10 :: nat), (CHR ''r'', 13), (CHR ''t'', 9), (CHR ''b'', 8), (CHR ''f'', 12)] c = None"
    using c by (elim disjE) (simp_all add: backslash_def)
  ultimately show ?thesis by (simp add: read_escape_def)
qed

lemma escape_char_head: "\<exists>d t. escape_char c = d # t \<and> (d = lf \<longleftrightarrow> c = lf)"
  by (simp add: escape_char_def)

lemma read_escaped:
  "read_literal 0 (concat (map escape_char s) @ CHR '')'' # r) = Some (unix_eol s, r)"
proof (induction s rule: unix_eol.induct)
  case 1
  show ?case by simp
next
  case (2 c s)
  consider "c = cr" | "c = backslash \<or> c = CHR ''('' \<or> c = CHR '')''"
    | "c \<noteq> cr" "\<not> (c = backslash \<or> c = CHR ''('' \<or> c = CHR '')'')" by blast
  then show ?case
  proof cases
    case 1
    show ?thesis
    proof (cases s)
      case Nil
      with 1 show ?thesis by (simp add: escape_char_def before_def)
    next
      case (Cons d t)
      obtain e u where e: "escape_char d = e # u" "e = lf \<longleftrightarrow> d = lf" using escape_char_head by blast
      show ?thesis
      proof (cases "d = lf")
        case True
        with 1 Cons 2(1) [OF 1 Cons True] show ?thesis by (simp add: escape_char_def before_def)
      next
        case False
        with 1 Cons e 2(2) [OF 1 Cons False] show ?thesis by (simp add: escape_char_def [of cr] before_def)
      qed
    qed
  next
    case 2
    then have "c \<noteq> cr" by auto
    with 2 "2.IH"(3) show ?thesis by (simp add: escape_char_def read_escape_plain before_def)
  next
    case 3
    have "after_eol (lf # x) = x" for x by (cases x) simp_all
    with 3 "2.IH"(3) show ?thesis by (auto simp: escape_char_def before_def)
  qed
qed

text \<open>C38: No text can leave its place on the invoice: a reader of PDF literals gets back from an escaped text
  the text itself, with a question mark for each character outside ASCII and every end of line as LF, and
  goes on right after the closing parenthesis. Names, notes and addresses
  that hold parentheses or backslashes put no operator into the page.\<close>

theorem escapePDF_roundtrip: "read_literal 0 (escapePDF s @ CHR '')'' # rest) = Some (unix_eol (ascii_only s), rest)"
  unfolding escapePDF_def by (rule read_escaped)

lemma ascii_only_ascii: "c \<in> set (ascii_only s) \<Longrightarrow> code c < 128"
  by (auto simp: ascii_only_def split: if_splits) (simp add: code_def)

lemma ascii_only_id: "\<forall>c \<in> set s. code c < 128 \<Longrightarrow> ascii_only s = s"
  by (simp add: ascii_only_def runes_ascii map_idI)

section \<open>The offsets\<close>

lemma write_objects_prefix: "\<exists>t. fst (write_objects k bs buf offs) = buf @ t"
  by (induction k bs buf offs rule: write_objects.induct) auto

lemma write_objects_offsets:
  assumes "write_objects k bs buf offs = (b, ofs)"
  shows "length ofs = length offs + length bs \<and> (\<forall>i < length offs. ofs ! i = offs ! i) \<and> (\<exists>t. b = buf @ t) \<and>
    (\<forall>j < length bs. \<exists>l r. b = l @ object_text (k + j) (bs ! j) @ r \<and> ofs ! (length offs + j) = length l)"
  using assms
proof (induction k bs buf offs rule: write_objects.induct)
  case (2 k x bs buf offs)
  let ?buf = "buf @ object_text k x"
  from "2.prems" have run: "write_objects (k + 1) bs ?buf (offs @ [length buf]) = (b, ofs)" by simp
  note IH = "2.IH" [OF run]
  then obtain t where b: "b = buf @ object_text k x @ t" by auto
  have here: "ofs ! length offs = length buf" using IH by (metis length_append_singleton lessI nth_append_length)
  have "\<exists>l r. b = l @ object_text (k + j) ((x # bs) ! j) @ r \<and> ofs ! (length offs + j) = length l"
    if "j < length (x # bs)" for j
  proof (cases j)
    case 0
    with b here show ?thesis by auto
  next
    case (Suc i)
    with that have "i < length bs" by simp
    with IH Suc show ?thesis by (metis add.assoc add.commute add_Suc_right length_append_singleton nth_Cons_Suc plus_1_eq_Suc)
  qed
  moreover have "\<forall>i < length offs. ofs ! i = offs ! i"
    using IH by (metis less_SucI length_append_singleton nth_append)
  moreover have "length ofs = length offs + length (x # bs)" using IH by simp
  ultimately show ?case using b by blast
qed simp

lemma length_show_nat: "n < 10 ^ Suc d \<Longrightarrow> length (show_nat n) \<le> Suc d"
proof (induction d arbitrary: n)
  case 0
  then show ?case by (subst show_nat.simps) simp
next
  case (Suc d)
  show ?case
  proof (cases "n < 10")
    case True
    then show ?thesis by (subst show_nat.simps) simp
  next
    case False
    have "n div 10 < 10 ^ Suc d" using Suc.prems by (simp add: less_mult_imp_div_less)
    from Suc.IH [OF this] False show ?thesis by (subst show_nat.simps) simp
  qed
qed

text \<open>C39: The cross-reference table of the invoice file is right for every text: it has one
  entry for each of the five objects, the offset of an entry is where that object begins, the
  entries take twenty bytes each (below ten gigabytes), and the number after startxref is where
  the table begins.\<close>

theorem pdf_offsets:
  "\<exists>buf offs. length offs = 5 \<and>
     buildPDF lns = buf @ ''xref'' @ newline @ ''0 6'' @ newline @ ''0000000000 65535 f '' @ newline @
       concat (map xref_entry offs) @ ''trailer'' @ newline @ ''<< /Size 6 /Root 1 0 R >>'' @ newline @
       ''startxref'' @ newline @ show_nat (length buf) @ newline @ ''%%EOF'' \<and>
     (\<forall>j < 5. \<exists>l r. buf = l @ object_text (Suc j) (pdf_objects lns ! j) @ r \<and> offs ! j = length l) \<and>
     (\<forall>off. off < 10 ^ 10 \<longrightarrow> length (xref_entry off) = 20)"
proof -
  obtain buf offs where run: "write_objects 1 (pdf_objects lns) (''%PDF-1.4'' @ newline) [] = (buf, offs)" by fastforce
  have five: "length (pdf_objects lns) = 5" by (simp add: pdf_objects_def Let_def)
  have six: "show_nat 6 = ''6''" by code_simp
  note w = write_objects_offsets [OF run]
  have "buildPDF lns = buf @ ''xref'' @ newline @ ''0 6'' @ newline @ ''0000000000 65535 f '' @ newline @
       concat (map xref_entry offs) @ ''trailer'' @ newline @ ''<< /Size 6 /Root 1 0 R >>'' @ newline @
       ''startxref'' @ newline @ show_nat (length buf) @ newline @ ''%%EOF''"
    unfolding buildPDF_def Let_def run prod.case five by (simp add: six)
  moreover have "length (xref_entry off) = 20" if "off < 10 ^ 10" for off
    using length_show_nat [of off 9] that by (simp add: xref_entry_def pad0_def newline_def)
  ultimately show ?thesis
    using w five by (intro exI [of _ buf] exI [of _ offs]) auto
qed

theorem pdf_offsets_witness: "\<exists>l r. buildPDF [''INVOICE'', ''(Ali)''] = l @ ''xref'' @ r"
  using pdf_offsets [of "[''INVOICE'', ''(Ali)'']"] by blast

end
