(* ===== verification/OrdersApi.thy ===== *)
theory OrdersApi
  imports Invoice
begin

text \<open>
  The handlers of the orders (\<open>api/internal/orders/handler.go\<close>), for the seller and for the
  public. \<open>seller_lookup\<close> is the function that \<open>server.go\<close> gives as \<open>SellerLookup\<close>.
\<close>

section \<open>Handlers\<close>

datatype order_reply =
    R_orders "order list_response"
  | R_order order
  | R_accepted bool
  | R_invoice invoice
  | R_payment payment

definition parseUUID :: "'z env_scheme \<Rightarrow> string \<Rightarrow> string \<Rightarrow> uuid go" where
  "parseUUID E name param =
     (case e_uuid_parse E param of None \<Rightarrow> raise (BadRequest (''invalid '' @ name)) | Some i \<Rightarrow> ret i)"

definition order_page ::
  "'z env_scheme \<Rightarrow> identity option \<Rightarrow> string list \<Rightarrow> page \<Rightarrow> order_reply response go" where
  "order_page E ctx statuses p =
     bind_act (order_List E (tid ctx) statuses (pg_search p) (pg_limit p) (pg_offset p)) (\<lambda>(items, n).
     ret (JSON 200 (R_orders \<lparr>lr_records = items, lr_query_count = n, lr_total_count = n\<rparr>)))"

definition order_list ::
  "'z env_scheme \<Rightarrow> identity option \<Rightarrow> (string \<Rightarrow> string) \<Rightarrow> order_reply response go" where
  "order_list E ctx query =
     (let p = ParsePage query; st = query ''status'';
          statuses = (if st \<noteq> '''' then [st] else [])
      in order_page E ctx statuses p)"

definition listPending ::
  "'z env_scheme \<Rightarrow> identity option \<Rightarrow> (string \<Rightarrow> string) \<Rightarrow> order_reply response go" where
  "listPending E ctx query =
     order_page E ctx [''pending'', ''payment_received'', ''payment_accepted''] (ParsePage query)"

definition order_create ::
  "'z env_scheme \<Rightarrow> storage \<Rightarrow> identity option \<Rightarrow> admin_input option \<Rightarrow> order_reply response go" where
  "order_create E S ctx body =
     bind_act (Bind body) (\<lambda>i.
     bind_act (CreateAdmin E S (tid ctx) i) (\<lambda>o1. ret (JSON 201 (R_order o1))))"

definition order_get ::
  "'z env_scheme \<Rightarrow> storage \<Rightarrow> identity option \<Rightarrow> string \<Rightarrow> order_reply response go" where
  "order_get E S ctx param =
     bind_act (parseUUID E ''id'' param) (\<lambda>i.
     bind_act (order_Get E S (tid ctx) i) (\<lambda>o1. ret (JSON 200 (R_order o1))))"

definition order_update ::
  "'z env_scheme \<Rightarrow> identity option \<Rightarrow> string \<Rightarrow> admin_input option \<Rightarrow> order_reply response go" where
  "order_update E ctx param body =
     bind_act (parseUUID E ''id'' param) (\<lambda>i.
     bind_act (Bind body) (\<lambda>input.
     bind_act (UpdateDetails E (tid ctx) i input) (\<lambda>o1. ret (JSON 200 (R_order o1)))))"

definition setStatus ::
  "'z env_scheme \<Rightarrow> identity option \<Rightarrow> string \<Rightarrow> string option \<Rightarrow> order_reply response go" where
  "setStatus E ctx param body =
     bind_act (parseUUID E ''id'' param) (\<lambda>i.
     bind_act (Bind body) (\<lambda>status.
     bind_act (UpdateStatus E (tid ctx) i status) (\<lambda>o1. ret (JSON 200 (R_order o1)))))"

definition order_delete :: "'z env_scheme \<Rightarrow> identity option \<Rightarrow> string \<Rightarrow> order_reply response go" where
  "order_delete E ctx param =
     bind_act (parseUUID E ''id'' param) (\<lambda>i.
     bind_act (order_Delete (tid ctx) i) (\<lambda>_. ret (NoContent 204)))"

definition verifyPayment ::
  "'z env_scheme \<Rightarrow> identity option \<Rightarrow> string \<Rightarrow> bool option \<Rightarrow> order_reply response go" where
  "verifyPayment E ctx param body =
     bind_act (parseUUID E ''pid'' param) (\<lambda>pid.
     bind_act (Bind body) (\<lambda>accept.
     bind_act (VerifyPayment (tid ctx) pid accept) (\<lambda>_. ret (JSON 200 (R_accepted accept)))))"

definition seller_lookup :: "uuid \<Rightarrow> (string \<times> string) go" where
  "seller_lookup tenantID =
     bind_act (attempt (TenantByID tenantID)) (\<lambda>r.
     ret (case r of Inl _ \<Rightarrow> ('''', '''') | Inr t \<Rightarrow> (tn_full_name t, tn_store_name t)))"

definition invoice_of :: "order \<Rightarrow> invoice go" where
  "invoice_of o1 =
     bind_act (seller_lookup (od_tenant o1)) (\<lambda>(full, store).
     ret \<lparr>iv_order = o1, iv_seller_name = full, iv_store_name = store\<rparr>)"

definition invoicePDF ::
  "'z app_env_scheme \<Rightarrow> storage \<Rightarrow> identity option \<Rightarrow> string \<Rightarrow> order_reply response go" where
  "invoicePDF E S ctx param =
     bind_act (parseUUID E ''id'' param) (\<lambda>i.
     bind_act (order_Get E S (tid ctx) i) (\<lambda>o1.
     bind_act (invoice_of o1) (\<lambda>iv. ret (Blob 200 ''application/pdf'' (RenderPDF E iv)))))"

definition PublicInvoice ::
  "'z app_env_scheme \<Rightarrow> storage \<Rightarrow> string \<Rightarrow> (string \<Rightarrow> string) \<Rightarrow> order_reply response go" where
  "PublicInvoice E S param query =
     bind_act (parseUUID E ''id'' param) (\<lambda>i.
     bind_act (map_err ordersErr (repo_GetByID E i)) (\<lambda>o0.
     bind_act (attachProofURLs S o0) (\<lambda>o1.
     bind_act (invoice_of o1) (\<lambda>iv.
     if query ''format'' = ''pdf'' then ret (Blob 200 ''application/pdf'' (RenderPDF E iv))
     else ret (JSON 200 (R_invoice iv))))))"

definition PublicUploadPayment ::
  "'z env_scheme \<Rightarrow> storage \<Rightarrow> string \<Rightarrow> upload option \<Rightarrow> order_reply response go" where
  "PublicUploadPayment E S param up =
     bind_act (parseUUID E ''id'' param) (\<lambda>i.
     bind_act (map_err ordersErr (repo_GetByID E i)) (\<lambda>o1.
     bind_act (checked_upload AllowedProofMIME ''missing 'proof' file'' ''file exceeds maximum size''
                 ''unsupported file type: '' ''cannot read upload'' up) (\<lambda>(f, src).
     bind_act (attempt (st_Put S (od_tenant o1) ''payments'' (up_filename f) (up_type f) src)) (\<lambda>r.
     case r of
       Inl e \<Rightarrow> raise (BadRequest (err_text e))
     | Inr key \<Rightarrow>
         bind_act (AddPaymentProof E i key (od_total o1)) (\<lambda>p. ret (JSON 201 (R_payment p)))))))"

section \<open>What the handlers do to the tables\<close>

lemma reads_parseUUID: "reads (parseUUID E name s)"
  unfolding parseUUID_def by (intro reads_combinators)

lemma reads_invoice_of: "reads (invoice_of o1)"
  unfolding invoice_of_def seller_lookup_def TenantByID_def by (intro reads_combinators reads_tenantByQuery)

lemma reads_order_page: "reads (order_page E ctx ss p)"
  unfolding order_page_def by (intro reads_combinators reads_orders)

lemma scoped_order_handlers:
  "keeps (scoped (tid ctx)) (order_list E ctx q)" "keeps (scoped (tid ctx)) (listPending E ctx q)"
  "keeps (scoped (tid ctx)) (order_update E ctx param inp)" "keeps (scoped (tid ctx)) (setStatus E ctx param st)"
  "keeps (scoped (tid ctx)) (order_delete E ctx param)" "keeps (scoped (tid ctx)) (verifyPayment E ctx param acc)"
  unfolding order_list_def listPending_def order_update_def setStatus_def order_delete_def verifyPayment_def Let_def
  by (intro scoped_rules reads_parseUUID [THEN scoped_reads] reads_order_page [THEN scoped_reads]
      scoped_UpdateDetails scoped_UpdateStatus scoped_order_Delete scoped_VerifyPayment)+

context object_store
begin

lemma scoped_order_store_handlers:
  "keeps (scoped (tid ctx)) (order_create E S ctx body)" "keeps (scoped (tid ctx)) (order_get E S ctx param)"
  "keeps (scoped (tid ctx)) (invoicePDF F S ctx param)"
  unfolding order_create_def order_get_def invoicePDF_def
  by (intro scoped_rules scoped_CreateAdmin reads_parseUUID [THEN scoped_reads] reads_order_Get [THEN scoped_reads]
      reads_invoice_of [THEN scoped_reads])+

lemma reads_PublicInvoice: "reads (PublicInvoice F S param q)"
  unfolding PublicInvoice_def
  by (intro reads_combinators reads_parseUUID reads_orders reads_attachProofURLs reads_invoice_of)

end

end
