(* ===== verification/OrderLife.thy ===== *)
theory OrderLife
  imports OrdersApi
begin

text \<open>
  The life of an order: what \<open>UpdateStatus\<close> does on every branch, that the status of an order
  moves along \<open>transitions\<close> whichever operation of the package runs, that an open order can
  be shipped, and what the expiry sweep does.
\<close>

section \<open>The status machine\<close>

definition full_order :: "'z env_scheme \<Rightarrow> db \<Rightarrow> order_row \<Rightarrow> order" where
  "full_order E d r =
     (order_of_row E r)\<lparr>od_items := map (item_of_row E) (sort_key it_id (filter (\<lambda>i. it_order i = or_id r) (order_items d))),
        od_payments := map (payment_of_row E) (order_desc pm_created (filter (\<lambda>p. pm_order p = or_id r) (payments d)))\<rparr>"

lemma full_order_simps [simp]:
  "od_id (full_order E d r) = or_id r" "od_tenant (full_order E d r) = or_tenant r"
  "od_status (full_order E d r) = or_status r" "od_total (full_order E d r) = e_num_dec E (or_total r)"
  by (simp_all add: full_order_def order_of_row_def)

lemma loadChildren_ok:
  "w_faults w = [] \<Longrightarrow> loadChildren E (order_of_row E r) w = (w, Inr (full_order E (w_db w) r))"
  by (simp add: loadChildren_def bind_act_def sel_ok full_order_def order_of_row_def)

lemma repo_Get_ok:
  "w_faults w = [] \<Longrightarrow>
   repo_Get E t i w = (w, case find (own_order t i) (orders (w_db w)) of
     None \<Rightarrow> Inl (ErrNotFound POrders) | Some r \<Rightarrow> Inr (full_order E (w_db w) r))"
  by (simp add: repo_Get_def bind_act_def query_row_ok loadChildren_ok split: option.splits)

lemma CanTransition_iff:
  "CanTransition s t \<longleftrightarrow>
     s = ''pending'' \<and> t \<in> {''payment_received'', ''cancelled'', ''expired''} \<or>
     s = ''payment_received'' \<and> t \<in> {''payment_accepted'', ''rejected'', ''cancelled''} \<or>
     s = ''payment_accepted'' \<and> t \<in> {''shipped'', ''cancelled''} \<or>
     s = ''rejected'' \<and> t = ''payment_received''"
proof -
  have "transitions s =
      (if s = ''pending'' then [''payment_received'', ''cancelled'', ''expired'']
       else if s = ''payment_received'' then [''payment_accepted'', ''rejected'', ''cancelled'']
       else if s = ''payment_accepted'' then [''shipped'', ''cancelled'']
       else if s = ''rejected'' then [''payment_received''] else [])"
    by (simp add: transitions_def)
  then have table: "CanTransition s t \<longleftrightarrow>
      (if s = ''pending'' then t = ''payment_received'' \<or> t = ''cancelled'' \<or> t = ''expired''
       else if s = ''payment_received'' then t = ''payment_accepted'' \<or> t = ''rejected'' \<or> t = ''cancelled''
       else if s = ''payment_accepted'' then t = ''shipped'' \<or> t = ''cancelled''
       else s = ''rejected'' \<and> t = ''payment_received'')"
    by (simp add: CanTransition_def eq_commute)
  show ?thesis unfolding table by simp
qed

lemma CanTransition_status: "CanTransition s t \<Longrightarrow> t \<in> set order_statuses"
  by (auto simp: CanTransition_iff order_statuses_def)

lemma db_ok_orders:
  assumes "db_ok d" and "\<And>r. P r \<Longrightarrow> or_id (f r) = or_id r \<and> or_tenant (f r) = or_tenant r \<and> or_customer (f r) = or_customer r \<and>
      or_total (f r) = or_total r \<and> or_status (f r) \<in> set order_statuses"
  shows "db_ok (d\<lparr>orders := update_rows P f (orders d)\<rparr>)"
proof -
  have ids: "map or_id (update_rows P f (orders d)) = map or_id (orders d)"
    using assms(2) by (simp add: update_rows_def)
  then have idset: "or_id ` set (update_rows P f (orders d)) = or_id ` set (orders d)" by (metis set_map)
  have "list_all (\<lambda>r. fk (map tn_id (tenants d)) (or_tenant r) \<and> fk_opt (map cu_id (customers d)) (or_customer r) \<and>
      or_status r \<in> set order_statuses \<and> 0 \<le> or_total r \<and> num12_2 (or_total r)) (update_rows P f (orders d))"
    using assms by (auto simp: list_all_iff update_rows_def db_ok_def orders_ok_def)
  with assms(1) ids idset show ?thesis
    by (simp add: db_ok_def tenants_ok_def tokens_ok_def categories_ok_def products_ok_def customers_ok_def
        coupons_ok_def orders_ok_def items_ok_def payments_ok_def fk_def)
qed

definition with_status :: "uuid \<Rightarrow> uuid \<Rightarrow> string \<Rightarrow> world \<Rightarrow> world" where
  "with_status t i s w =
     w\<lparr>w_db := (w_db w)\<lparr>orders := update_rows (own_order t i) (\<lambda>r. r\<lparr>or_status := s\<rparr>) (orders (w_db w))\<rparr>\<rparr>"

lemma with_status_simps [simp]:
  "w_faults (with_status t i s w) = w_faults w" "w_now (with_status t i s w) = w_now w"
  by (simp_all add: with_status_def)

lemma find_with_status:
  "find (own_order t i) (orders (w_db (with_status t i s w))) =
     map_option (\<lambda>r. r\<lparr>or_status := s\<rparr>) (find (own_order t i) (orders (w_db w)))"
proof -
  have "find (own_order t i) (update_rows (own_order t i) (\<lambda>r. r\<lparr>or_status := s\<rparr>) rs) =
      map_option (\<lambda>r. r\<lparr>or_status := s\<rparr>) (find (own_order t i) rs)" for rs
    by (induction rs) (auto simp: update_rows_def own_order_def)
  then show ?thesis by (simp add: with_status_def)
qed

lemma db_ok_with_status: "db_ok (w_db w) \<Longrightarrow> s \<in> set order_statuses \<Longrightarrow> db_ok (w_db (with_status t i s w))"
  by (simp add: with_status_def db_ok_orders)

lemma repo_UpdateStatus_ok:
  assumes "w_faults w = []" and "db_ok (w_db w)" and "find (own_order t i) (orders (w_db w)) = Some r"
    and "s \<in> set order_statuses"
  shows "repo_UpdateStatus t i s w = (with_status t i s w, Inr ())"
proof -
  have aff: "affected (own_order t i) (orders (w_db w)) \<noteq> 0"
    using find_Some_iff' [OF assms(3)] by (auto simp: affected_0_iff)
  have ok: "db_ok ((w_db w)\<lparr>orders := update_rows (own_order t i) (\<lambda>r. r\<lparr>or_status := s\<rparr>) (orders (w_db w))\<rparr>)"
    using db_ok_with_status [OF assms(2,4), of t i] by (simp add: with_status_def)
  have "sql (\<lambda>d. commit (affected (own_order t i) (orders d))
       (d\<lparr>orders := update_rows (own_order t i) (\<lambda>r. r\<lparr>or_status := s\<rparr>) (orders d)\<rparr>)) w
     = (with_status t i s w, Inr (affected (own_order t i) (orders (w_db w))))"
    unfolding sql_ok [OF assms(1)] commit_def with_status_def using ok by simp
  with aff show ?thesis unfolding repo_UpdateStatus_def affecting_run by simp
qed

lemma ordersErr_NotFound [simp]: "ordersErr (ErrNotFound POrders) = NotFound ''order not found''"
  by (simp add: ordersErr_def mapErr_def)

text \<open>C11: A change of status does what the table of transitions says and nothing else. An order that
  is not the tenant's answers 404; the present status answers the order and changes nothing; a
  status that the table does not allow answers 400; an allowed one changes the status of that
  order, no other row of any table, and answers the order with the new status.\<close>

theorem update_status_exact:
  assumes "w_faults w = []" and "db_ok (w_db w)"
  shows "UpdateStatus E t i to w =
    (case find (own_order t i) (orders (w_db w)) of
       None \<Rightarrow> (w, Inl (NotFound ''order not found''))
     | Some r \<Rightarrow>
         if or_status r = to then (w, Inr (full_order E (w_db w) r))
         else if to \<in> set (transitions (or_status r))
         then (with_status t i to w, Inr (full_order E (w_db (with_status t i to w)) (r\<lparr>or_status := to\<rparr>)))
         else (w, Inl (BadRequest (''invalid status transition: '' @ or_status r @ '' -> '' @ to))))"
proof (cases "find (own_order t i) (orders (w_db w))")
  case None
  then show ?thesis
    using assms by (simp add: UpdateStatus_def bind_act_def map_err_def repo_Get_ok)
next
  case (Some r)
  then have get: "map_err ordersErr (repo_Get E t i) w = (w, Inr (full_order E (w_db w) r))"
    using assms by (simp add: map_err_def repo_Get_ok)
  have can: "CanTransition (or_status r) to \<longleftrightarrow> to \<in> set (transitions (or_status r))"
    by (auto simp: CanTransition_def list_ex_iff)
  show ?thesis
  proof (cases "or_status r = to \<or> \<not> CanTransition (or_status r) to")
    case True
    then show ?thesis using get can by (auto simp: UpdateStatus_def Some)
  next
    case False
    then have up: "map_err ordersErr (repo_UpdateStatus t i to) w = (with_status t i to w, Inr ())"
      using repo_UpdateStatus_ok [OF assms Some CanTransition_status, of "or_status r" to] by simp
    have "repo_Get E t i (with_status t i to w) =
        (with_status t i to w, Inr (full_order E (w_db (with_status t i to w)) (r\<lparr>or_status := to\<rparr>)))"
      using assms by (simp add: repo_Get_ok find_with_status Some)
    then show ?thesis using get up can False by (simp add: UpdateStatus_def Some)
  qed
qed


definition sample_address :: shipping_address where
  "sample_address = \<lparr>sa_mailing_addr = ''1 Jalan'', sa_mailing_addr2 = '''', sa_city = ''Ipoh'', sa_postcode = ''30000'',
     sa_state = ''Perak''\<rparr>"

definition sample_order :: order_row where
  "sample_order = \<lparr>or_id = 9, or_tenant = 7, or_customer = None, or_status = ''pending'', or_full_name = ''Siti'',
     or_email = ''s@x'', or_contact_no = ''012'', or_shipping = sample_address, or_notes = '''', or_total = 500,
     or_expired = 100, or_created = 0\<rparr>"

definition sample_orders :: db where
  "sample_orders = sample_db\<lparr>orders := [sample_order]\<rparr>"

lemma sample_orders_ok: "db_ok sample_orders"
  by (simp add: db_ok_defs sample_orders_def sample_order_def sample_db_def empty_db_def sample_tenant_def
      order_statuses_def)

lemma sample_orders_find: "find (own_order 7 9) (orders (w_db (sample_world sample_orders))) = Some sample_order"
  by (simp add: sample_world_def sample_orders_def own_order_def sample_order_def)

lemma sample_world_simps [simp]:
  "w_faults (sample_world d) = []" "w_db (sample_world d) = d"
  by (simp_all add: sample_world_def)

theorem update_status_exact_witness:
  "fst (UpdateStatus (sample_env sample_claims) 7 9 ''cancelled'' (sample_world sample_orders)) =
     with_status 7 9 ''cancelled'' (sample_world sample_orders)"
  using update_status_exact [of "sample_world sample_orders" "sample_env sample_claims" 7 9 "''cancelled''"]
    sample_orders_ok sample_orders_find
  by (simp add: sample_order_def transitions_def)

section \<open>The life of an order\<close>

text \<open>
  \<open>advances\<close>: every order is still there, and its status is one that the table of transitions
  reaches. Terminal statuses reach only themselves.
\<close>

definition reaches :: "string \<Rightarrow> string \<Rightarrow> bool" where
  "reaches s t \<longleftrightarrow> CanTransition\<^sup>*\<^sup>* s t"

definition advances_db :: "db \<Rightarrow> db \<Rightarrow> bool" where
  "advances_db d d' \<longleftrightarrow>
     (db_ok d \<longrightarrow> db_ok d' \<and> (\<forall>r \<in> set (orders d). \<exists>q \<in> set (orders d').
        or_id q = or_id r \<and> or_tenant q = or_tenant r \<and> reaches (or_status r) (or_status q)))"

definition advances :: "world \<Rightarrow> world \<Rightarrow> bool" where
  "advances = on_db advances_db"

lemma reaches_refl [simp]: "reaches s s"
  by (simp add: reaches_def)

lemma reaches_trans: "reaches s t \<Longrightarrow> reaches t u \<Longrightarrow> reaches s u"
  by (simp add: reaches_def)

lemma reaches_step: "CanTransition s t \<Longrightarrow> reaches s t"
  by (simp add: reaches_def)

lemma reaches_terminal: "reaches s t \<Longrightarrow> transitions s = [] \<Longrightarrow> t = s"
  unfolding reaches_def by (erule converse_rtranclpE) (auto simp: CanTransition_def)

lemma advances_db_refl [simp]: "advances_db d d"
  by (auto simp: advances_db_def)

lemma advances_db_trans: "advances_db d e \<Longrightarrow> advances_db e f \<Longrightarrow> advances_db d f"
  unfolding advances_db_def by (metis reaches_trans)

interpretation adv: transition advances
  by unfold_locales (auto simp: advances_def on_db_def intro: advances_db_trans)

lemma advances_reads: "reads m \<Longrightarrow> keeps advances m"
  unfolding advances_def by (rule reads_keeps) simp_all

lemma advances_sql: "(\<And>d x d'. q d = Inr (x, d') \<Longrightarrow> advances_db d d') \<Longrightarrow> keeps advances (sql q)"
  unfolding advances_def by (rule keeps_sql) simp_all

lemma advances_transact: "keeps advances m \<Longrightarrow> keeps advances (transact m)"
  unfolding advances_def by (rule keeps_transact) simp_all

lemma advances_db_superset: "db_ok d' \<Longrightarrow> set (orders d) \<subseteq> set (orders d') \<Longrightarrow> advances_db d d'"
  unfolding advances_db_def using reaches_refl by blast

lemma advances_db_update:
  assumes ok: "db_ok (d\<lparr>orders := update_rows P f (orders d)\<rparr>)"
    and f: "\<And>r. r \<in> set (orders d) \<Longrightarrow> P r \<Longrightarrow>
    or_id (f r) = or_id r \<and> or_tenant (f r) = or_tenant r \<and> reaches (or_status r) (or_status (f r))"
  shows "advances_db d (d\<lparr>orders := update_rows P f (orders d)\<rparr>)"
  unfolding advances_db_def
proof (intro impI conjI ballI ok)
  fix r assume r: "r \<in> set (orders d)"
  have "(if P r then f r else r) \<in> set (update_rows P f (orders d))" using r by (auto simp: update_rows_def)
  then show "\<exists>q \<in> set (orders (d\<lparr>orders := update_rows P f (orders d)\<rparr>)).
      or_id q = or_id r \<and> or_tenant q = or_tenant r \<and> reaches (or_status r) (or_status q)"
    using f [OF r] by (intro bexI [of _ "if P r then f r else r"]) auto
qed

lemmas advances_rules = advances_transact adv.keeps_combinators adv.keeps_Bind adv.keeps_valid_or
  reads_sel [THEN advances_reads] reads_now [THEN advances_reads] reads_new_uuid [THEN advances_reads]
  reads_num_arg [THEN advances_reads] reads_Emit [THEN advances_reads] reads_orders [THEN advances_reads]
  reads_parseUUID [THEN advances_reads]

lemma advances_insert:
  "keeps advances (insert_order E o1)" "keeps advances (insert_item E i it)" "keeps advances (AddPayment E i key x)"
  "keeps advances (SetPaymentStatus t i s)"
  unfolding insert_order_def insert_item_def AddPayment_def SetPaymentStatus_def affecting_def Let_def
  by (intro advances_rules advances_sql; auto intro: advances_db_superset)+

lemma advances_repo_Create: "keeps advances (repo_Create E o1)"
  unfolding repo_Create_def by (intro advances_rules advances_insert)

lemma advances_ExpireStale: "keeps advances ExpireStale"
  unfolding ExpireStale_def
  by (intro advances_rules advances_sql)
    (auto simp: stale_def intro!: advances_db_update reaches_step simp: CanTransition_iff)

lemma advances_repo_UpdateDetails: "keeps advances (repo_UpdateDetails E o1)"
  unfolding repo_UpdateDetails_def affecting_def
  by (intro advances_rules advances_sql) (auto intro!: advances_db_update)

text \<open>A status is written after it was read, with no write to the orders between.\<close>

lemma advances_after:
  assumes m: "reads m" and f: "\<And>w v x. m w = (v, Inr x) \<Longrightarrow> advances v (fst (f x v))"
  shows "keeps advances (bind_act m f)"
proof (rule keepsI)
  fix w
  obtain v r where run: "m w = (v, r)" by fastforce
  then have "advances w v" using keepsD' [OF advances_reads [OF m]] by blast
  then show "advances w (fst (bind_act m f w))"
    using run f [of w v] adv.chain by (cases r) auto
qed

lemma advances_bind_at:
  assumes "advances w (fst (m w))" and "\<And>x. keeps advances (f x)"
  shows "advances w (fst (bind_act m f w))"
proof -
  obtain v r where run: "m w = (v, r)" by fastforce
  show ?thesis
  proof (cases r)
    case (Inr x)
    have "advances v (fst (f x v))" by (rule keepsD [OF assms(2)])
    with assms(1) run Inr adv.chain show ?thesis by fastforce
  qed (use assms(1) run in simp)
qed

lemma advances_repo_UpdateStatus:
  assumes "db_ok (w_db w) \<Longrightarrow> \<forall>r \<in> set (orders (w_db w)). own_order t i r \<longrightarrow> CanTransition (or_status r) s"
  shows "advances w (fst (repo_UpdateStatus t i s w))"
proof -
  obtain v q where run: "sql (\<lambda>d. commit (affected (own_order t i) (orders d))
      (d\<lparr>orders := update_rows (own_order t i) (\<lambda>r. r\<lparr>or_status := s\<rparr>) (orders d)\<rparr>)) w = (v, q)" by fastforce
  then have "fst (repo_UpdateStatus t i s w) = v"
    unfolding repo_UpdateStatus_def affecting_run by (cases q) simp_all
  moreover from sql_cases [OF run] have "advances_db (w_db w) (w_db v)"
  proof (elim disjE exE conjE)
    fix x assume "commit (affected (own_order t i) (orders (w_db w)))
      ((w_db w)\<lparr>orders := update_rows (own_order t i) (\<lambda>r. r\<lparr>or_status := s\<rparr>) (orders (w_db w))\<rparr>) = Inr (x, w_db v)"
    then have v: "w_db v = (w_db w)\<lparr>orders := update_rows (own_order t i) (\<lambda>r. r\<lparr>or_status := s\<rparr>) (orders (w_db w))\<rparr>"
      and ok: "db_ok (w_db v)" by simp_all
    show ?thesis
    proof (cases "db_ok (w_db w)")
      case True
      show ?thesis
        unfolding v by (rule advances_db_update) (use assms [OF True] ok v in \<open>auto intro: reaches_step\<close>)
    qed (simp add: advances_db_def)
  qed simp
  ultimately show ?thesis by (simp add: advances_def on_db_def)
qed

lemma own_order_unique:
  assumes "db_ok d" and "find (own_order t i) (orders d) = Some r" and "q \<in> set (orders d)" and "own_order t i q"
  shows "q = r"
proof -
  have "distinct (map or_id (orders d))" using assms(1) by (simp add: db_ok_def orders_ok_def)
  moreover have "r \<in> set (orders d)" "own_order t i r" using find_Some_iff' [OF assms(2)] by simp_all
  ultimately show ?thesis using assms(3,4) by (auto simp: own_order_def intro: distinct_map_unique)
qed

lemma advances_UpdateStatus: "keeps advances (UpdateStatus E t i s)"
  unfolding UpdateStatus_def
proof (rule advances_after)
  show "reads (map_err ordersErr (repo_Get E t i))" by (intro reads_combinators reads_orders)
next
  fix w v o1
  assume "map_err ordersErr (repo_Get E t i) w = (v, Inr o1)"
  then have get: "repo_Get E t i w = (v, Inr o1)" by simp
  from repo_Get_InrD [OF get] obtain r where v: "w_db v = w_db w"
    and r: "find (own_order t i) (orders (w_db w)) = Some r" "od_status o1 = or_status r" by auto
  have "advances v (fst (repo_UpdateStatus t i s v))" if "CanTransition (od_status o1) s"
  proof (rule advances_repo_UpdateStatus, intro ballI impI)
    fix q assume "db_ok (w_db v)" "q \<in> set (orders (w_db v))" "own_order t i q"
    then have "q = r" using own_order_unique [OF _ r(1)] by (simp add: v)
    with that r show "CanTransition (or_status q) s" by simp
  qed
  moreover have "keeps advances (repo_Get E t i)" by (intro advances_rules)
  ultimately have "advances v (fst (bind_act (map_err ordersErr (repo_UpdateStatus t i s)) (\<lambda>_. repo_Get E t i) v))"
    if "CanTransition (od_status o1) s"
    using that by (intro advances_bind_at) simp_all
  then show "advances v (fst ((if od_status o1 = s then ret o1
       else if \<not> CanTransition (od_status o1) s
       then raise (BadRequest (''invalid status transition: '' @ od_status o1 @ '' -> '' @ s))
       else bind_act (map_err ordersErr (repo_UpdateStatus t i s)) (\<lambda>_. repo_Get E t i)) v))"
    using adv.stay by simp
qed


lemma repo_GetByID_InrD:
  assumes run: "repo_GetByID E i w = (v, Inr o1)"
  shows "w_db v = w_db w \<and> (\<exists>r. find (\<lambda>r. or_id r = i) (orders (w_db w)) = Some r \<and>
    od_id o1 = i \<and> od_tenant o1 = or_tenant r \<and> od_status o1 = or_status r \<and> od_total o1 = e_num_dec E (or_total r))"
proof -
  obtain o0 u where q: "query_row POrders (\<lambda>d. map_option (order_of_row E) (find (\<lambda>r. or_id r = i) (orders d))) w = (u, Inr o0)"
    and l: "loadChildren E o0 u = (v, Inr o1)" using run unfolding repo_GetByID_def by (auto elim: bind_InrE)
  obtain r where r: "find (\<lambda>r. or_id r = i) (orders (w_db w)) = Some r" "o0 = order_of_row E r"
    using query_row_InrD [OF q] by auto
  have "or_id r = i" using find_Some_iff' [OF r(1)] by simp
  moreover have "w_db v = w_db w" using reads_db' [OF reads_orders(2) run] .
  ultimately show ?thesis using r loadChildren_InrD [OF l] by (auto simp: order_of_row_def)
qed

lemma same_reads: "reads m \<Longrightarrow> keeps (same (\<lambda>w. g (w_db w))) m"
  by (simp add: keeps_def same_def same_db_def)

lemma same_sql:
  "(\<And>d x d'. q d = Inr (x, d') \<Longrightarrow> g d' = g d) \<Longrightarrow> keeps (same (\<lambda>w. g (w_db w))) (sql q)"
  using keeps_sql [of "\<lambda>d d'. g d' = g d" q] by (simp add: keeps_def same_def on_db_def)

lemmas same_rules = const.keeps_combinators const.keeps_Bind const.keeps_valid_or
  reads_sel [THEN same_reads] reads_now [THEN same_reads] reads_new_uuid [THEN same_reads]
  reads_num_arg [THEN same_reads] reads_Emit [THEN same_reads]

lemma AddPayment_orders: "orders (w_db (fst (AddPayment E i key x w))) = orders (w_db w)"
proof -
  have "keeps (same (\<lambda>w. orders (w_db w))) (AddPayment E i key x)"
    unfolding AddPayment_def Let_def by (intro same_rules same_sql) auto
  then show ?thesis by (simp add: keeps_def same_def)
qed

lemma AddPaymentProof_run:
  assumes run: "map_err ordersErr (repo_GetByID E i) w = (v, Inr o1)"
  shows "w_db (fst (AddPaymentProof E i key x w)) =
    w_db (fst (bind_act (AddPayment E i key x) (\<lambda>p. if od_status o1 = ''pending''
      then ignore (repo_UpdateStatus (od_tenant o1) i ''payment_received'') else ret ()) v))"
proof -
  obtain u q where pay: "AddPayment E i key x v = (u, q)" by fastforce
  show ?thesis
    unfolding AddPaymentProof_def bind_run_Inr [of "map_err ordersErr (repo_GetByID E i)", OF run]
    by (cases q) (simp_all add: pay bind_act_def [of "if _ then _ else _"] Emit_def emit_run ignore_run now_run
        bind_act_def [of now] bind_act_def [of "emit _"])
qed

lemma advances_AddPaymentProof: "keeps advances (AddPaymentProof E i key x)"
proof (rule keepsI)
  fix w
  obtain v q where run: "map_err ordersErr (repo_GetByID E i) w = (v, q)" by fastforce
  have "reads (map_err ordersErr (repo_GetByID E i))" by (intro reads_combinators reads_orders)
  then have v: "w_db v = w_db w" using run by (rule reads_db')
  show "advances w (fst (AddPaymentProof E i key x w))"
  proof (cases q)
    case (Inl e)
    with run v show ?thesis by (simp add: AddPaymentProof_def advances_def on_db_def)
  next
    case (Inr o1)
    with run have get: "repo_GetByID E i w = (v, Inr o1)" by simp
    from repo_GetByID_InrD [OF get] obtain r where r: "find (\<lambda>r. or_id r = i) (orders (w_db w)) = Some r"
      "od_status o1 = or_status r" "od_tenant o1 = or_tenant r" by auto
    have "keeps advances (AddPayment E i key x)" by (rule advances_insert)
    then have 1: "advances v (fst (AddPayment E i key x v))" by (rule keepsD)
    obtain u p where pay: "AddPayment E i key x v = (u, p)" by fastforce
    have u: "orders (w_db u) = orders (w_db w)" using AddPayment_orders [of E i key x v] pay v by simp
    have "advances u (fst (repo_UpdateStatus (od_tenant o1) i ''payment_received'' u))" if "od_status o1 = ''pending''"
    proof (rule advances_repo_UpdateStatus, intro ballI impI)
      fix q assume "db_ok (w_db u)" and q: "q \<in> set (orders (w_db u))" "own_order (od_tenant o1) i q"
      then have "distinct (map or_id (orders (w_db w)))" by (simp add: db_ok_def orders_ok_def u)
      with q r(1) have "q = r" by (auto simp: u own_order_def dest!: find_Some_iff' intro: distinct_map_unique)
      with that r show "CanTransition (or_status q) ''payment_received''" by (simp add: CanTransition_def transitions_def)
    qed
    then have "advances v (fst (bind_act (AddPayment E i key x) (\<lambda>p. if od_status o1 = ''pending''
      then ignore (repo_UpdateStatus (od_tenant o1) i ''payment_received'') else ret ()) v))"
      using 1 pay adv.chain by (cases p) (auto simp: ignore_run)
    with AddPaymentProof_run [OF run [unfolded Inr]] show ?thesis using v by (simp add: advances_def on_db_def)
  qed
qed

lemma advances_UpdateDetails: "keeps advances (UpdateDetails E t i inp)"
  unfolding UpdateDetails_def Let_def
  by (intro advances_rules advances_repo_UpdateDetails)

lemma advances_VerifyPayment: "keeps advances (VerifyPayment t i acc)"
  unfolding VerifyPayment_def by (intro advances_rules advances_insert)

lemma advances_order_handlers:
  "keeps advances (order_list E ctx q)" "keeps advances (listPending E ctx q)"
  "keeps advances (order_update E ctx param inp)" "keeps advances (setStatus E ctx param st)"
  "keeps advances (verifyPayment E ctx param acc)"
  unfolding order_list_def listPending_def order_update_def setStatus_def verifyPayment_def Let_def
  by (intro advances_rules advances_UpdateDetails advances_UpdateStatus advances_VerifyPayment
      reads_order_page [THEN advances_reads])+

context object_store
begin

lemma advances_CreateAdmin: "keeps advances (CreateAdmin E S t i)"
  unfolding CreateAdmin_def
  by (intro advances_rules advances_repo_Create reads_buildItems [THEN advances_reads])

lemma advances_GuestCheckout: "keeps advances (GuestCheckout E S t i)"
  unfolding GuestCheckout_def by (intro advances_rules advances_CreateAdmin)

lemma advances_store_handlers:
  "keeps advances (order_create E S ctx body)" "keeps advances (order_get E S ctx param)"
  "keeps advances (invoicePDF F S ctx param)" "keeps advances (PublicInvoice F S param q)"
  "keeps advances (PublicUploadPayment E S param up)"
  unfolding order_create_def order_get_def invoicePDF_def PublicUploadPayment_def checked_upload_def
  by (intro advances_rules advances_CreateAdmin advances_AddPaymentProof reads_order_Get [THEN advances_reads]
      reads_invoice_of [THEN advances_reads] reads_PublicInvoice [THEN advances_reads] store_reads [THEN advances_reads])+

end


section \<open>Every open order can be shipped\<close>

definition way_to_shipped :: "string \<Rightarrow> string list" where
  "way_to_shipped s =
     (if s = ''pending'' \<or> s = ''rejected'' then [''payment_received'', ''payment_accepted'', ''shipped'']
      else if s = ''payment_received'' then [''payment_accepted'', ''shipped''] else [''shipped''])"

definition drive :: "'z env_scheme \<Rightarrow> uuid \<Rightarrow> uuid \<Rightarrow> string list \<Rightarrow> order list go" where
  "drive E t i ss = for_each ss (UpdateStatus E t i)"

lemma drive_step:
  assumes "w_faults w = []" and "db_ok (w_db w)" and "find (own_order t i) (orders (w_db w)) = Some r"
    and "CanTransition (or_status r) s"
  shows "\<exists>o1. UpdateStatus E t i s w = (with_status t i s w, Inr o1) \<and> od_status o1 = s"
proof -
  have "s \<in> set (transitions (or_status r))" using assms(4) by (auto simp: CanTransition_def list_ex_iff)
  moreover have "or_status r \<noteq> s" using assms(4) by (auto simp: CanTransition_iff)
  moreover have get: "map_err ordersErr (repo_Get E t i) w = (w, Inr (full_order E (w_db w) r))"
    using assms by (simp add: map_err_def repo_Get_ok)
  moreover have up: "map_err ordersErr (repo_UpdateStatus t i s) w = (with_status t i s w, Inr ())"
    using repo_UpdateStatus_ok [OF assms(1-3) CanTransition_status [OF assms(4)]] by simp
  ultimately show ?thesis
    using assms by (simp add: UpdateStatus_def repo_Get_ok find_with_status)
qed

lemma drive_Cons:
  assumes "w_faults w = []" and "db_ok (w_db w)" and "find (own_order t i) (orders (w_db w)) = Some r"
    and "CanTransition (or_status r) s"
    and "\<And>v. w_faults v = [] \<Longrightarrow> db_ok (w_db v) \<Longrightarrow>
      find (own_order t i) (orders (w_db v)) = Some (r\<lparr>or_status := s\<rparr>) \<Longrightarrow>
      \<exists>os u. drive E t i ss v = (u, Inr os) \<and> map od_status os = ss"
  shows "\<exists>os u. drive E t i (s # ss) w = (u, Inr os) \<and> map od_status os = s # ss"
proof -
  obtain o1 where step: "UpdateStatus E t i s w = (with_status t i s w, Inr o1)" and o1: "od_status o1 = s"
    using drive_step [OF assms(1-4)] by blast
  have "\<exists>os u. drive E t i ss (with_status t i s w) = (u, Inr os) \<and> map od_status os = ss"
    by (rule assms(5))
      (use assms(1-3) in \<open>simp_all add: find_with_status db_ok_with_status CanTransition_status [OF assms(4)]\<close>)
  then obtain os u where "drive E t i ss (with_status t i s w) = (u, Inr os)" "map od_status os = ss" by blast
  then show ?thesis using step o1 by (simp add: drive_def)
qed

lemma drive_Nil: "\<exists>os u. drive E t i [] w = (u, Inr os) \<and> map od_status os = []"
  by (simp add: drive_def)

text \<open>C19: An open order can be shipped: whatever its status is among pending, payment received,
  payment accepted and rejected, at most three changes of status by its seller lead to shipped,
  and each of them succeeds and answers the order with the status asked for.\<close>

theorem open_orders_ship:
  assumes "w_faults w = []" and "db_ok (w_db w)" and "find (own_order t i) (orders (w_db w)) = Some r"
    and "transitions (or_status r) \<noteq> []"
  shows "\<exists>os w'. drive E t i (way_to_shipped (or_status r)) w = (w', Inr os) \<and>
     map od_status os = way_to_shipped (or_status r) \<and> od_status (last os) = ''shipped'' \<and> length os \<le> 3"
proof -
  have open_status: "or_status r = ''pending'' \<or> or_status r = ''rejected'' \<or> or_status r = ''payment_received'' \<or>
      or_status r = ''payment_accepted''"
    using assms(4) by (auto simp: transitions_def split: if_splits)
  have last_two: "\<exists>os u. drive E t i [''shipped''] v = (u, Inr os) \<and> map od_status os = [''shipped'']"
    if "w_faults v = []" "db_ok (w_db v)" "find (own_order t i) (orders (w_db v)) = Some q"
      "or_status q = ''payment_accepted''" for v q
    by (rule drive_Cons [OF that(1-3)]) (simp_all add: that(4) CanTransition_iff drive_def)
  have middle: "\<exists>os u. drive E t i [''payment_accepted'', ''shipped''] v = (u, Inr os) \<and>
      map od_status os = [''payment_accepted'', ''shipped'']"
    if "w_faults v = []" "db_ok (w_db v)" "find (own_order t i) (orders (w_db v)) = Some q"
      "or_status q = ''payment_received''" for v q
    by (rule drive_Cons [OF that(1-3)], simp add: that(4) CanTransition_iff, erule (2) last_two, simp)
  have "\<exists>os u. drive E t i (way_to_shipped (or_status r)) w = (u, Inr os) \<and>
      map od_status os = way_to_shipped (or_status r)"
    using open_status
  proof (elim disjE)
    assume s: "or_status r = ''payment_accepted''"
    then show ?thesis using last_two [OF assms(1-3) s] by (simp add: way_to_shipped_def)
  next
    assume s: "or_status r = ''payment_received''"
    then show ?thesis using middle [OF assms(1-3) s] by (simp add: way_to_shipped_def)
  next
    assume s: "or_status r = ''pending''"
    have "\<exists>os u. drive E t i [''payment_received'', ''payment_accepted'', ''shipped''] w = (u, Inr os) \<and>
      map od_status os = [''payment_received'', ''payment_accepted'', ''shipped'']"
      by (rule drive_Cons [OF assms(1-3)], simp add: s CanTransition_iff, erule (2) middle, simp)
    then show ?thesis by (simp add: way_to_shipped_def s)
  next
    assume s: "or_status r = ''rejected''"
    have "\<exists>os u. drive E t i [''payment_received'', ''payment_accepted'', ''shipped''] w = (u, Inr os) \<and>
      map od_status os = [''payment_received'', ''payment_accepted'', ''shipped'']"
      by (rule drive_Cons [OF assms(1-3)], simp add: s CanTransition_iff, erule (2) middle, simp)
    then show ?thesis by (simp add: way_to_shipped_def s)
  qed
  then obtain os u where run: "drive E t i (way_to_shipped (or_status r)) w = (u, Inr os)"
    and os: "map od_status os = way_to_shipped (or_status r)" by blast
  have len: "length os = length (way_to_shipped (or_status r))" using os by (metis length_map)
  have ne: "os \<noteq> []" using len by (auto simp: way_to_shipped_def split: if_splits)
  then have "od_status (last os) = ''shipped''"
    using last_map [of os od_status] unfolding os by (simp add: way_to_shipped_def split: if_splits)
  with run os len show ?thesis by (auto simp: way_to_shipped_def split: if_splits)
qed

theorem open_orders_ship_witness:
  "\<exists>os w'. drive (sample_env sample_claims) 7 9 [''payment_received'', ''payment_accepted'', ''shipped'']
     (sample_world sample_orders) = (w', Inr os) \<and> od_status (last os) = ''shipped''"
  using open_orders_ship [OF _ _ sample_orders_find, of "sample_env sample_claims"] sample_orders_ok
  by (auto simp: sample_order_def transitions_def way_to_shipped_def)

section \<open>Expiry\<close>

definition expire_db :: "time \<Rightarrow> db \<Rightarrow> db" where
  "expire_db n d = d\<lparr>orders := update_rows (stale n) (\<lambda>r. r\<lparr>or_status := ''expired''\<rparr>) (orders d)\<rparr>"

lemma ExpireStale_ok:
  assumes "w_faults w = []" and "db_ok (w_db w)"
  shows "ExpireStale w = (w\<lparr>w_db := expire_db (w_now w) (w_db w)\<rparr>, Inr (affected (stale (w_now w)) (orders (w_db w))))"
proof -
  have "db_ok (expire_db (w_now w) (w_db w))"
    unfolding expire_db_def by (rule db_ok_orders [OF assms(2)]) (simp add: order_statuses_def)
  then show ?thesis
    by (simp add: ExpireStale_def bind_act_def now_run sql_ok assms(1) commit_def expire_db_def)
qed

text \<open>C20: The expiry sweep turns exactly the pending orders whose date lies before the present instant
  into expired ones, of every tenant, and answers their number; no other order and no other table
  changes, and running it again at the same instant finds nothing.\<close>

theorem expire_stale_exact:
  assumes "w_faults w = []" and "db_ok (w_db w)"
  shows "\<exists>w'. ExpireStale w = (w', Inr (length (filter (\<lambda>r. or_status r = ''pending'' \<and> or_expired r < w_now w) (orders (w_db w))))) \<and>
     w_db w' = (w_db w)\<lparr>orders := map (\<lambda>r. if or_status r = ''pending'' \<and> or_expired r < w_now w
        then r\<lparr>or_status := ''expired''\<rparr> else r) (orders (w_db w))\<rparr> \<and>
     ExpireStale w' = (w', Inr 0)"
proof -
  let ?w = "w\<lparr>w_db := expire_db (w_now w) (w_db w)\<rparr>"
  note run = ExpireStale_ok [OF assms]
  have ok: "db_ok (w_db ?w)"
    using db_ok_orders [OF assms(2), of "stale (w_now w)" "\<lambda>r. r\<lparr>or_status := ''expired''\<rparr>"]
    by (simp add: expire_db_def order_statuses_def)
  have none: "\<not> stale n r" if "r \<in> set (orders (expire_db n d))" for n d r
    using that by (auto simp: expire_db_def update_rows_def stale_def split: if_splits)
  have again: "expire_db (w_now w) (expire_db (w_now w) (w_db w)) = expire_db (w_now w) (w_db w)"
    using none update_rows_id [of "orders (expire_db (w_now w) (w_db w))" "stale (w_now w)" "\<lambda>r. r\<lparr>or_status := ''expired''\<rparr>"]
    by (simp add: expire_db_def [of "w_now w" "expire_db (w_now w) (w_db w)"])
  have "affected (stale (w_now w)) (orders (expire_db (w_now w) (w_db w))) = 0"
    using none by (simp add: affected_0_iff)
  then have "ExpireStale ?w = (?w, Inr 0)"
    using ExpireStale_ok [of ?w, OF _ ok] assms(1) by (simp add: again)
  moreover have "stale (w_now w) = (\<lambda>r. or_status r = ''pending'' \<and> or_expired r < w_now w)"
    by (rule ext) (simp add: stale_def)
  ultimately show ?thesis using run by (simp add: affected_def expire_db_def update_rows_def)
qed

theorem expire_stale_exact_witness:
  "\<exists>w'. ExpireStale ((sample_world sample_orders)\<lparr>w_now := 101\<rparr>) = (w', Inr 1) \<and>
     map or_status (orders (w_db w')) = [''expired'']"
  using expire_stale_exact [of "(sample_world sample_orders)\<lparr>w_now := 101\<rparr>"] sample_orders_ok
  by (auto simp: sample_orders_def sample_order_def)

end
