(* ===== verification/OrderCreation.thy ===== *)
theory OrderCreation
  imports OrderLife
begin

text \<open>
  What creating an order and paying for it do to the tables: the rows that a successful
  \<open>Create\<close> adds, that a failed one adds none, which price the public checkout takes, and
  the effect of a payment proof.
\<close>

section \<open>Creating an order\<close>

definition item_row_for :: "'z env_scheme \<Rightarrow> uuid \<Rightarrow> order_item \<Rightarrow> item_row \<Rightarrow> bool" where
  "item_row_for E orderID it r \<longleftrightarrow>
     it_order r = orderID \<and> it_product r = oi_product it \<and> it_sku r = oi_sku it \<and> it_name r = oi_name it \<and>
     it_quantity r = oi_quantity it \<and> e_num_enc E (oi_price it) = Some (it_unit_price r) \<and>
     e_num_enc E (oi_line it) = Some (it_line_total r)"

lemma insert_item_InrD:
  assumes "insert_item E i it v = (u, Inr it')"
  shows "\<exists>r. item_row_for E i it r \<and> it' = it\<lparr>oi_id := it_id r\<rparr> \<and>
    w_db u = (w_db v)\<lparr>order_items := order_items (w_db v) @ [r]\<rparr>"
proof -
  from assms obtain price line where num: "e_num_enc E (oi_price it) = Some price" "e_num_enc E (oi_line it) = Some line"
    by (auto simp: insert_item_def bind_act_def num_arg_run split: option.splits)
  let ?r = "\<lparr>it_id = e_uuid_gen E (w_seed v), it_order = i, it_product = oi_product it, it_sku = oi_sku it,
      it_name = oi_name it, it_quantity = oi_quantity it, it_unit_price = price, it_line_total = line\<rparr>"
  from assms num have "sql (\<lambda>d. commit (it\<lparr>oi_id := it_id ?r\<rparr>) (d\<lparr>order_items := order_items d @ [?r]\<rparr>))
      (v\<lparr>w_seed := Suc (w_seed v)\<rparr>) = (u, Inr it')"
    by (simp add: insert_item_def bind_act_def num_arg_run new_uuid_run Let_def)
  then have "it' = it\<lparr>oi_id := it_id ?r\<rparr>" "w_db u = (w_db v)\<lparr>order_items := order_items (w_db v) @ [?r]\<rparr>"
    by (auto elim!: sql_InrE)
  with num show ?thesis by (intro exI [of _ ?r]) (simp add: item_row_for_def)
qed

lemma insert_items_InrD:
  "for_each items (insert_item E i) v = (u, Inr items') \<Longrightarrow>
   \<exists>rs. list_all2 (item_row_for E i) items rs \<and> list_all2 (\<lambda>it r. it = it\<lparr>oi_id := it_id r\<rparr>) items' rs \<and>
     map (\<lambda>it. it\<lparr>oi_id := uuid_Nil\<rparr>) items' = map (\<lambda>it. it\<lparr>oi_id := uuid_Nil\<rparr>) items \<and>
     w_db u = (w_db v)\<lparr>order_items := order_items (w_db v) @ rs\<rparr>"
proof (induction items arbitrary: v items')
  case (Cons it items)
  then obtain it1 rest v1 where one: "insert_item E i it v = (v1, Inr it1)"
    and more: "for_each items (insert_item E i) v1 = (u, Inr rest)" and eq: "items' = it1 # rest"
    by (auto simp: bind_Inr_iff)
  from insert_item_InrD [OF one] obtain r where "item_row_for E i it r" "it1 = it\<lparr>oi_id := it_id r\<rparr>"
    "w_db v1 = (w_db v)\<lparr>order_items := order_items (w_db v) @ [r]\<rparr>" by blast
  moreover from Cons.IH [OF more] obtain rs where "list_all2 (item_row_for E i) items rs"
    "list_all2 (\<lambda>it r. it = it\<lparr>oi_id := it_id r\<rparr>) rest rs"
    "map (\<lambda>it. it\<lparr>oi_id := uuid_Nil\<rparr>) rest = map (\<lambda>it. it\<lparr>oi_id := uuid_Nil\<rparr>) items"
    "w_db u = (w_db v1)\<lparr>order_items := order_items (w_db v1) @ rs\<rparr>" by blast
  ultimately show ?case by (intro exI [of _ "r # rs"]) (simp add: eq)
qed simp

text \<open>What \<open>Create\<close> does to the tables when it succeeds.\<close>

lemma repo_Create_InrD:
  assumes "repo_Create E o0 w = (w', Inr o1)"
  shows "\<exists>r rs n. w_db w' = (w_db w)\<lparr>orders := orders (w_db w) @ [r], order_items := order_items (w_db w) @ rs\<rparr> \<and>
     or_id r = od_id o1 \<and> or_tenant r = od_tenant o0 \<and> or_status r = od_status o0 \<and>
     or_expired r = od_expired (priced (or_created r) o0) \<and> od_total o1 = od_total (priced n o0) \<and>
     e_num_enc E (od_total o1) = Some (or_total r) \<and> od_status o1 = od_status o0 \<and>
     list_all2 (item_row_for E (or_id r)) (line_totals (od_items o0)) rs \<and>
     map (\<lambda>it. it\<lparr>oi_id := uuid_Nil\<rparr>) (od_items o1) = map (\<lambda>it. it\<lparr>oi_id := uuid_Nil\<rparr>) (line_totals (od_items o0))"
proof -
  obtain v u where v: "w_db v = w_db w" and body: "bind_act now (\<lambda>n. bind_act (insert_order E (priced n o0)) (\<lambda>o1.
       bind_act (for_each (od_items o1) (insert_item E (od_id o1))) (\<lambda>items. ret (o1\<lparr>od_items := items\<rparr>)))) v = (u, Inr o1)"
    and u: "w_db w' = w_db u" by (rule transact_InrE [OF assms [unfolded repo_Create_def]])
  from body obtain v1 o2 items where ins: "insert_order E (priced (w_now v) o0) v = (v1, Inr o2)"
    and its: "for_each (od_items o2) (insert_item E (od_id o2)) v1 = (u, Inr items)" and o1: "o1 = o2\<lparr>od_items := items\<rparr>"
    by (auto simp: bind_act_def [of now] now_run elim!: bind_InrE)
  from ins obtain sen where sen: "e_num_enc E (od_total (priced (w_now v) o0)) = Some sen"
    and o2: "o2 = (priced (w_now v) o0)\<lparr>od_id := e_uuid_gen E (w_seed v), od_created := w_now v\<rparr>"
    and v1: "w_db v1 = (w_db v)\<lparr>orders := orders (w_db v) @ [order_row_of o2 sen]\<rparr>"
    by (rule insert_order_InrE)
  from insert_items_InrD [OF its] obtain rs where rows: "list_all2 (item_row_for E (od_id o2)) (od_items o2) rs"
    "map (\<lambda>it. it\<lparr>oi_id := uuid_Nil\<rparr>) items = map (\<lambda>it. it\<lparr>oi_id := uuid_Nil\<rparr>) (od_items o2)"
    "w_db u = (w_db v1)\<lparr>order_items := order_items (w_db v1) @ rs\<rparr>" by blast
  have "od_items (priced n o0) = line_totals (od_items o0)" "od_tenant (priced n o0) = od_tenant o0"
    "od_status (priced n o0) = od_status o0" for n by (simp_all add: priced_def Let_def)
  note p = this
  have o2s: "od_items o2 = line_totals (od_items o0)" "od_tenant o2 = od_tenant o0" "od_status o2 = od_status o0"
    "od_expired o2 = od_expired (priced (od_created o2) o0)" "od_total o2 = od_total (priced (w_now v) o0)"
    by (simp_all add: o2 p)
  let ?r = "order_row_of o2 sen"
  have r: "or_id ?r = od_id o2" "or_tenant ?r = od_tenant o0" "or_status ?r = od_status o0" "or_total ?r = sen"
    "or_expired ?r = od_expired (priced (or_created ?r) o0)"
    using o2s by (simp_all add: order_row_of_def)
  have "w_db w' = (w_db w)\<lparr>orders := orders (w_db w) @ [?r], order_items := order_items (w_db w) @ rs\<rparr>"
    by (simp add: u v v1 rows(3))
  moreover have "od_total o1 = od_total (priced (w_now v) o0)" "od_status o1 = od_status o0" "od_id o1 = od_id o2"
    by (simp_all add: o1 o2s)
  moreover have "map (\<lambda>it. it\<lparr>oi_id := uuid_Nil\<rparr>) (od_items o1) = map (\<lambda>it. it\<lparr>oi_id := uuid_Nil\<rparr>) (line_totals (od_items o0))"
    using rows(2) by (simp add: o1 o2s)
  ultimately show ?thesis
    using sen rows(1) unfolding o2s(1)
    by (intro exI [of _ ?r] exI [of _ rs] exI [of _ "w_now v"] conjI) (simp_all only: r)
qed

lemma list_all2_imp_all: "list_all2 P xs ys \<Longrightarrow> (\<And>x y. x \<in> set xs \<Longrightarrow> P x y \<Longrightarrow> Q y) \<Longrightarrow> \<forall>y \<in> set ys. Q y"
  by (induction xs ys rule: list_all2_induct) auto

lemma buildItems_InrD:
  "buildItems E S t inputs w = (w', Inr items) \<Longrightarrow>
   list_all2 (\<lambda>i it. oi_sku it = ii_sku i \<and> oi_quantity it = (if ii_quantity i \<le> 0 then 1 else ii_quantity i) \<and>
     (\<not> feq (ii_price i) (Fin 0) \<longrightarrow> oi_price it = ii_price i)) inputs items"
  unfolding buildItems_def
proof (induction inputs arbitrary: w items)
  case (Cons i inputs)
  then obtain it rest v where one: "build_item E S t i w = (v, Inr it)"
    and more: "for_each inputs (build_item E S t) v = (w', Inr rest)" and eq: "items = it # rest"
    by (auto simp: bind_Inr_iff)
  from one have "oi_sku it = ii_sku i \<and> oi_quantity it = (if ii_quantity i \<le> 0 then 1 else ii_quantity i) \<and>
     (\<not> feq (ii_price i) (Fin 0) \<longrightarrow> oi_price it = ii_price i)"
    unfolding build_item_def Let_def bind_attempt by (auto split: sum.splits)
  with Cons.IH [OF more] show ?case by (simp add: eq)
qed simp

lemma CreateAdmin_InrE:
  assumes "reads (buildItems E S t (ai_items i))" and "CreateAdmin E S t i w = (w', Inr o1)"
  obtains items v v' where "w_db v = w_db w" and "\<exists>u. buildItems E S t (ai_items i) u = (v, Inr items)"
    and "w_db w' = w_db v'" and "repo_Create E \<lparr>od_id = uuid_Nil, od_tenant = t, od_customer = None, od_status = ''pending'',
        od_full_name = ai_full_name i, od_email = ai_email i, od_contact = ai_contact i,
        od_shipping = ai_shipping i, od_notes = ai_notes i, od_total = Fin 0, od_expired = time_zero,
        od_created = time_zero, od_items = items, od_payments = []\<rparr> v = (v', Inr o1)"
proof -
  from assms(2) obtain items v v' where b: "buildItems E S t (ai_items i) w = (v, Inr items)"
    and c: "repo_Create E \<lparr>od_id = uuid_Nil, od_tenant = t, od_customer = None, od_status = ''pending'',
        od_full_name = ai_full_name i, od_email = ai_email i, od_contact = ai_contact i,
        od_shipping = ai_shipping i, od_notes = ai_notes i, od_total = Fin 0, od_expired = time_zero,
        od_created = time_zero, od_items = items, od_payments = []\<rparr> v = (v', Inr o1)" and "w_db w' = w_db v'"
    unfolding CreateAdmin_def by (auto simp: bind_Inr_iff now_run Emit_def emit_run split: if_splits)
  with reads_db' [OF assms(1) b] that show thesis by blast
qed


text \<open>C12: An order that is created has exactly one new row and one row for each requested item, and
  no other table changes: the row is pending, of the given tenant, and due 72 hours after it was
  made; its total is the float sum of quantity times price over the items, and each item row
  belongs to the order and holds a quantity of at least one (the requested one when it is
  positive).\<close>

theorem create_order_exact:
  assumes "CreateAdmin E (LocalStorage F s) t i w = (w', Inr o1)"
  shows "\<exists>r rs. w_db w' = (w_db w)\<lparr>orders := orders (w_db w) @ [r], order_items := order_items (w_db w) @ rs\<rparr> \<and>
     or_id r = od_id o1 \<and> or_tenant r = t \<and> or_status r = ''pending'' \<and> or_expired r = or_created r + 72 * Hour \<and>
     od_total o1 = foldl (\<lambda>total it. fadd total (fmul (f64_of_int (oi_quantity it)) (oi_price it))) (Fin 0) (od_items o1) \<and>
     e_num_enc E (od_total o1) = Some (or_total r) \<and>
     list_all2 (\<lambda>inp q. it_order q = od_id o1 \<and> it_sku q = ii_sku inp \<and>
        it_quantity q = (if ii_quantity inp \<le> 0 then 1 else ii_quantity inp)) (ai_items i) rs"
proof -
  let ?o = "\<lambda>items. \<lparr>od_id = uuid_Nil, od_tenant = t, od_customer = None, od_status = ''pending'',
        od_full_name = ai_full_name i, od_email = ai_email i, od_contact = ai_contact i,
        od_shipping = ai_shipping i, od_notes = ai_notes i, od_total = Fin 0, od_expired = time_zero,
        od_created = time_zero, od_items = items, od_payments = []\<rparr>"
  obtain items v v' where v: "w_db v = w_db w" and b: "\<exists>u. buildItems E (LocalStorage F s) t (ai_items i) u = (v, Inr items)"
    and v': "w_db w' = w_db v'" and c: "repo_Create E (?o items) v = (v', Inr o1)"
    by (rule CreateAdmin_InrE [OF local_store.reads_buildItems assms])
  from repo_Create_InrD [OF c] obtain r rs n where db: "w_db v' = (w_db v)\<lparr>orders := orders (w_db v) @ [r], order_items := order_items (w_db v) @ rs\<rparr>"
    and r: "or_id r = od_id o1" "or_tenant r = t" "or_status r = ''pending''"
    and due: "or_expired r = od_expired (priced (or_created r) (?o items))"
    and tot0: "od_total o1 = od_total (priced n (?o items))" and enc: "e_num_enc E (od_total o1) = Some (or_total r)"
    and rows: "list_all2 (item_row_for E (od_id o1)) (line_totals items) rs"
    and same: "map (\<lambda>it. it\<lparr>oi_id := uuid_Nil\<rparr>) (od_items o1) = map (\<lambda>it. it\<lparr>oi_id := uuid_Nil\<rparr>) (line_totals items)"
    by (elim exE conjE) simp
  have tot: "od_total o1 = items_total (line_totals items)" using tot0 by (simp add: priced_def Let_def)
  have exp: "or_expired r = or_created r + 72 * Hour" using due by (simp add: priced_def Let_def)
  have sum: "items_total (line_totals xs) = foldl (\<lambda>total it. fadd total (fmul (f64_of_int (oi_quantity it)) (oi_price it))) (Fin 0) ys"
    if "map (\<lambda>it. it\<lparr>oi_id := uuid_Nil\<rparr>) ys = map (\<lambda>it. it\<lparr>oi_id := uuid_Nil\<rparr>) (line_totals xs)" for xs ys
  proof -
    have "foldl (\<lambda>total it. fadd total (oi_line it)) z (line_totals xs) =
        foldl (\<lambda>total it. fadd total (fmul (f64_of_int (oi_quantity it)) (oi_price it))) z ys" for z
      using that
    proof (induction ys arbitrary: xs z)
      case (Cons y ys)
      then obtain x xs' where "xs = x # xs'" by (cases xs) (auto simp: line_totals_def)
      moreover have "oi_quantity y = oi_quantity x" "oi_price y = oi_price x"
        using Cons.prems unfolding \<open>xs = x # xs'\<close> line_totals_def
        by (auto dest: arg_cong [of _ _ oi_quantity] arg_cong [of _ _ oi_price])
      ultimately show ?case using Cons by (simp add: line_totals_def)
    qed (simp add: line_totals_def)
    then show ?thesis by (simp add: items_total_def)
  qed
  obtain u where "buildItems E (LocalStorage F s) t (ai_items i) u = (v, Inr items)" using b ..
  from buildItems_InrD [OF this] rows
  have "list_all2 (\<lambda>inp q. it_order q = od_id o1 \<and> it_sku q = ii_sku inp \<and>
      it_quantity q = (if ii_quantity inp \<le> 0 then 1 else ii_quantity inp)) (ai_items i) rs"
    unfolding line_totals_def list.rel_map by (rule list_all2_trans [rotated]) (simp add: item_row_for_def)
  with db r exp tot enc sum [OF same] show ?thesis
    unfolding v' by (intro exI [of _ r] exI [of _ rs]) (simp only: v simp_thms)
qed


definition sample_cart :: admin_input where
  "sample_cart = \<lparr>ai_full_name = ''Siti'', ai_email = ''s@x'', ai_contact = ''012'', ai_shipping = sample_address, ai_notes = '''',
     ai_items = [\<lparr>ii_sku = ''K-1'', ii_quantity = 2, ii_price = Fin 1\<rparr>]\<rparr>"

abbreviation sample_S :: storage where
  "sample_S \<equiv> LocalStorage (sample_app sample_claims) sample_store"

definition sample_run :: "world \<times> (go_err + order)" where
  "sample_run = CreateAdmin (sample_env sample_claims) sample_S 7 sample_cart (sample_world sample_shop)"

lemma sample_items:
  "buildItems (sample_env sample_claims) sample_S 7 (ai_items sample_cart) (sample_world sample_shop) =
     (sample_world sample_shop, Inr [\<lparr>oi_id = uuid_Nil, oi_product = Some 1, oi_sku = ''K-1'', oi_name = ''Kopi'',
        oi_quantity = 2, oi_price = Fin 1, oi_line = Fin 0\<rparr>])"
proof -
  have "ToLower ''K-1'' = ''k-1''" by code_simp
  then have "repo_GetProductBySKU (sample_env sample_claims) 7 ''K-1'' (sample_world sample_shop) =
      (sample_world sample_shop, Inr (product_of (sample_env sample_claims) sample_shop sample_product))"
    by (simp add: repo_GetProductBySKU_def query_row_ok sample_shop_def sku_match_def sample_product_def)
  then show ?thesis
    by (simp add: buildItems_def build_item_def sample_cart_def bind_attempt Let_def GetProductBySKU_def
        map_err_def bind_act_def attempt_run attachImageURL_def product_of_def sample_product_def)
qed


lemma insert_order_ok:
  assumes "w_faults w = []" and "e_num_enc E (od_total o1) = Some sen"
    and "o2 = o1\<lparr>od_id := e_uuid_gen E (w_seed w), od_created := w_now w\<rparr>"
    and "d = (w_db w)\<lparr>orders := orders (w_db w) @ [order_row_of o2 sen]\<rparr>" and "db_ok d"
  shows "insert_order E o1 w = (w\<lparr>w_seed := Suc (w_seed w), w_db := d\<rparr>, Inr o2)"
  unfolding insert_order_def
  by (simp add: bind_act_def num_arg_run assms(2) new_uuid_run now_run Let_def sql_ok assms(1) commit_def assms(5)
      flip: assms(3,4))

lemma insert_item_ok:
  assumes "w_faults w = []" and "e_num_enc E (oi_price it) = Some price" and "e_num_enc E (oi_line it) = Some line"
    and "r = \<lparr>it_id = e_uuid_gen E (w_seed w), it_order = i, it_product = oi_product it, it_sku = oi_sku it,
      it_name = oi_name it, it_quantity = oi_quantity it, it_unit_price = price, it_line_total = line\<rparr>"
    and "d = (w_db w)\<lparr>order_items := order_items (w_db w) @ [r]\<rparr>" and "db_ok d"
  shows "insert_item E i it w = (w\<lparr>w_seed := Suc (w_seed w), w_db := d\<rparr>, Inr (it\<lparr>oi_id := it_id r\<rparr>))"
  unfolding insert_item_def
  by (simp add: bind_act_def num_arg_run assms(2,3) new_uuid_run Let_def sql_ok assms(1) commit_def assms(6)
      flip: assms(4,5)) (simp add: assms(4))

lemma transact_ok: "w_faults w = [] \<Longrightarrow> m w = (v, Inr x) \<Longrightarrow> w_faults v = [] \<Longrightarrow> transact m w = (v, Inr x)"
  by (simp add: transact_def bind_act_def sel_ok)

text \<open>A create whose statements all go through: connection up, figures that fit, fresh identifiers.\<close>

lemma sample_run_ok: "\<exists>w' o1. sample_run = (w', Inr o1)"
proof -
  have name: "TrimSpace ''Siti'' \<noteq> ''''" by code_simp
  have fl2: "fl 2 = Fin 2" using fl_of_int [of 2] by simp
  have times: "fmul (f64_of_int 2) (Fin 1) = Fin 2" and sum: "fadd (Fin 0) (Fin 2) = Fin 2"
    by (simp_all add: f64_of_int_def fl2)
  let ?o = "\<lparr>od_id = uuid_Nil, od_tenant = 7, od_customer = None, od_status = ''pending'', od_full_name = ''Siti'',
      od_email = ''s@x'', od_contact = ''012'', od_shipping = sample_address, od_notes = '''', od_total = Fin 0,
      od_expired = time_zero, od_created = time_zero,
      od_items = [\<lparr>oi_id = uuid_Nil, oi_product = Some 1, oi_sku = ''K-1'', oi_name = ''Kopi'', oi_quantity = 2,
        oi_price = Fin 1, oi_line = Fin 0\<rparr>], od_payments = []\<rparr>"
  have pr: "priced n ?o = ?o\<lparr>od_expired := n + 72 * Hour, od_total := Fin 2,
      od_items := [\<lparr>oi_id = uuid_Nil, oi_product = Some 1, oi_sku = ''K-1'', oi_name = ''Kopi'', oi_quantity = 2,
        oi_price = Fin 1, oi_line = Fin 2\<rparr>]\<rparr>" for n
    using sum times by (simp add: priced_def Let_def line_totals_def items_total_def)
  have enc: "e_num_enc (sample_env sample_claims) (Fin 2) = Some 200" "e_num_enc (sample_env sample_claims) (Fin 1) = Some 100"
    by (simp_all add: sample_env_def)
  let ?w = "sample_world sample_shop"
  let ?o2 = "\<lparr>od_id = 1000, od_tenant = 7, od_customer = None, od_status = ''pending'', od_full_name = ''Siti'',
      od_email = ''s@x'', od_contact = ''012'', od_shipping = sample_address, od_notes = '''', od_total = Fin 2,
      od_expired = 72 * Hour, od_created = 0,
      od_items = [\<lparr>oi_id = uuid_Nil, oi_product = Some 1, oi_sku = ''K-1'', oi_name = ''Kopi'', oi_quantity = 2,
        oi_price = Fin 1, oi_line = Fin 2\<rparr>], od_payments = []\<rparr>"
  let ?d1 = "sample_shop\<lparr>orders := [order_row_of ?o2 200]\<rparr>"
  let ?it = "\<lparr>oi_id = uuid_Nil, oi_product = Some 1, oi_sku = ''K-1'', oi_name = ''Kopi'', oi_quantity = 2,
        oi_price = Fin 1, oi_line = Fin 2\<rparr>"
  let ?r = "\<lparr>it_id = 1001, it_order = 1000, it_product = Some 1, it_sku = ''K-1'', it_name = ''Kopi'', it_quantity = 2,
        it_unit_price = 100, it_line_total = 200\<rparr>"
  let ?w1 = "?w\<lparr>w_seed := Suc 0, w_db := ?d1\<rparr>"
  have o2: "order_row_of ?o2 200 = \<lparr>or_id = 1000, or_tenant = 7, or_customer = None, or_status = ''pending'',
      or_full_name = ''Siti'', or_email = ''s@x'', or_contact_no = ''012'', or_shipping = sample_address, or_notes = '''',
      or_total = 200, or_expired = 72 * Hour, or_created = 0\<rparr>" by (simp add: pr order_row_of_def)
  have ok1: "db_ok ?d1"
    unfolding o2 using sample_shop_ok by (simp add: db_ok_defs order_statuses_def sample_shop_def sample_db_def
      empty_db_def sample_tenant_def)
  have ok2: "db_ok (?d1\<lparr>order_items := [?r]\<rparr>)"
    unfolding o2 using sample_shop_ok by (simp add: db_ok_defs order_statuses_def sample_shop_def sample_db_def
      empty_db_def sample_tenant_def sample_product_def)
  have w0: "w_seed ?w = 0" "w_now ?w = 0" "orders sample_shop = []" "order_items sample_shop = []"
    by (simp_all add: sample_world_def sample_shop_def sample_db_def empty_db_def)
  have gen: "e_uuid_gen (sample_env sample_claims) 0 = 1000" "e_uuid_gen (sample_env sample_claims) (Suc 0) = 1001"
    by (simp_all add: sample_env_def)
  have 1: "insert_order (sample_env sample_claims) (priced 0 ?o) ?w = (?w1, Inr ?o2)"
    by (subst insert_order_ok [of ?w _ _ 200 ?o2 ?d1]) (simp_all add: pr enc w0 gen ok1)
  have 2: "insert_item (sample_env sample_claims) 1000 ?it ?w1 =
      (?w1\<lparr>w_seed := 2, w_db := ?d1\<lparr>order_items := [?r]\<rparr>\<rparr>, Inr (?it\<lparr>oi_id := 1001\<rparr>))"
    by (subst insert_item_ok [of ?w1 _ _ 100 200 ?r _ "?d1\<lparr>order_items := [?r]\<rparr>"])
      (simp_all add: enc w0 gen ok2 numeral_2_eq_2)
  have "repo_Create (sample_env sample_claims) ?o ?w =
      (?w1\<lparr>w_seed := 2, w_db := ?d1\<lparr>order_items := [?r]\<rparr>\<rparr>, Inr (?o2\<lparr>od_items := [?it\<lparr>oi_id := 1001\<rparr>]\<rparr>))"
    unfolding repo_Create_def
    by (rule transact_ok) (simp_all add: bind_act_def now_run w0 1 2)
  then obtain w' o1 where c: "repo_Create (sample_env sample_claims) ?o ?w = (w', Inr o1)" by blast
  have flds: "ai_full_name sample_cart = ''Siti''" "ai_email sample_cart = ''s@x''" "ai_contact sample_cart = ''012''"
    "ai_shipping sample_cart = sample_address" "ai_notes sample_cart = ''''" "ai_items sample_cart \<noteq> []"
    by (simp_all add: sample_cart_def)
  show ?thesis
    unfolding sample_run_def CreateAdmin_def
    using name by (simp add: bind_valid_or bind_check sample_items c flds
        bind_act_def now_run Emit_def emit_run)
qed


theorem create_order_exact_witness:
  "\<exists>w' o1 r. sample_run = (w', Inr o1) \<and> orders (w_db w') = orders sample_shop @ [r] \<and>
     or_expired r = or_created r + 72 * Hour \<and> length (order_items (w_db w')) = 1"
proof -
  obtain w' o1 where run: "sample_run = (w', Inr o1)" using sample_run_ok by blast
  from create_order_exact [OF run [unfolded sample_run_def]] obtain r rs where
    db: "w_db w' = sample_shop\<lparr>orders := orders sample_shop @ [r], order_items := order_items sample_shop @ rs\<rparr>"
    and due: "or_expired r = or_created r + 72 * Hour"
    and rows: "list_all2 (\<lambda>inp q. it_order q = od_id o1 \<and> it_sku q = ii_sku inp \<and>
        it_quantity q = (if ii_quantity inp \<le> 0 then 1 else ii_quantity inp)) (ai_items sample_cart) rs"
    by (elim exE conjE) simp
  have "length rs = 1" using rows by (auto simp: sample_cart_def dest: list_all2_lengthD)
  with run db due show ?thesis
    by (intro exI [of _ w'] exI [of _ o1] exI [of _ r]) (simp add: sample_shop_def sample_db_def empty_db_def)
qed

text \<open>C26: Creating an order is all or nothing, for the seller and for the public checkout: when it
  fails, at whatever statement, no row of any table is left behind and no other table has
  changed.\<close>

theorem create_order_atomic:
  "(case CreateAdmin E (LocalStorage F s) t i w of (w', Inl e) \<Rightarrow> w_db w' = w_db w | (w', Inr o1) \<Rightarrow> True) \<and>
   (case GuestCheckout E (LocalStorage F s) t i w of (w', Inl e) \<Rightarrow> w_db w' = w_db w | (w', Inr o1) \<Rightarrow> True)"
proof -
  have admin: "w_db w' = w_db w" if run: "CreateAdmin E (LocalStorage F s) t i w = (w', Inl e)" for w' e
  proof -
    obtain v r where b: "buildItems E (LocalStorage F s) t (ai_items i) w = (v, r)" by fastforce
    have v: "w_db v = w_db w" by (rule reads_db' [OF local_store.reads_buildItems b])
    show ?thesis
    proof (cases r)
      case (Inl e')
      with run b v show ?thesis by (auto simp: CreateAdmin_def bind_valid_or bind_check split: if_splits)
    next
      case (Inr items)
      let ?o = "\<lparr>od_id = uuid_Nil, od_tenant = t, od_customer = None, od_status = ''pending'',
        od_full_name = ai_full_name i, od_email = ai_email i, od_contact = ai_contact i,
        od_shipping = ai_shipping i, od_notes = ai_notes i, od_total = Fin 0, od_expired = time_zero,
        od_created = time_zero, od_items = items, od_payments = []\<rparr>"
      obtain u q where c: "repo_Create E ?o v = (u, q)" by fastforce
      have "w_db w' = w_db w \<or> (\<exists>e. q = Inl e) \<and> w' = u"
        using run b Inr c by (cases q) (auto simp: CreateAdmin_def bind_valid_or bind_check now_run Emit_def emit_run
            bind_act_def split: if_splits)
      moreover have "w_db u = w_db v" if "q = Inl e'" for e'
        using c that unfolding repo_Create_def by (auto dest: transact_error)
      ultimately show ?thesis using v by auto
    qed
  qed
  then have "w_db w' = w_db w" if "GuestCheckout E (LocalStorage F s) t i w = (w', Inl e)" for w' e
    using that by (auto simp: GuestCheckout_def bind_valid_or bind_check split: if_splits)
  note guest = this
  have both: "(case p of (w', Inl e) \<Rightarrow> w_db w' = w_db w | (w', Inr o1) \<Rightarrow> True)"
    if "\<And>w' e. p = (w', Inl e) \<Longrightarrow> w_db w' = w_db w" for p :: "world \<times> (go_err + order)"
    by (cases p; cases "snd p") (use that in auto)
  show ?thesis by (intro conjI both) (erule admin, erule guest)
qed

text \<open>C29: The public checkout takes the price of an item from the customer: every price in the
  request other than zero is the price of the order's item, whatever the product costs, so the
  total that the order and its invoice show is what the customer asked for. Only a zero price is
  replaced by the product's.\<close>

theorem checkout_price_from_client:
  assumes "GuestCheckout E (LocalStorage F s) t i w = (w', Inr o1)"
  shows "list_all2 (\<lambda>inp it. \<not> feq (ii_price inp) (Fin 0) \<longrightarrow> oi_price it = ii_price inp) (ai_items i) (od_items o1)"
proof -
  have "CreateAdmin E (LocalStorage F s) t i w = (w', Inr o1)"
    using assms by (auto simp: GuestCheckout_def bind_valid_or bind_check split: if_splits)
  then obtain items v v' where b: "\<exists>u. buildItems E (LocalStorage F s) t (ai_items i) u = (v, Inr items)"
    and c: "repo_Create E \<lparr>od_id = uuid_Nil, od_tenant = t, od_customer = None, od_status = ''pending'',
        od_full_name = ai_full_name i, od_email = ai_email i, od_contact = ai_contact i,
        od_shipping = ai_shipping i, od_notes = ai_notes i, od_total = Fin 0, od_expired = time_zero,
        od_created = time_zero, od_items = items, od_payments = []\<rparr> v = (v', Inr o1)"
    by (rule CreateAdmin_InrE [OF local_store.reads_buildItems])
  from repo_Create_InrD [OF c]
  have same: "map (\<lambda>it. it\<lparr>oi_id := uuid_Nil\<rparr>) (od_items o1) = map (\<lambda>it. it\<lparr>oi_id := uuid_Nil\<rparr>) (line_totals items)"
    by (elim exE conjE) simp
  then have "map oi_price (map (\<lambda>it. it\<lparr>oi_id := uuid_Nil\<rparr>) (od_items o1)) =
      map oi_price (map (\<lambda>it. it\<lparr>oi_id := uuid_Nil\<rparr>) (line_totals items))" by (simp only:)
  then have prices: "map oi_price (od_items o1) = map oi_price items" by (simp add: line_totals_def comp_def)
  have "list_all2 (\<lambda>inp it. \<not> feq (ii_price inp) (Fin 0) \<longrightarrow> oi_price it = ii_price inp) (ai_items i) items"
    using b by (auto dest!: buildItems_InrD elim!: list_all2_mono)
  then have "list_all2 (\<lambda>inp p. \<not> feq (ii_price inp) (Fin 0) \<longrightarrow> p = ii_price inp) (ai_items i) (map oi_price items)"
    by (simp add: list.rel_map)
  then show ?thesis unfolding prices [symmetric] by (simp add: list.rel_map)
qed

theorem checkout_price_from_client_witness:
  "\<exists>w' o1. GuestCheckout (sample_env sample_claims) sample_S 7 sample_cart (sample_world sample_shop) = (w', Inr o1) \<and>
     map oi_price (od_items o1) = [Fin 1] \<and> map pr_price (products sample_shop) = [500]"
proof -
  have "TrimSpace ''Siti'' \<noteq> ''''" "TrimSpace ''012'' \<noteq> ''''" by code_simp+
  then have "GuestCheckout (sample_env sample_claims) sample_S 7 sample_cart (sample_world sample_shop) = sample_run"
    unfolding GuestCheckout_def sample_run_def
    by (simp add: bind_valid_or bind_check sample_cart_def)
  with sample_run_ok obtain w' o1 where run: "GuestCheckout (sample_env sample_claims) sample_S 7 sample_cart
      (sample_world sample_shop) = (w', Inr o1)" by auto
  from checkout_price_from_client [OF this] have "map oi_price (od_items o1) = [Fin 1]"
    by (auto simp: sample_cart_def list_all2_Cons1)
  with run show ?thesis by (simp add: sample_shop_def sample_product_def)
qed

section \<open>Placeholders\<close>

text \<open>The short decimal of the placeholders is the decimal of the number for every number below a
  hundred, and the list query never asks for more: whatever it filters, the condition and the
  page clause name at most five arguments.\<close>

theorem list_placeholders:
  "(0 \<le> n \<and> n < 100 \<longrightarrow> itoa n = Itoa n) \<and> 1 \<le> snd (list_where ss q) \<and> snd (list_where ss q) + 2 \<le> 5 \<and>
   list_page_clause (snd (list_where ss q)) =
     '' LIMIT $'' @ Itoa (snd (list_where ss q) + 1) @ '' OFFSET $'' @ Itoa (snd (list_where ss q) + 2)"
proof -
  have itoa: "itoa k = Itoa k" if "0 \<le> k" "k < 100" for k
  proof -
    have "list_all (\<lambda>m. itoa (int m) = Itoa (int m)) [0..<100]" by code_simp
    moreover have "nat k \<in> set [0..<100]" using that by auto
    ultimately have "itoa (int (nat k)) = Itoa (int (nat k))" unfolding list_all_iff by blast
    then show ?thesis using that by simp
  qed
  have bound: "1 \<le> snd (list_where ss q) \<and> snd (list_where ss q) \<le> 3"
    by (simp add: list_where_def Let_def)
  then show ?thesis using itoa by (simp add: list_page_clause_def add.commute)
qed

theorem list_placeholders_witness: "itoa 42 = Itoa 42"
  using list_placeholders [of 42 "[]" "''''"] by simp


section \<open>Payment proofs\<close>

lemma AddPayment_InrE:
  assumes "AddPayment E i key x v = (u, Inr p)"
  obtains q where "w_db u = (w_db v)\<lparr>payments := payments (w_db v) @ [q]\<rparr>" and "p = payment_of_row E q"
    and "pm_order q = i" and "pm_proof_key q = key" and "pm_status q = ''submitted''" and "db_ok (w_db u)"
    and "w_faults v = [] \<Longrightarrow> w_faults u = []" and "w_events u = w_events v" and "w_now u = w_now v"
    and "e_num_enc E x = Some (pm_amount q)"
proof -
  from assms obtain sen where sen: "e_num_enc E x = Some sen"
    by (auto simp: AddPayment_def bind_act_def num_arg_run split: option.splits)
  let ?q = "\<lparr>pm_id = e_uuid_gen E (w_seed v), pm_order = i, pm_proof_key = key, pm_amount = sen,
    pm_status = ''submitted'', pm_created = w_now v\<rparr>"
  let ?v = "v\<lparr>w_seed := Suc (w_seed v)\<rparr>"
  let ?f = "\<lambda>d. commit (payment_of_row E ?q) (d\<lparr>payments := payments d @ [?q]\<rparr>)"
  from assms sen have run: "sql ?f ?v = (u, Inr p)"
    by (simp add: AddPayment_def bind_act_def num_arg_run new_uuid_run now_run Let_def)
  have "w_faults u = []" if "w_faults v = []" using run that by (auto simp: sql_ok commit_def split: if_splits)
  moreover have "w_db u = (w_db v)\<lparr>payments := payments (w_db v) @ [?q]\<rparr>" "p = payment_of_row E ?q" "db_ok (w_db u)"
    using run by (auto elim!: sql_InrE)
  moreover have "w_events u = w_events v" "w_now u = w_now v" 
    using sql_frame(1,4) [of ?f ?v] run by simp_all
  ultimately show thesis using sen by (intro that [of ?q]) simp_all
qed

lemma repo_GetByID_ok:
  "w_faults w = [] \<Longrightarrow>
   repo_GetByID E i w = (w, case find (\<lambda>r. or_id r = i) (orders (w_db w)) of
     None \<Rightarrow> Inl (ErrNotFound POrders) | Some r \<Rightarrow> Inr (full_order E (w_db w) r))"
  by (simp add: repo_GetByID_def bind_act_def query_row_ok loadChildren_ok split: option.splits)

text \<open>What statements leave alone: the events, the clock, and a connection that is up.\<close>

definition calm :: "world \<Rightarrow> world \<Rightarrow> bool" where
  "calm w v \<longleftrightarrow> w_events v = w_events w \<and> w_now v = w_now w \<and> (w_faults w = [] \<longrightarrow> w_faults v = [])"

interpretation calm: transition calm
  by unfold_locales (auto simp: calm_def)

lemma calm_sql: "keeps calm (sql q)"
  by (rule keepsI) (auto simp: calm_def sql_frame sql_ok split: sum.splits prod.splits)

lemma calm_orders: "keeps calm (repo_GetByID E i)" "keeps calm (repo_UpdateStatus t i s)"
  unfolding repo_GetByID_def repo_UpdateStatus_def query_row_def loadChildren_def sel_def affecting_def
  by (intro calm.keeps_combinators calm_sql)+

lemma repo_UpdateStatus_db:
  "w_db (fst (repo_UpdateStatus t i s w)) = w_db w \<or> w_db (fst (repo_UpdateStatus t i s w)) = w_db (with_status t i s w)"
proof -
  let ?m = "sql (\<lambda>d. commit (affected (own_order t i) (orders d))
       (d\<lparr>orders := update_rows (own_order t i) (\<lambda>r. r\<lparr>or_status := s\<rparr>) (orders d)\<rparr>))"
  obtain v r where run: "?m w = (v, r)" by fastforce
  then have "fst (repo_UpdateStatus t i s w) = v"
    by (cases r) (simp_all add: repo_UpdateStatus_def affecting_def)
  moreover have "w_db v = w_db w \<or> w_db v = w_db (with_status t i s w)"
    using sql_cases [OF run] by (auto simp: commit_def with_status_def split: if_splits)
  ultimately show ?thesis by simp
qed

text \<open>C27: A payment proof that is accepted adds one submitted payment with that proof and amount to the order,
  changes no other row but perhaps that order's, and emits one event for the tenant that owns the order. A
  pending order moves to payment received and any other status stays; but the error of that
  second statement is thrown away, so when the connection fails there, and only then, the order stays
  pending although the proof was accepted.\<close>

theorem payment_proof_effect:
  assumes "AddPaymentProof E i key x w = (w', Inr p)"
  shows "\<exists>r q moved. find (\<lambda>r. or_id r = i) (orders (w_db w)) = Some r \<and> pm_order q = i \<and> pm_proof_key q = key \<and>
     pm_status q = ''submitted'' \<and> e_num_enc E x = Some (pm_amount q) \<and>
     w_db w' = (w_db w)\<lparr>payments := payments (w_db w) @ [q],
       orders := (if moved
         then update_rows (own_order (or_tenant r) i) (\<lambda>r. r\<lparr>or_status := ''payment_received''\<rparr>) (orders (w_db w))
         else orders (w_db w))\<rparr> \<and>
     (moved \<longrightarrow> or_status r = ''pending'') \<and> (or_status r = ''pending'' \<and> w_faults w = [] \<longrightarrow> moved) \<and>
     w_events w' = w_events w @ [PaymentUploaded E (or_tenant r) i (w_now w)]"
proof -
  from assms obtain v o1 u where get: "repo_GetByID E i w = (v, Inr o1)" and pay: "AddPayment E i key x v = (u, Inr p)"
    unfolding AddPaymentProof_def
    by (auto elim!: bind_InrE simp: map_err_def bind_act_def [of "AddPayment _ _ _ _"] split: prod.splits sum.splits)
  from repo_GetByID_InrD [OF get] obtain r where r: "find (\<lambda>r. or_id r = i) (orders (w_db w)) = Some r"
    "od_status o1 = or_status r" "od_tenant o1 = or_tenant r" by auto
  have v: "w_db v = w_db w" by (rule reads_db' [OF reads_orders(2) get])
  have cv: "calm w v" by (rule keepsD' [OF calm_orders(1) get])
  from pay obtain q where q: "w_db u = (w_db w)\<lparr>payments := payments (w_db w) @ [q]\<rparr>" "pm_order q = i" "pm_proof_key q = key"
      "pm_status q = ''submitted''" "e_num_enc E x = Some (pm_amount q)" and ok: "db_ok (w_db u)" and cu: "calm v u"
    by (rule AddPayment_InrE) (auto simp: calm_def v)
  let ?up = "repo_UpdateStatus (or_tenant r) i ''payment_received''"
  define z where "z = (if or_status r = ''pending'' then fst (?up u) else u)"
  define moved where "moved = (or_status r = ''pending'' \<and> w_db (fst (?up u)) = w_db (with_status (or_tenant r) i ''payment_received'' u))"
  have run: "AddPaymentProof E i key x w = (z\<lparr>w_events := w_events z @ [PaymentUploaded E (or_tenant r) i (w_now z)]\<rparr>, Inr p)"
    unfolding AddPaymentProof_def z_def using get pay r
    by (simp add: map_err_def Let_def bind_ignore now_run bind_act_def [of now] bind_act_def [of "map_err _ _"])
  have "calm u (fst (?up u))" by (rule keepsD [OF calm_orders(2)])
  then have "calm u z" by (simp add: z_def calm.stay)
  then have "calm w z" using cv cu calm.chain by blast
  then have z: "w_events z = w_events w" "w_now z = w_now w" by (simp_all add: calm_def)
  have db: "w_db z = (w_db w)\<lparr>payments := payments (w_db w) @ [q], orders := (if moved
      then update_rows (own_order (or_tenant r) i) (\<lambda>r. r\<lparr>or_status := ''payment_received''\<rparr>) (orders (w_db w))
      else orders (w_db w))\<rparr>"
    using repo_UpdateStatus_db [of "or_tenant r" i "''payment_received''" u] q(1)
    by (auto simp: moved_def z_def with_status_def)
  have moved if up: "or_status r = ''pending''" "w_faults w = []"
  proof -
    have own: "find (own_order (or_tenant r) i) (orders (w_db u)) = Some r"
    proof -
      have "distinct (map or_id (orders (w_db w)))" using ok q(1) by (simp add: db_ok_def orders_ok_def)
      moreover have "r \<in> set (orders (w_db w))" "or_id r = i" using find_Some_iff' [OF r(1)] by simp_all
      ultimately show ?thesis unfolding q(1) by simp (rule find_unique [where k = or_id], auto simp: own_order_def)
    qed
    have "w_faults u = []" using up(2) cv cu by (simp add: calm_def)
    from repo_UpdateStatus_ok [OF this ok own] show moved by (simp add: moved_def up order_statuses_def)
  qed
  with run assms db z q(2-5) r(1) show ?thesis
    by (intro exI [of _ r] exI [of _ q] exI [of _ moved]) (simp add: moved_def)
qed

theorem payment_proof_effect_witness:
  "\<exists>w' p. AddPaymentProof (sample_env sample_claims) 9 ''7/payments/a'' (Fin 5) (sample_world sample_orders) = (w', Inr p) \<and>
     map or_status (orders (w_db w')) = [''payment_received''] \<and> map pm_status (payments (w_db w')) = [''submitted'']"
proof -
  let ?w = "sample_world sample_orders"
  let ?q = "\<lparr>pm_id = 1000, pm_order = 9, pm_proof_key = ''7/payments/a'', pm_amount = 500, pm_status = ''submitted'',
    pm_created = 0\<rparr>"
  have find: "find (\<lambda>r. or_id r = 9) (orders sample_orders) = Some sample_order"
    by (simp add: sample_orders_def sample_order_def)
  have ok: "db_ok (sample_orders\<lparr>payments := [?q]\<rparr>)"
    using sample_orders_ok by (simp add: db_ok_defs sample_orders_def sample_order_def sample_db_def empty_db_def
        sample_tenant_def order_statuses_def)
  have w: "w_seed ?w = 0" "w_now ?w = 0" "payments sample_orders = []"
    by (simp_all add: sample_world_def sample_orders_def sample_db_def empty_db_def)
  have env: "e_num_enc (sample_env sample_claims) (Fin 5) = Some 500" "e_uuid_gen (sample_env sample_claims) 0 = 1000"
    by (simp_all add: sample_env_def)
  have "\<exists>v p. AddPayment (sample_env sample_claims) 9 ''7/payments/a'' (Fin 5) ?w = (v, Inr p)"
    by (simp add: AddPayment_def bind_act_def num_arg_run new_uuid_run now_run env w Let_def sql_ok commit_def ok)
  then obtain v p where pay: "AddPayment (sample_env sample_claims) 9 ''7/payments/a'' (Fin 5) ?w = (v, Inr p)" by blast
  have get: "repo_GetByID (sample_env sample_claims) 9 ?w = (?w, Inr (full_order (sample_env sample_claims) sample_orders sample_order))"
    by (simp add: repo_GetByID_ok find)
  have "\<exists>w'. AddPaymentProof (sample_env sample_claims) 9 ''7/payments/a'' (Fin 5) ?w = (w', Inr p)"
    by (simp add: AddPaymentProof_def get pay bind_ignore now_run bind_act_def [of now] Emit_def emit_run
        bind_act_def [of "emit _"])
  then obtain w' where run: "AddPaymentProof (sample_env sample_claims) 9 ''7/payments/a'' (Fin 5) ?w = (w', Inr p)" by blast
  from payment_proof_effect [OF run] find
  obtain q where "w_db w' = sample_orders\<lparr>payments := payments sample_orders @ [q], orders :=
      update_rows (own_order (or_tenant sample_order) 9) (\<lambda>r. r\<lparr>or_status := ''payment_received''\<rparr>) (orders sample_orders)\<rparr>"
    "pm_status q = ''submitted''"
    by (auto simp: sample_order_def)
  with run w(3) show ?thesis
    by (intro exI [of _ w'] exI [of _ p]) (simp add: sample_orders_def sample_order_def update_rows_def own_order_def
        sample_db_def empty_db_def)
qed

text \<open>Who a public upload concerns: the tenant that owns the order, and nobody when there is none.\<close>

lemma scoped_AddPaymentProof:
  "\<exists>t. scoped t w (fst (AddPaymentProof E i key x w)) \<and>
     (case find (\<lambda>r. or_id r = i) (orders (w_db w)) of None \<Rightarrow> True | Some r \<Rightarrow> t = or_tenant r)"
proof -
  obtain v q where run: "map_err ordersErr (repo_GetByID E i) w = (v, q)" by fastforce
  have "reads (map_err ordersErr (repo_GetByID E i))" by (intro reads_combinators reads_orders)
  then have v: "w_db v = w_db w" using run by (rule reads_db')
  show ?thesis
  proof (cases q)
    case (Inl e)
    have stay: "scoped t w v" for t using v by (simp add: scoped_def on_db_def)
    show ?thesis
    proof (cases "find (\<lambda>r. or_id r = i) (orders (w_db w))")
      case None
      with Inl run stay show ?thesis by (simp add: AddPaymentProof_def)
    next
      case (Some r)
      with Inl run stay show ?thesis by (simp add: AddPaymentProof_def)
    qed
  next
    case (Inr o1)
    with run have get: "repo_GetByID E i w = (v, Inr o1)" by simp
    from repo_GetByID_InrD [OF get] obtain r where r: "find (\<lambda>r. or_id r = i) (orders (w_db w)) = Some r"
      "od_tenant o1 = or_tenant r" by auto
    have own: "owns (or_tenant r) i (w_db v)"
      using find_Some_iff' [OF r(1)] by (auto simp: owns_def list_ex_iff own_order_def v)
    have "keeps (under (or_tenant r) i) (bind_act (AddPayment E i key x) (\<lambda>p. if od_status o1 = ''pending''
        then ignore (repo_UpdateStatus (od_tenant o1) i ''payment_received'') else ret ()))"
      unfolding r(2) by (intro un.keeps_combinators under_AddPayment under_repo_UpdateStatus)
    then have "scoped (or_tenant r) v (fst (bind_act (AddPayment E i key x) (\<lambda>p. if od_status o1 = ''pending''
        then ignore (repo_UpdateStatus (od_tenant o1) i ''payment_received'') else ret ()) v))"
      using own by (auto simp: keeps_def under_iff)
    with AddPaymentProof_run [OF run [unfolded Inr], of key x] v r show ?thesis
      by (intro exI [of _ "or_tenant r"]) (simp add: scoped_def on_db_def)
  qed
qed

end
