(* ===== verification/Storefront.thy ===== *)
theory Storefront
  imports OrderCreation
begin

text \<open>
  The public storefront (\<open>api/internal/storefront/storefront.go\<close>) and the dashboard
  (\<open>api/internal/dashboard/dashboard.go\<close>). The store is found by the user name of the
  path; only active products are shown. The full-text search of PostgreSQL (the operator
  \<open>@@\<close> on the generated column \<open>search_tsv\<close>, and \<open>ts_rank\<close>) is a parameter: a match
  and a rank for a query and a product row.
\<close>

record fts =
  fts_match :: "string \<Rightarrow> product_row \<Rightarrow> bool"
  fts_rank :: "string \<Rightarrow> product_row \<Rightarrow> int"

section \<open>Store products\<close>

record store_product =
  sp_id :: uuid
  sp_sku :: string
  sp_name :: string
  sp_desc :: string
  sp_price :: f64
  sp_slug :: string
  sp_image_url :: string
  sp_category :: string

definition resolveTenant :: "string \<Rightarrow> tenant go" where
  "resolveTenant username = or_else (TenantByUsername username) (NotFound ''store not found'')"

definition signImage :: "storage \<Rightarrow> string \<Rightarrow> string go" where
  "signImage S key =
     (if key = '''' then ret ''''
      else bind_act (attempt (st_SignedGetURL S key 3600)) (\<lambda>r.
             ret (case r of Inl _ \<Rightarrow> '''' | Inr url \<Rightarrow> url)))"

text \<open>A row of the query with its image key, and the same with the image signed.\<close>

definition store_row :: "'z env_scheme \<Rightarrow> db \<Rightarrow> product_row \<Rightarrow> store_product \<times> string" where
  "store_row E d r =
     (\<lparr>sp_id = pr_id r, sp_sku = pr_sku r, sp_name = pr_name r, sp_desc = pr_desc r,
       sp_price = e_num_dec E (pr_price r), sp_slug = pr_slug r, sp_image_url = '''',
       sp_category = category_name d (pr_category r)\<rparr>, pr_image r)"

definition signed :: "storage \<Rightarrow> store_product \<times> string \<Rightarrow> store_product go" where
  "signed S row =
     bind_act (signImage S (snd row)) (\<lambda>url. ret ((fst row)\<lparr>sp_image_url := url\<rparr>))"

definition scanStoreProducts :: "storage \<Rightarrow> (store_product \<times> string) list \<Rightarrow> store_product list go" where
  "scanStoreProducts S rows = for_each rows (signed S)"

definition on_sale :: "uuid \<Rightarrow> product_row \<Rightarrow> bool" where
  "on_sale t p \<longleftrightarrow> pr_tenant p = t \<and> pr_status p = ''active''"

definition storeName :: "tenant \<Rightarrow> string" where
  "storeName t = (if tn_store_name t \<noteq> '''' then tn_store_name t else tn_username t)"

section \<open>Handlers\<close>

record checkout_json =
  kj_order_id :: uuid
  kj_status :: string
  kj_total :: f64
  kj_invoice_url :: string

datatype store_reply =
    R_landing string string "store_product list"
  | R_found string "store_product list"
  | R_store_product store_product
  | R_checkout checkout_json

definition landing :: "'z env_scheme \<Rightarrow> storage \<Rightarrow> string \<Rightarrow> store_reply response go" where
  "landing E S username =
     bind_act (resolveTenant username) (\<lambda>t.
     bind_act (sel (\<lambda>d. take 200 (map (store_row E d)
         (order_desc pr_created (filter (on_sale (tn_id t)) (products d)))))) (\<lambda>rows.
     bind_act (scanStoreProducts S rows) (\<lambda>ps.
     ret (JSON 200 (R_landing (tn_username t) (storeName t) ps)))))"

definition search_hit :: "'z env_scheme \<Rightarrow> fts \<Rightarrow> uuid \<Rightarrow> string \<Rightarrow> product_row \<Rightarrow> bool" where
  "search_hit E F t q p \<longleftrightarrow>
     on_sale t p \<and> (q = '''' \<or> fts_match F q p \<or> ilike E q (pr_name p))"

definition search_limit :: "(string \<Rightarrow> string) \<Rightarrow> int" where
  "search_limit query =
     (let l = fst (Atoi (query ''limit'')) in if l \<le> 0 \<or> l > 100 then 20 else l)"

definition store_search ::
  "'z env_scheme \<Rightarrow> fts \<Rightarrow> storage \<Rightarrow> string \<Rightarrow> (string \<Rightarrow> string) \<Rightarrow> store_reply response go" where
  "store_search E F S username query =
     bind_act (resolveTenant username) (\<lambda>t.
     (let q = query ''q''; lmt = search_limit query; off = fst (Atoi (query ''offset'')) in
      bind_act (sql (\<lambda>d. case limit_offset lmt off
           (order_desc (fts_rank F q) (order_desc pr_created (filter (search_hit E F (tn_id t) q) (products d)))) of
           Inl e \<Rightarrow> Inl e | Inr rs \<Rightarrow> Inr (map (store_row E d) rs, d))) (\<lambda>rows.
      bind_act (scanStoreProducts S rows) (\<lambda>ps. ret (JSON 200 (R_found q ps))))))"

definition one_product ::
  "'z env_scheme \<Rightarrow> storage \<Rightarrow> (product_row \<Rightarrow> bool) \<Rightarrow> store_reply response go" where
  "one_product E S P =
     bind_act (sel (\<lambda>d. map_option (store_row E d) (find P (products d)))) (\<lambda>r.
     case r of
       None \<Rightarrow> raise (NotFound ''product not found'')
     | Some row \<Rightarrow> bind_act (signed S row) (\<lambda>p. ret (JSON 200 (R_store_product p))))"

definition productDetail ::
  "'z env_scheme \<Rightarrow> storage \<Rightarrow> string \<Rightarrow> string \<Rightarrow> store_reply response go" where
  "productDetail E S username param =
     bind_act (resolveTenant username) (\<lambda>t.
     case e_uuid_parse E param of
       None \<Rightarrow> raise (BadRequest ''invalid product id'')
     | Some i \<Rightarrow> one_product E S (\<lambda>p. on_sale (tn_id t) p \<and> pr_id p = i))"

definition productBySKU ::
  "'z env_scheme \<Rightarrow> storage \<Rightarrow> string \<Rightarrow> (string \<Rightarrow> string) \<Rightarrow> store_reply response go" where
  "productBySKU E S username query =
     bind_act (resolveTenant username) (\<lambda>t.
     one_product E S (\<lambda>p. on_sale (tn_id t) p \<and> e_sql_lower E (pr_sku p) = e_sql_lower E (query ''sku'')))"

definition checkout ::
  "'z env_scheme \<Rightarrow> storage \<Rightarrow> string \<Rightarrow> admin_input option \<Rightarrow> store_reply response go" where
  "checkout E S username body =
     bind_act (resolveTenant username) (\<lambda>t.
     bind_act (Bind body) (\<lambda>i.
     bind_act (GuestCheckout E S (tn_id t) i) (\<lambda>o1.
     ret (JSON 201 (R_checkout \<lparr>kj_order_id = od_id o1, kj_status = od_status o1, kj_total = od_total o1,
       kj_invoice_url = ''/invoice/'' @ e_uuid_str E (od_id o1)\<rparr>)))))"

section \<open>The dashboard (dashboard.go)\<close>

record counts =
  cn_orders :: nat
  cn_pending :: nat
  cn_products :: nat
  cn_customers :: nat
  cn_shipped :: nat

definition dashboard_load :: "uuid \<Rightarrow> counts go" where
  "dashboard_load t =
     sel (\<lambda>d. \<lparr>cn_orders = length (filter (\<lambda>r. or_tenant r = t) (orders d)),
       cn_pending = length (filter (\<lambda>r. or_tenant r = t \<and> or_status r = ''pending'') (orders d)),
       cn_products = length (filter (\<lambda>p. pr_tenant p = t) (products d)),
       cn_customers = length (filter (\<lambda>c. cu_tenant c = t) (customers d)),
       cn_shipped = length (filter (\<lambda>r. or_tenant r = t \<and> or_status r = ''shipped'') (orders d))\<rparr>)"

definition dashboard_counts :: "identity option \<Rightarrow> counts response go" where
  "dashboard_counts ctx = bind_act (dashboard_load (tid ctx)) (\<lambda>c. ret (JSON 200 c))"

section \<open>What the handlers do to the tables\<close>

lemma reads_resolveTenant: "reads (resolveTenant u)"
  unfolding resolveTenant_def TenantByUsername_def by (intro reads_combinators reads_tenantByQuery)

lemma reads_dashboard: "reads (dashboard_counts ctx)"
  unfolding dashboard_counts_def dashboard_load_def by (intro reads_combinators)

lemma reads_limited:
  "reads (sql (\<lambda>d. case limit_offset l f (rows d) of Inl e \<Rightarrow> Inl e | Inr rs \<Rightarrow> Inr (g d rs, d)))"
  by (rule reads_ro) (simp split: sum.splits)

context object_store
begin

lemma reads_signed: "reads (signed S row)"
  unfolding signed_def signImage_def by (intro reads_combinators url_reads)

lemma reads_one_product: "reads (one_product E S P)"
  unfolding one_product_def by (intro reads_combinators reads_signed)

lemma reads_scan: "reads (scanStoreProducts S rows)"
  unfolding scanStoreProducts_def by (intro reads_combinators reads_signed)

lemma reads_landing: "reads (landing E S u)"
  unfolding landing_def by (intro reads_combinators reads_resolveTenant reads_scan)

lemma reads_store_search: "reads (store_search E F S u q)"
  unfolding store_search_def Let_def
  by (rule rd.keeps_bind [OF reads_resolveTenant], rule rd.keeps_bind [OF reads_limited])
    (intro reads_combinators reads_scan)

lemma reads_product_pages: "reads (productDetail E S u p)" "reads (productBySKU E S u q)"
  unfolding productDetail_def productBySKU_def
  by (intro reads_combinators reads_resolveTenant reads_one_product)+

lemmas reads_storefront = reads_landing reads_store_search reads_product_pages

lemma advances_checkout: "keeps advances (checkout E S u body)"
  unfolding checkout_def
  by (intro advances_rules advances_GuestCheckout reads_resolveTenant [THEN advances_reads])

end

lemma resolveTenant_InrD:
  assumes "resolveTenant u w = (v, Inr t)"
  shows "find (\<lambda>t. ToLower (tn_username t) = ToLower u) (tenants (w_db w)) = Some t \<and> w_db v = w_db w"
proof -
  let ?P = "\<lambda>t. ToLower (tn_username t) = ToLower u"
  from assms have "bind_act (sel (\<lambda>d. find ?P (tenants d)))
      (\<lambda>r. case r of None \<Rightarrow> raise (ErrNotFound PAuth) | Some t \<Rightarrow> ret t) w = (v, Inr t)"
    by (simp add: resolveTenant_def TenantByUsername_def tenantByQuery_def)
  then obtain r v1 where r: "sel (\<lambda>d. find ?P (tenants d)) w = (v1, Inr r)"
    and k: "(case r of None \<Rightarrow> raise (ErrNotFound PAuth) | Some t \<Rightarrow> ret t) v1 = (v, Inr t)" by (rule bind_InrE)
  from k have "r = Some t" "v1 = v" by (simp_all split: option.splits)
  with sel_InrD [OF r] show ?thesis by simp
qed

lemma resolveTenant_ok:
  "w_faults w = [] \<Longrightarrow>
   resolveTenant u w = (w, case find (\<lambda>t. ToLower (tn_username t) = ToLower u) (tenants (w_db w)) of
     None \<Rightarrow> Inl (NotFound ''store not found'') | Some t \<Rightarrow> Inr t)"
  by (simp add: resolveTenant_def TenantByUsername_def tenantByQuery_def or_else_def map_err_def bind_act_def sel_ok
      split: option.splits)


section \<open>What the public sees\<close>

fun shown :: "store_reply \<Rightarrow> store_product list" where
  "shown (R_landing _ _ ps) = ps"
| "shown (R_found _ ps) = ps"
| "shown (R_store_product p) = [p]"
| "shown (R_checkout _) = []"

definition shows_row :: "'z env_scheme \<Rightarrow> db \<Rightarrow> tenant \<Rightarrow> store_product \<Rightarrow> bool" where
  "shows_row E d t p \<longleftrightarrow>
     list_ex (\<lambda>r. pr_tenant r = tn_id t \<and> pr_status r = ''active'' \<and> sp_id p = pr_id r \<and> sp_sku p = pr_sku r \<and>
       sp_name p = pr_name r \<and> sp_price p = e_num_dec E (pr_price r)) (products d)"

lemma signed_InrD: "signed S row v = (v', Inr p) \<Longrightarrow> \<exists>url. p = (fst row)\<lparr>sp_image_url := url\<rparr>"
  unfolding signed_def by (auto elim!: bind_InrE)

lemma shows_row_store_row:
  "r \<in> set (products d) \<Longrightarrow> on_sale (tn_id t) r \<Longrightarrow> shows_row E d t ((fst (store_row E d r))\<lparr>sp_image_url := url\<rparr>)"
  by (auto simp: shows_row_def list_ex_iff store_row_def on_sale_def)

lemma scan_shows:
  assumes "scanStoreProducts S rows v = (v', Inr ps)"
    and "\<And>row. row \<in> set rows \<Longrightarrow> \<exists>r \<in> set (products d). on_sale (tn_id t) r \<and> row = store_row E d r"
  shows "\<forall>p \<in> set ps. shows_row E d t p"
  using assms unfolding scanStoreProducts_def
proof (induction rows arbitrary: v ps)
  case (Cons row rows)
  then obtain p rest u where one: "signed S row v = (u, Inr p)" and more: "for_each rows (signed S) u = (v', Inr rest)"
    and ps: "ps = p # rest" by (auto simp: bind_Inr_iff)
  from signed_InrD [OF one] Cons.prems(2) [of row] have "shows_row E d t p"
    using shows_row_store_row by fastforce
  moreover have "\<forall>p \<in> set rest. shows_row E d t p" using Cons.IH [OF more] Cons.prems(2) by simp
  ultimately show ?case by (simp add: ps)
qed simp

lemma one_product_shows:
  assumes "one_product E S P w = (w', Inr (JSON s r))" and "\<And>p. P p \<Longrightarrow> on_sale (tn_id t) p"
  shows "\<forall>p \<in> set (shown r). shows_row E (w_db w) t p"
proof -
  from assms(1) obtain x v where q: "sel (\<lambda>d. map_option (store_row E d) (find P (products d))) w = (v, Inr x)"
    and k: "(case x of None \<Rightarrow> raise (NotFound ''product not found'')
       | Some row \<Rightarrow> bind_act (signed S row) (\<lambda>p. ret (JSON 200 (R_store_product p)))) v = (w', Inr (JSON s r))"
    unfolding one_product_def by (rule bind_InrE)
  from k obtain row where row: "x = Some row" by (cases x) simp_all
  with k obtain p u where sg: "signed S row v = (u, Inr p)" and r: "r = R_store_product p" by (auto elim!: bind_InrE)
  have "map_option (store_row E (w_db w)) (find P (products (w_db w))) = Some row"
    using sel_InrD [OF q] row by simp
  then obtain q0 where q0: "find P (products (w_db w)) = Some q0" and row': "row = store_row E (w_db w) q0" by auto
  obtain url where p: "p = (fst row)\<lparr>sp_image_url := url\<rparr>" using signed_InrD [OF sg] ..
  have "q0 \<in> set (products (w_db w))" "on_sale (tn_id t) q0" using find_Some_iff' [OF q0] assms(2) by simp_all
  then have "shows_row E (w_db w) t p" unfolding p row' by (rule shows_row_store_row)
  then show ?thesis by (simp add: r)
qed

lemma landing_shows:
  assumes "landing E S u w = (w', Inr (JSON s r))"
  shows "\<exists>t. find (\<lambda>t. ToLower (tn_username t) = ToLower u) (tenants (w_db w)) = Some t \<and>
    (\<forall>p \<in> set (shown r). shows_row E (w_db w) t p)"
proof -
  from assms obtain t v where t: "resolveTenant u w = (v, Inr t)"
    and k: "bind_act (sel (\<lambda>d. take 200 (map (store_row E d)
         (order_desc pr_created (filter (on_sale (tn_id t)) (products d)))))) (\<lambda>rows.
     bind_act (scanStoreProducts S rows) (\<lambda>ps. ret (JSON 200 (R_landing (tn_username t) (storeName t) ps)))) v
     = (w', Inr (JSON s r))"
    unfolding landing_def by (rule bind_InrE)
  from k obtain rows v1 where q: "sel (\<lambda>d. take 200 (map (store_row E d)
         (order_desc pr_created (filter (on_sale (tn_id t)) (products d))))) v = (v1, Inr rows)"
    and k': "bind_act (scanStoreProducts S rows) (\<lambda>ps. ret (JSON 200 (R_landing (tn_username t) (storeName t) ps))) v1
     = (w', Inr (JSON s r))" by (rule bind_InrE)
  from k' obtain ps where scan: "scanStoreProducts S rows v1 = (w', Inr ps)" and r: "r = R_landing (tn_username t) (storeName t) ps"
    by (auto elim!: bind_InrE)
  note t' = resolveTenant_InrD [OF t]
  have rows: "rows = take 200 (map (store_row E (w_db w)) (order_desc pr_created (filter (on_sale (tn_id t)) (products (w_db w)))))"
    using sel_InrD [OF q] t' by simp
  have "\<forall>p \<in> set ps. shows_row E (w_db w) t p"
    by (rule scan_shows [OF scan]) (auto simp: rows dest!: in_set_takeD)
  with t' r show ?thesis by simp
qed

lemma search_shows:
  assumes "store_search E F S u query w = (w', Inr (JSON s r))"
  shows "\<exists>t. find (\<lambda>t. ToLower (tn_username t) = ToLower u) (tenants (w_db w)) = Some t \<and>
    (\<forall>p \<in> set (shown r). shows_row E (w_db w) t p)"
proof -
  let ?q = "query ''q''" and ?off = "fst (Atoi (query ''offset''))"
  let ?ord = "\<lambda>t d. order_desc (fts_rank F ?q) (order_desc pr_created (filter (search_hit E F (tn_id t) ?q) (products d)))"
  let ?sql = "\<lambda>t d. case limit_offset (search_limit query) ?off (?ord t d) of Inl e \<Rightarrow> Inl e
      | Inr rs \<Rightarrow> Inr (map (store_row E d) rs, d)"
  from assms obtain t v where t: "resolveTenant u w = (v, Inr t)"
    and k: "bind_act (sql (?sql t)) (\<lambda>rows. bind_act (scanStoreProducts S rows) (\<lambda>ps. ret (JSON 200 (R_found ?q ps)))) v
      = (w', Inr (JSON s r))"
    unfolding store_search_def Let_def by (rule bind_InrE)
  from k obtain rows v1 where q: "sql (?sql t) v = (v1, Inr rows)"
    and k': "bind_act (scanStoreProducts S rows) (\<lambda>ps. ret (JSON 200 (R_found ?q ps))) v1 = (w', Inr (JSON s r))"
    by (rule bind_InrE)
  from k' obtain ps where scan: "scanStoreProducts S rows v1 = (w', Inr ps)" and r: "r = R_found ?q ps"
    by (auto elim!: bind_InrE)
  note t' = resolveTenant_InrD [OF t]
  have "?sql t (w_db v) = Inr (rows, w_db v1)" using q by (rule sql_InrE)
  then have "?sql t (w_db w) = Inr (rows, w_db v1)" using t' by (simp only: conjunct2 [OF t'])
  then obtain rs where rs: "limit_offset (search_limit query) ?off (?ord t (w_db w)) = Inr rs" "rows = map (store_row E (w_db w)) rs"
    by (auto split: sum.splits)
  have "\<forall>p \<in> set ps. shows_row E (w_db w) t p"
    by (rule scan_shows [OF scan]) (use limit_offset_Inr [OF rs(1)] in \<open>auto simp: rs(2) search_hit_def\<close>)
  with t' r show ?thesis by simp
qed

lemma detail_shows:
  assumes "productDetail E S u param w = (w', Inr (JSON s r)) \<or> productBySKU E S u query w = (w', Inr (JSON s r))"
  shows "\<exists>t. find (\<lambda>t. ToLower (tn_username t) = ToLower u) (tenants (w_db w)) = Some t \<and>
    (\<forall>p \<in> set (shown r). shows_row E (w_db w) t p)"
proof -
  have one: ?thesis if t: "resolveTenant u w = (v, Inr t)" and q: "one_product E S P v = (w', Inr (JSON s r))"
    and P: "\<And>p. P p \<Longrightarrow> on_sale (tn_id t) p" for v t P
    using resolveTenant_InrD [OF t] one_product_shows [OF q P] by auto
  from assms show ?thesis
  proof
    assume "productDetail E S u param w = (w', Inr (JSON s r))"
    then obtain t v where t: "resolveTenant u w = (v, Inr t)"
      and k: "(case e_uuid_parse E param of None \<Rightarrow> raise (BadRequest ''invalid product id'')
        | Some i \<Rightarrow> one_product E S (\<lambda>p. on_sale (tn_id t) p \<and> pr_id p = i)) v = (w', Inr (JSON s r))"
      unfolding productDetail_def by (rule bind_InrE)
    from k obtain i where "one_product E S (\<lambda>p. on_sale (tn_id t) p \<and> pr_id p = i) v = (w', Inr (JSON s r))"
      by (cases "e_uuid_parse E param") simp_all
    then show ?thesis by (rule one [OF t]) simp
  next
    assume "productBySKU E S u query w = (w', Inr (JSON s r))"
    then obtain t v where t: "resolveTenant u w = (v, Inr t)"
      and q: "one_product E S (\<lambda>p. on_sale (tn_id t) p \<and> e_sql_lower E (pr_sku p) = e_sql_lower E (query ''sku'')) v = (w', Inr (JSON s r))"
      unfolding productBySKU_def by (rule bind_InrE)
    show ?thesis by (rule one [OF t q]) simp
  qed
qed

text \<open>C22: The public sees active products of the store only: whatever the path, the query and the
  parameters of the request, every product in an answer of the landing page, the search, the
  product page and the lookup by SKU is an active product of the tenant with the user name of
  the path, with that product's own name, SKU and price.\<close>

theorem storefront_shows_active:
  assumes "landing E S u w = (w', Inr (JSON s r)) \<or> store_search E F S u query w = (w', Inr (JSON s r)) \<or>
    productDetail E S u param w = (w', Inr (JSON s r)) \<or> productBySKU E S u query w = (w', Inr (JSON s r))"
  shows "\<exists>t. find (\<lambda>t. ToLower (tn_username t) = ToLower u) (tenants (w_db w)) = Some t \<and>
    list_all (\<lambda>p. list_ex (\<lambda>q. pr_tenant q = tn_id t \<and> pr_status q = ''active'' \<and> sp_id p = pr_id q \<and>
      sp_sku p = pr_sku q \<and> sp_name p = pr_name q \<and> sp_price p = e_num_dec E (pr_price q)) (products (w_db w))) (shown r)"
  using assms unfolding list_all_iff shows_row_def [symmetric]
  by (elim disjE) (erule landing_shows, erule search_shows, erule detail_shows [OF disjI1], erule detail_shows [OF disjI2])


lemma sample_store_find: "find (\<lambda>t. ToLower (tn_username t) = ToLower ''ali'') (tenants sample_shop) = Some (hd (tenants sample_shop))"
  by (simp add: sample_shop_def sample_db_def sample_tenant_def)

lemma sample_products: "products sample_shop = [sample_product]"
  by (simp add: sample_shop_def)

lemma sample_store_id [simp]: "tn_id (hd (tenants sample_shop)) = 7"
  by (simp add: sample_shop_def sample_db_def sample_tenant_def)

theorem storefront_shows_active_witness:
  "\<exists>w' r. landing (sample_env sample_claims) sample_S ''ali'' (sample_world sample_shop) = (w', Inr (JSON 200 r)) \<and>
     list_all (\<lambda>p. sp_id p = 1) (shown r) \<and> length (shown r) = 1"
proof -
  have "\<exists>w' r. landing (sample_env sample_claims) sample_S ''ali'' (sample_world sample_shop) = (w', Inr (JSON 200 r)) \<and>
     length (shown r) = 1"
    unfolding landing_def bind_act_def resolveTenant_ok [OF sample_world_simps(1)] sample_world_simps(2) sample_store_find
    by (simp add: sel_ok bind_act_def scanStoreProducts_def sample_products sample_product_def order_desc_def on_sale_def
        sample_tenant_def signed_def signImage_def store_row_def)
  then obtain w' r where run: "landing (sample_env sample_claims) sample_S ''ali'' (sample_world sample_shop) = (w', Inr (JSON 200 r))"
    and len: "length (shown r) = 1" by blast
  from storefront_shows_active [OF disjI1, OF run]
  have "list_all (\<lambda>p. sp_id p = 1) (shown r)"
    by (auto simp: sample_shop_def sample_product_def list_all_iff)
  with run len show ?thesis by blast
qed

lemma scan_answers:
  "\<exists>v ps. scanStoreProducts S rows v0 = (v, Inr ps) \<and> map sp_id ps = map (\<lambda>r. sp_id (fst r)) rows"
  unfolding scanStoreProducts_def
proof (induction rows arbitrary: v0)
  case (Cons row rows)
  have "\<exists>v p. signed S row v0 = (v, Inr p)"
    by (simp add: signed_def signImage_def bind_attempt bind_act_def attempt_run)
  then obtain v p where one: "signed S row v0 = (v, Inr p)" by blast
  then have "sp_id p = sp_id (fst row)" using signed_InrD by fastforce
  moreover obtain v1 ps where "for_each rows (signed S) v = (v1, Inr ps)" "map sp_id ps = map (\<lambda>r. sp_id (fst r)) rows"
    using Cons.IH by blast
  ultimately show ?case using one by simp
qed simp

text \<open>C40: The search shows a page of the products on sale that it finds, in the order of their rank and then
  of their age: at most as many as the limit parameter says, which is between one and a hundred or else
  read as twenty, so never more than a hundred, from the offset on. A
  negative offset, which is not corrected the way the other lists correct it, is refused by the
  database, so the visitor gets an internal error.\<close>

theorem search_bounds:
  assumes "w_faults w = []" and "find (\<lambda>t. ToLower (tn_username t) = ToLower u) (tenants (w_db w)) = Some t"
  shows "let off = fst (Atoi (query ''offset'')); q = query ''q'';
      hits = order_desc (fts_rank F q) (order_desc pr_created (filter (search_hit E F (tn_id t) q) (products (w_db w)))) in
    if off < 0
    then store_search E F S u query w = (w, Inl (ErrDb BadOffset)) \<and>
      ErrorHandler (ErrDb BadOffset) False = Some (500, \<lparr>eb_code = ''internal'',
        eb_message = ''an unexpected error occurred'', eb_fields = None\<rparr>)
    else \<exists>w' ps. store_search E F S u query w = (w', Inr (JSON 200 (R_found q ps))) \<and>
      map sp_id ps = map pr_id (take (nat (search_limit query)) (drop (nat off) hits)) \<and> length ps \<le> 100"
proof -
  let ?off = "fst (Atoi (query ''offset''))" and ?q = "query ''q''"
  let ?hits = "order_desc (fts_rank F ?q) (order_desc pr_created (filter (search_hit E F (tn_id t) ?q) (products (w_db w))))"
  have lim: "1 \<le> search_limit query \<and> search_limit query \<le> 100" by (auto simp: search_limit_def Let_def)
  have bad: "opaque (ErrDb BadOffset)" by (simp add: opaque_def)
  show ?thesis
  proof (cases "?off < 0")
    case True
    then show ?thesis using assms bad
      by (simp add: store_search_def Let_def bind_act_def resolveTenant_ok sql_ok limit_offset_def ErrorHandler_opaque)
  next
    case False
    let ?rs = "take (nat (search_limit query)) (drop (nat ?off) ?hits)"
    obtain v ps where scan: "scanStoreProducts S (map (store_row E (w_db w)) ?rs) w = (v, Inr ps)"
      and ids: "map sp_id ps = map (\<lambda>r. sp_id (fst r)) (map (store_row E (w_db w)) ?rs)"
      using scan_answers by blast
    have "store_search E F S u query w = (v, Inr (JSON 200 (R_found ?q ps)))"
      using assms False lim scan
      by (simp add: store_search_def Let_def bind_act_def resolveTenant_ok sql_ok limit_offset_def)
    moreover have "map sp_id ps = map pr_id ?rs" using ids by (simp add: store_row_def comp_def)
    moreover from arg_cong [OF this, of length] have "length ps \<le> 100" using lim by (simp add: min_le_iff_disj nat_le_iff)
    ultimately show ?thesis using False by (auto simp: Let_def)
  qed
qed

theorem search_bounds_witness:
  "snd (store_search (sample_env sample_claims) \<lparr>fts_match = (\<lambda>_ _. False), fts_rank = (\<lambda>_ _. 0)\<rparr> sample_S ''ali''
     (\<lambda>k. if k = ''offset'' then ''-1'' else '''') (sample_world sample_shop)) = Inl (ErrDb BadOffset)"
proof -
  have "fst (Atoi ''-1'') = - 1" by code_simp
  then show ?thesis
    using search_bounds [of "sample_world sample_shop" "''ali''" "hd (tenants sample_shop)" "\<lambda>k. if k = ''offset'' then ''-1'' else ''''"
        "\<lparr>fts_match = (\<lambda>_ _. False), fts_rank = (\<lambda>_ _. 0)\<rparr>" "sample_env sample_claims" sample_S] sample_store_find
    by (simp add: Let_def)
qed

end
