(* ===== verification/Customers.thy ===== *)
theory Customers
  imports Scoped GoTime
begin

text \<open>
  Customers (\<open>api/internal/customers/customers.go\<close>): repository, handlers, and the loyalty
  code, which the first eight characters of the id give when the request has none. The row and
  the struct have the same fields; a query that scans leaves \<open>TenantID\<close> zero.
\<close>

section \<open>Repository\<close>

definition scan_customer :: "customer \<Rightarrow> customer" where
  "scan_customer c = c\<lparr>cu_tenant := uuid_Nil\<rparr>"

definition customer_Create :: "'z env_scheme \<Rightarrow> customer \<Rightarrow> customer go" where
  "customer_Create E c =
     bind_act (new_uuid E) (\<lambda>i. bind_act now (\<lambda>n.
       (let c' = c\<lparr>cu_id := i, cu_created := n\<rparr>
        in sql (\<lambda>d. commit c' (d\<lparr>customers := customers d @ [c']\<rparr>)))))"

definition own_customer :: "uuid \<Rightarrow> uuid \<Rightarrow> customer \<Rightarrow> bool" where
  "own_customer tenantID i c \<longleftrightarrow> cu_id c = i \<and> cu_tenant c = tenantID"

definition customer_Update :: "customer \<Rightarrow> unit go" where
  "customer_Update c =
     affecting PCustomers (sql (\<lambda>d. commit (affected (own_customer (cu_tenant c) (cu_id c)) (customers d))
       (d\<lparr>customers := update_rows (own_customer (cu_tenant c) (cu_id c))
            (\<lambda>r. r\<lparr>cu_full_name := cu_full_name c, cu_ic_no := cu_ic_no c, cu_dob := cu_dob c,
                    cu_email := cu_email c, cu_contact_no := cu_contact_no c,
                    cu_mailing_addr := cu_mailing_addr c, cu_city := cu_city c, cu_postcode := cu_postcode c,
                    cu_state := cu_state c, cu_loyalty := cu_loyalty c, cu_type := cu_type c\<rparr>)
            (customers d)\<rparr>)))"

text \<open>The delete unlinks the orders of the customer.\<close>

definition drop_customers :: "(customer \<Rightarrow> bool) \<Rightarrow> db \<Rightarrow> db" where
  "drop_customers P d =
     (let gone = map cu_id (filter P (customers d))
      in d\<lparr>customers := delete_rows P (customers d),
           orders := update_rows (\<lambda>r. case or_customer r of None \<Rightarrow> False | Some i \<Rightarrow> i \<in> set gone)
             (\<lambda>r. r\<lparr>or_customer := None\<rparr>) (orders d)\<rparr>)"

definition customer_Delete :: "uuid \<Rightarrow> uuid \<Rightarrow> unit go" where
  "customer_Delete tenantID i =
     affecting PCustomers (sql (\<lambda>d. commit (affected (own_customer tenantID i) (customers d))
       (drop_customers (own_customer tenantID i) d)))"

definition customer_Get :: "uuid \<Rightarrow> uuid \<Rightarrow> customer go" where
  "customer_Get tenantID i =
     query_row PCustomers (\<lambda>d. map_option scan_customer (find (own_customer tenantID i) (customers d)))"

definition GetByLoyalty :: "uuid \<Rightarrow> string \<Rightarrow> customer go" where
  "GetByLoyalty tenantID code_text =
     query_row PCustomers (\<lambda>d. map_option scan_customer
       (find (\<lambda>c. cu_tenant c = tenantID \<and> cu_loyalty c = code_text) (customers d)))"

definition customer_List ::
  "'z env_scheme \<Rightarrow> uuid \<Rightarrow> string \<Rightarrow> int \<Rightarrow> int \<Rightarrow> (customer list \<times> nat) go" where
  "customer_List E tenantID search lmt off =
     query_page (\<lambda>d. map scan_customer (filter (\<lambda>c. cu_tenant c = tenantID \<and>
         searching E search [cu_full_name c, cu_email c, cu_loyalty c, cu_contact_no c]) (customers d)))
       cu_created lmt off"

section \<open>Handlers\<close>

record customer_input =
  ci_full_name :: string
  ci_ic_no :: string
  ci_dob :: string
  ci_email :: string
  ci_contact_no :: string
  ci_mailing_addr :: string
  ci_city :: string
  ci_postcode :: string
  ci_state :: string
  ci_loyalty :: string
  ci_type :: string

definition zero_instant :: time where
  "zero_instant = - 62135596800 * Second"

definition customer_bind :: "customer_input option \<Rightarrow> customer go" where
  "customer_bind body =
     bind_act (Bind body) (\<lambda>i.
     bind_act (valid_or (Require ''full_name'' (ci_full_name i) [])) (\<lambda>_.
     ret \<lparr>cu_id = uuid_Nil, cu_tenant = uuid_Nil, cu_full_name = ci_full_name i, cu_ic_no = ci_ic_no i,
          cu_dob = (if ci_dob i \<noteq> '''' then parse_date (ci_dob i) else None), cu_email = ci_email i,
          cu_contact_no = ci_contact_no i, cu_mailing_addr = ci_mailing_addr i, cu_city = ci_city i,
          cu_postcode = ci_postcode i, cu_state = ci_state i, cu_loyalty = ci_loyalty i,
          cu_type = (if ci_type i = '''' then ''regular'' else ci_type i), cu_created = zero_instant\<rparr>))"

datatype customer_reply = R_customer customer | R_customers "customer list_response"

definition customersErr :: "go_err \<Rightarrow> go_err" where
  "customersErr = mapErr PCustomers ''customer not found''"

definition customer_list ::
  "'z env_scheme \<Rightarrow> identity option \<Rightarrow> (string \<Rightarrow> string) \<Rightarrow> customer_reply response go" where
  "customer_list E ctx query =
     (let p = ParsePage query in
      bind_act (customer_List E (tid ctx) (pg_search p) (pg_limit p) (pg_offset p)) (\<lambda>(items, n).
      ret (JSON 200 (R_customers \<lparr>lr_records = items, lr_query_count = n, lr_total_count = n\<rparr>))))"

definition customer_create ::
  "'z env_scheme \<Rightarrow> identity option \<Rightarrow> customer_input option \<Rightarrow> customer_reply response go" where
  "customer_create E ctx body =
     bind_act (customer_bind body) (\<lambda>c0.
     bind_act (customer_Create E (c0\<lparr>cu_tenant := tid ctx\<rparr>)) (\<lambda>c1.
     if cu_loyalty c1 = '''' then
       (let c2 = c1\<lparr>cu_loyalty := take 8 (e_uuid_str E (cu_id c1)), cu_tenant := tid ctx\<rparr>
        in bind_act (ignore (customer_Update c2)) (\<lambda>_. ret (JSON 201 (R_customer c2))))
     else ret (JSON 201 (R_customer c1))))"

definition customer_get :: "'z env_scheme \<Rightarrow> identity option \<Rightarrow> string \<Rightarrow> customer_reply response go" where
  "customer_get E ctx param =
     bind_act (parseID E param) (\<lambda>i.
     bind_act (map_err customersErr (customer_Get (tid ctx) i)) (\<lambda>c. ret (JSON 200 (R_customer c))))"

definition byLoyalty :: "identity option \<Rightarrow> string \<Rightarrow> customer_reply response go" where
  "byLoyalty ctx code_text =
     bind_act (map_err customersErr (GetByLoyalty (tid ctx) code_text)) (\<lambda>c. ret (JSON 200 (R_customer c)))"

definition customer_update ::
  "'z env_scheme \<Rightarrow> identity option \<Rightarrow> string \<Rightarrow> customer_input option \<Rightarrow> customer_reply response go" where
  "customer_update E ctx param body =
     bind_act (parseID E param) (\<lambda>i.
     bind_act (customer_bind body) (\<lambda>c0.
     (let c1 = c0\<lparr>cu_id := i, cu_tenant := tid ctx\<rparr> in
      bind_act (map_err customersErr (customer_Update c1)) (\<lambda>_. ret (JSON 200 (R_customer c1))))))"

definition customer_delete :: "'z env_scheme \<Rightarrow> identity option \<Rightarrow> string \<Rightarrow> customer_reply response go" where
  "customer_delete E ctx param =
     bind_act (parseID E param) (\<lambda>i.
     bind_act (map_err customersErr (customer_Delete (tid ctx) i)) (\<lambda>_. ret (NoContent 204)))"

section \<open>What the operations do to the tables\<close>

lemma scoped_customer_Create: "cu_tenant c = t \<Longrightarrow> keeps (scoped t) (customer_Create E c)"
  unfolding customer_Create_def Let_def by (intro scoped_rules customer_table.scoped_insert) simp

lemma scoped_customer_Update: "cu_tenant c = t \<Longrightarrow> keeps (scoped t) (customer_Update c)"
  unfolding customer_Update_def
  by (intro scoped_rules customer_table.scoped_update) (auto simp: own_customer_def)

lemma reads_customers:
  "reads (customer_Get t i)" "reads (GetByLoyalty t s)" "reads (customer_List E t q l f)" "reads (customer_bind body)"
  unfolding customer_Get_def GetByLoyalty_def customer_List_def customer_bind_def
  by (intro reads_combinators reads_query_row reads_query_page)+

lemma scoped_customer_handlers:
  "keeps (scoped (tid ctx)) (customer_list E ctx q)" "keeps (scoped (tid ctx)) (customer_create E ctx body)"
  "keeps (scoped (tid ctx)) (customer_get E ctx param)" "keeps (scoped (tid ctx)) (byLoyalty ctx s)"
  "keeps (scoped (tid ctx)) (customer_update E ctx param body)"
  unfolding customer_list_def customer_create_def customer_get_def byLoyalty_def customer_update_def Let_def
  by (intro scoped_rules reads_customers [THEN scoped_reads] scoped_customer_Create scoped_customer_Update; simp)+

text \<open>A delete unlinks orders, which are the tenant's own when no other tenant's order names the customer.\<close>

definition own_customer_refs :: "uuid \<Rightarrow> db \<Rightarrow> bool" where
  "own_customer_refs t d \<longleftrightarrow>
     (\<forall>c \<in> set (customers d). \<forall>r \<in> set (orders d).
        cu_tenant c = t \<longrightarrow> or_customer r = Some (cu_id c) \<longrightarrow> or_tenant r = t)"

lemma view_drop_customers:
  assumes "\<And>c. P c \<Longrightarrow> cu_tenant c = t" and "own_customer_refs t d"
  shows "view (\<lambda>u. u \<noteq> t) (drop_customers P d) = view (\<lambda>u. u \<noteq> t) d"
proof -
  have "filter (\<lambda>c. cu_tenant c \<noteq> t) (delete_rows P (customers d)) = filter (\<lambda>c. cu_tenant c \<noteq> t) (customers d)"
    by (rule delete_rows_frame) (use assms(1) in auto)
  moreover have "filter (\<lambda>r. or_tenant r \<noteq> t) (update_rows (\<lambda>r. case or_customer r of None \<Rightarrow> False
        | Some i \<Rightarrow> i \<in> set (map cu_id (filter P (customers d)))) (\<lambda>r. r\<lparr>or_customer := None\<rparr>) (orders d))
      = filter (\<lambda>r. or_tenant r \<noteq> t) (orders d)"
    by (rule update_rows_frame) (use assms in \<open>auto simp: own_customer_refs_def split: option.splits\<close>)
  ultimately show ?thesis by (simp add: view_def order_ids_def drop_customers_def Let_def)
qed

lemma spent_customer_delete: "keeps keeps_spent (customer_delete E ctx param)"
  unfolding customer_delete_def customer_Delete_def affecting_def drop_customers_def Let_def
  by (intro spent_store spent_sql spent_reads [OF reads_parseID]; auto intro!: spent_other_tables)

section \<open>Loyalty codes\<close>

definition sample_customer :: customer_input where
  "sample_customer = \<lparr>ci_full_name = ''Siti'', ci_ic_no = '''', ci_dob = '''', ci_email = '''', ci_contact_no = '''',
     ci_mailing_addr = '''', ci_city = '''', ci_postcode = '''', ci_state = '''', ci_loyalty = '''', ci_type = ''''\<rparr>"

lemma customer_Create_violation:
  assumes "w_faults w = []" and "c' \<in> set (customers (w_db w))" and "cu_tenant c' = cu_tenant c"
    and "cu_loyalty c' = cu_loyalty c"
  shows "customer_Create E c w = (w\<lparr>w_seed := Suc (w_seed w)\<rparr>, Inl (ErrDb Violation))"
proof -
  have "(cu_tenant c, cu_loyalty c) \<in> (\<lambda>c. (cu_tenant c, cu_loyalty c)) ` set (customers (w_db w))"
    using assms(2-4) by (intro image_eqI [of _ _ c']) simp_all
  then have "\<not> db_ok (w_db w\<lparr>customers := customers (w_db w) @ [c\<lparr>cu_id := i, cu_created := n\<rparr>]\<rparr>)" for i n
    by (simp add: db_ok_def customers_ok_def)
  then show ?thesis
    by (simp add: customer_Create_def bind_act_def new_uuid_run now_run Let_def sql_ok assms(1) commit_def)
qed

text \<open>A customer whose loyalty code is empty blocks the tenant: the database holds one empty
  code for a tenant, and creating a customer without a code inserts the empty code first, so
  every such request fails with an internal error for as long as that row is there. An update
  without a code makes such a row.\<close>

theorem empty_loyalty_blocks:
  assumes "w_faults w = []" and "c \<in> set (customers (w_db w))" and "cu_tenant c = tid ctx" and "cu_loyalty c = ''''"
    and "TrimSpace (ci_full_name i) \<noteq> ''''" and "ci_loyalty i = ''''"
  shows "\<exists>w' e. customer_create E ctx (Some i) w = (w', Inl e) \<and> w_db w' = w_db w \<and>
     ErrorHandler e False = Some (500, \<lparr>eb_code = ''internal'', eb_message = ''an unexpected error occurred'',
       eb_fields = None\<rparr>)"
proof -
  obtain c0 where bind: "customer_bind (Some i) w = (w, Inr c0)" and c0: "cu_loyalty c0 = ''''"
    using assms(5,6) by (simp add: customer_bind_def bind_act_def)
  have "customer_Create E (c0\<lparr>cu_tenant := tid ctx\<rparr>) w = (w\<lparr>w_seed := Suc (w_seed w)\<rparr>, Inl (ErrDb Violation))"
    using assms(2-4) c0 by (intro customer_Create_violation [OF assms(1)]) auto
  with bind have "customer_create E ctx (Some i) w = (w\<lparr>w_seed := Suc (w_seed w)\<rparr>, Inl (ErrDb Violation))"
    by (simp add: customer_create_def)
  moreover have "opaque (ErrDb Violation)" by (simp add: opaque_def)
  ultimately show ?thesis using ErrorHandler_opaque by auto
qed

definition sample_blocked :: db where
  "sample_blocked = sample_db\<lparr>customers :=
     [\<lparr>cu_id = 4, cu_tenant = 7, cu_full_name = ''Abu'', cu_ic_no = '''', cu_dob = None, cu_email = '''',
       cu_contact_no = '''', cu_mailing_addr = '''', cu_city = '''', cu_postcode = '''', cu_state = '''',
       cu_loyalty = '''', cu_type = ''regular'', cu_created = 0\<rparr>]\<rparr>"

theorem empty_loyalty_blocks_witness:
  "\<exists>w' e. customer_create (sample_env sample_claims)
      (Some \<lparr>idn_tenant = 7, idn_role = ''seller'', idn_username = ''ali''\<rparr>) (Some sample_customer)
      (sample_world sample_blocked) = (w', Inl e)"
proof -
  have name: "TrimSpace (ci_full_name sample_customer) \<noteq> ''''"
    unfolding sample_customer_def by simp code_simp
  have "tid (Some \<lparr>idn_tenant = 7, idn_role = ''seller'', idn_username = ''ali''\<rparr>) = 7"
    by (simp add: tid_Some uuid_Nil_def)
  then show ?thesis
    using empty_loyalty_blocks [where w = "sample_world sample_blocked" and c = "hd (customers sample_blocked)"
        and ctx = "Some \<lparr>idn_tenant = 7, idn_role = ''seller'', idn_username = ''ali''\<rparr>" and i = sample_customer, OF _ _ _ _ name]
    by (fastforce simp: sample_world_def sample_blocked_def sample_customer_def)
qed

end
