(* ===== verification/Coupons.thy ===== *)
theory Coupons
  imports Scoped GoTime
begin

text \<open>
  Coupons (\<open>api/internal/coupons/coupons.go\<close>): repository and handlers. \<open>Expired\<close> is not a
  column: a read computes it from the clock.
\<close>

record coupon =
  co_id :: uuid
  co_tenant :: uuid
  co_product :: "uuid option"
  co_campaign :: string
  co_desc :: string
  co_expired_date :: "time option"
  co_created :: time
  co_expired :: bool

section \<open>Repository\<close>

definition coupon_Create :: "'z env_scheme \<Rightarrow> coupon \<Rightarrow> coupon go" where
  "coupon_Create E c =
     bind_act (new_uuid E) (\<lambda>i. bind_act now (\<lambda>n.
       (let r = \<lparr>cp_id = i, cp_tenant = co_tenant c, cp_product = co_product c, cp_campaign = co_campaign c,
                 cp_desc = co_desc c, cp_expired = co_expired_date c, cp_created = n\<rparr>
        in sql (\<lambda>d. commit (c\<lparr>co_id := i, co_created := n\<rparr>) (d\<lparr>coupons := coupons d @ [r]\<rparr>)))))"

definition own_coupon :: "uuid \<Rightarrow> uuid \<Rightarrow> coupon_row \<Rightarrow> bool" where
  "own_coupon tenantID i r \<longleftrightarrow> cp_id r = i \<and> cp_tenant r = tenantID"

definition coupon_Update :: "coupon \<Rightarrow> unit go" where
  "coupon_Update c =
     affecting PCoupons (sql (\<lambda>d. commit (affected (own_coupon (co_tenant c) (co_id c)) (coupons d))
       (d\<lparr>coupons := update_rows (own_coupon (co_tenant c) (co_id c))
            (\<lambda>r. r\<lparr>cp_product := co_product c, cp_campaign := co_campaign c, cp_desc := co_desc c,
                    cp_expired := co_expired_date c\<rparr>) (coupons d)\<rparr>)))"

definition coupon_Delete :: "uuid \<Rightarrow> uuid \<Rightarrow> unit go" where
  "coupon_Delete tenantID i =
     affecting PCoupons (sql (\<lambda>d. commit (affected (own_coupon tenantID i) (coupons d))
       (d\<lparr>coupons := delete_rows (own_coupon tenantID i) (coupons d)\<rparr>)))"

definition is_expired :: "time \<Rightarrow> time option \<Rightarrow> bool" where
  "is_expired n x = (case x of None \<Rightarrow> False | Some t \<Rightarrow> t < n)"

definition coupon_of_row :: "time \<Rightarrow> coupon_row \<Rightarrow> coupon" where
  "coupon_of_row n r =
     \<lparr>co_id = cp_id r, co_tenant = uuid_Nil, co_product = cp_product r, co_campaign = cp_campaign r,
      co_desc = cp_desc r, co_expired_date = cp_expired r, co_created = cp_created r,
      co_expired = is_expired n (cp_expired r)\<rparr>"

definition coupon_Get :: "uuid \<Rightarrow> uuid \<Rightarrow> coupon go" where
  "coupon_Get tenantID i =
     bind_act (query_row PCoupons (\<lambda>d. find (own_coupon tenantID i) (coupons d))) (\<lambda>r.
     bind_act now (\<lambda>n. ret (coupon_of_row n r)))"

definition coupon_List ::
  "'z env_scheme \<Rightarrow> uuid \<Rightarrow> string \<Rightarrow> int \<Rightarrow> int \<Rightarrow> (coupon list \<times> nat) go" where
  "coupon_List E tenantID search lmt off =
     bind_act (query_page (\<lambda>d. filter (\<lambda>c. cp_tenant c = tenantID \<and>
         searching E search [cp_campaign c, cp_desc c]) (coupons d)) cp_created lmt off) (\<lambda>(rs, n).
     bind_act now (\<lambda>t. ret (map (coupon_of_row t) rs, n)))"

section \<open>Handlers\<close>

record coupon_input =
  qi_product :: string
  qi_campaign :: string
  qi_desc :: string
  qi_expired :: string

text \<open>The layouts are tried in order; a date that fits none is dropped without an error.\<close>

definition parse_expiry :: "string \<Rightarrow> time option" where
  "parse_expiry s =
     (case parse_rfc3339 s of Some t \<Rightarrow> Some t
      | None \<Rightarrow> (case parse_date s of Some t \<Rightarrow> Some t | None \<Rightarrow> parse_date_time s))"

definition coupon_bind :: "'z env_scheme \<Rightarrow> coupon_input option \<Rightarrow> coupon go" where
  "coupon_bind E body =
     bind_act (Bind body) (\<lambda>i.
     bind_act (valid_or (Require ''campaign'' (qi_campaign i) [])) (\<lambda>_.
     bind_act (if qi_product i \<noteq> '''' then
                 (case e_uuid_parse E (qi_product i) of
                    None \<Rightarrow> raise (BadRequest ''invalid product_id'')
                  | Some p \<Rightarrow> ret (Some p))
               else ret None) (\<lambda>prod.
     ret \<lparr>co_id = uuid_Nil, co_tenant = uuid_Nil, co_product = prod, co_campaign = qi_campaign i,
          co_desc = qi_desc i,
          co_expired_date = (if qi_expired i \<noteq> '''' then parse_expiry (qi_expired i) else None),
          co_created = - 62135596800 * Second, co_expired = False\<rparr>)))"

datatype coupon_reply = R_coupon coupon | R_coupons "coupon list_response"

definition couponsErr :: "go_err \<Rightarrow> go_err" where
  "couponsErr = mapErr PCoupons ''coupon not found''"

definition coupon_list ::
  "'z env_scheme \<Rightarrow> identity option \<Rightarrow> (string \<Rightarrow> string) \<Rightarrow> coupon_reply response go" where
  "coupon_list E ctx query =
     (let p = ParsePage query in
      bind_act (coupon_List E (tid ctx) (pg_search p) (pg_limit p) (pg_offset p)) (\<lambda>(items, n).
      ret (JSON 200 (R_coupons \<lparr>lr_records = items, lr_query_count = n, lr_total_count = n\<rparr>))))"

definition coupon_create ::
  "'z env_scheme \<Rightarrow> identity option \<Rightarrow> coupon_input option \<Rightarrow> coupon_reply response go" where
  "coupon_create E ctx body =
     bind_act (coupon_bind E body) (\<lambda>c0.
     bind_act (coupon_Create E (c0\<lparr>co_tenant := tid ctx\<rparr>)) (\<lambda>c. ret (JSON 201 (R_coupon c))))"

definition coupon_get :: "'z env_scheme \<Rightarrow> identity option \<Rightarrow> string \<Rightarrow> coupon_reply response go" where
  "coupon_get E ctx param =
     bind_act (parseID E param) (\<lambda>i.
     bind_act (map_err couponsErr (coupon_Get (tid ctx) i)) (\<lambda>c. ret (JSON 200 (R_coupon c))))"

definition coupon_update ::
  "'z env_scheme \<Rightarrow> identity option \<Rightarrow> string \<Rightarrow> coupon_input option \<Rightarrow> coupon_reply response go" where
  "coupon_update E ctx param body =
     bind_act (parseID E param) (\<lambda>i.
     bind_act (coupon_bind E body) (\<lambda>c0.
     (let c = c0\<lparr>co_id := i, co_tenant := tid ctx\<rparr> in
      bind_act (map_err couponsErr (coupon_Update c)) (\<lambda>_. ret (JSON 200 (R_coupon c))))))"

definition coupon_delete :: "'z env_scheme \<Rightarrow> identity option \<Rightarrow> string \<Rightarrow> coupon_reply response go" where
  "coupon_delete E ctx param =
     bind_act (parseID E param) (\<lambda>i.
     bind_act (map_err couponsErr (coupon_Delete (tid ctx) i)) (\<lambda>_. ret (NoContent 204)))"

section \<open>What the operations do to the tables\<close>

lemma scoped_coupon_Create: "co_tenant c = t \<Longrightarrow> keeps (scoped t) (coupon_Create E c)"
  unfolding coupon_Create_def Let_def by (intro scoped_rules coupon_table.scoped_insert) simp

lemma scoped_coupon_Update: "co_tenant c = t \<Longrightarrow> keeps (scoped t) (coupon_Update c)"
  unfolding coupon_Update_def
  by (intro scoped_rules coupon_table.scoped_update) (auto simp: own_coupon_def)

lemma scoped_coupon_Delete: "keeps (scoped t) (coupon_Delete t i)"
  unfolding coupon_Delete_def
  by (intro scoped_rules coupon_table.scoped_delete) (auto simp: own_coupon_def)

lemma reads_coupons:
  "reads (coupon_Get t i)" "reads (coupon_List E t q l f)" "reads (coupon_bind E body)"
  unfolding coupon_Get_def coupon_List_def coupon_bind_def
  by (intro reads_combinators reads_query_row reads_query_page)+

lemma scoped_coupon_handlers:
  "keeps (scoped (tid ctx)) (coupon_list E ctx q)" "keeps (scoped (tid ctx)) (coupon_create E ctx body)"
  "keeps (scoped (tid ctx)) (coupon_get E ctx param)" "keeps (scoped (tid ctx)) (coupon_update E ctx param body)"
  "keeps (scoped (tid ctx)) (coupon_delete E ctx param)"
  unfolding coupon_list_def coupon_create_def coupon_get_def coupon_update_def coupon_delete_def Let_def
  by (intro scoped_rules reads_coupons [THEN scoped_reads] scoped_coupon_Create scoped_coupon_Update
      scoped_coupon_Delete; simp)+

section \<open>Expiry\<close>

text \<open>Whether a coupon that is read is expired depends on the clock only: it is when its date
  lies before the instant of the read, a coupon without a date never is, and one that is expired
  stays so at every later read of the same row.\<close>

theorem coupon_expiry:
  assumes "w_faults w = []" and "find (own_coupon t i) (coupons (w_db w)) = Some r"
    and "w_faults v = []" and "w_db v = w_db w" and "w_now w \<le> w_now v"
  shows "\<exists>c c'. coupon_Get t i w = (w, Inr c) \<and> coupon_Get t i v = (v, Inr c') \<and>
     co_expired c = (case cp_expired r of None \<Rightarrow> False | Some x \<Rightarrow> x < w_now w) \<and>
     (co_expired c \<longrightarrow> co_expired c')"
  using assms
  by (auto simp: coupon_Get_def bind_act_def query_row_ok now_run coupon_of_row_def is_expired_def split: option.splits)

definition sample_coupon :: coupon_row where
  "sample_coupon = \<lparr>cp_id = 2, cp_tenant = 7, cp_product = None, cp_campaign = ''Raya'', cp_desc = '''',
     cp_expired = Some (- 1), cp_created = 0\<rparr>"

theorem coupon_expiry_witness:
  "\<exists>c. snd (coupon_Get 7 2 (sample_world (sample_db\<lparr>coupons := [sample_coupon]\<rparr>))) = Inr c \<and> co_expired c"
  using coupon_expiry [of "sample_world (sample_db\<lparr>coupons := [sample_coupon]\<rparr>)" 7 2 sample_coupon
      "sample_world (sample_db\<lparr>coupons := [sample_coupon]\<rparr>)"]
  by (fastforce simp: sample_world_def own_coupon_def sample_coupon_def)

end
