(* ===== verification/ReadIsolation.thy ===== *)
theory ReadIsolation
  imports Storefront Customers Coupons
begin

text \<open>
  What a seller can learn from the lists and the pages of the back office: two runs of the same
  request from states that agree on the seller's own rows (and on the clock and the faults)
  give the same answer. \<open>lockstep A m\<close> is that \<open>m\<close> answers the same from two states
  related by \<open>A\<close> and relates the states after; it composes over the combinators. Product
  pages show the name of whatever category a product points at; they answer the same when those are
  the tenant's own.
\<close>

section \<open>Two runs in step\<close>

definition lockstep :: "('s \<Rightarrow> 's \<Rightarrow> bool) \<Rightarrow> ('s, 'e, 'a) act \<Rightarrow> bool" where
  "lockstep A m \<longleftrightarrow> (\<forall>w v. A w v \<longrightarrow> snd (m w) = snd (m v) \<and> A (fst (m w)) (fst (m v)))"

lemma lockstepI:
  "(\<And>w v. A w v \<Longrightarrow> snd (m w) = snd (m v) \<and> A (fst (m w)) (fst (m v))) \<Longrightarrow> lockstep A m"
  by (simp add: lockstep_def)

lemma lockstepD:
  "lockstep A m \<Longrightarrow> A w v \<Longrightarrow> snd (m w) = snd (m v) \<and> A (fst (m w)) (fst (m v))"
  by (simp add: lockstep_def)

lemma lockstep_snd: "lockstep A m \<Longrightarrow> A w v \<Longrightarrow> snd (m w) = snd (m v)"
  by (simp add: lockstep_def)

lemma lockstep_bind_post:
  assumes m: "lockstep A m"
    and post: "\<And>w w' v v' x. A w v \<Longrightarrow> m w = (w', Inr x) \<Longrightarrow> m v = (v', Inr x) \<Longrightarrow> A w' v' \<Longrightarrow> B x w' v'"
    and f: "\<And>x. lockstep (B x) (f x)" and keep: "\<And>x w v. B x w v \<Longrightarrow> A w v"
  shows "lockstep A (bind_act m f)"
proof (rule lockstepI)
  fix w v assume A: "A w v"
  obtain w' r where w: "m w = (w', r)" by fastforce
  obtain v' q where v: "m v = (v', q)" by fastforce
  from lockstepD [OF m A] w v have rq: "q = r" and A': "A w' v'" by simp_all
  show "snd (bind_act m f w) = snd (bind_act m f v) \<and> A (fst (bind_act m f w)) (fst (bind_act m f v))"
  proof (cases r)
    case (Inl e)
    with w v rq A' show ?thesis by simp
  next
    case (Inr x)
    from post [OF A w [unfolded Inr] v [unfolded rq Inr] A'] have "B x w' v'" .
    from lockstepD [OF f this] show ?thesis using w v rq Inr keep by auto
  qed
qed

lemma lockstep_bind: "lockstep A m \<Longrightarrow> (\<And>x. lockstep A (f x)) \<Longrightarrow> lockstep A (bind_act m f)"
  by (rule lockstep_bind_post [where B = "\<lambda>_. A"]) simp_all

lemma lockstep_ret: "lockstep A (ret x)"
  by (simp add: lockstep_def)

lemma lockstep_raise: "lockstep A (raise e)"
  by (simp add: lockstep_def)

lemma lockstep_map_err: "lockstep A m \<Longrightarrow> lockstep A (map_err g m)"
proof (rule lockstepI)
  fix w v assume m: "lockstep A m" and "A w v"
  moreover obtain w' r where "m w = (w', r)" by fastforce
  moreover obtain v' q where "m v = (v', q)" by fastforce
  ultimately show "snd (map_err g m w) = snd (map_err g m v) \<and> A (fst (map_err g m w)) (fst (map_err g m v))"
    using lockstepD [OF m, of w v] by (cases r; cases q) (auto simp: map_err_def)
qed

lemma lockstep_attempt: "lockstep A m \<Longrightarrow> lockstep A (attempt m)"
  by (rule lockstepI, drule (1) lockstepD) (simp add: attempt_run)

lemma lockstep_case_option:
  "(r = None \<Longrightarrow> lockstep A m) \<Longrightarrow> (\<And>x. r = Some x \<Longrightarrow> lockstep A (f x)) \<Longrightarrow>
   lockstep A (case r of None \<Rightarrow> m | Some x \<Rightarrow> f x)"
  by (cases r) simp_all

lemma lockstep_case_prod: "(\<And>x y. p = (x, y) \<Longrightarrow> lockstep A (f x y)) \<Longrightarrow> lockstep A (case p of (x, y) \<Rightarrow> f x y)"
  by (cases p) simp

lemma lockstep_if: "(b \<Longrightarrow> lockstep A m) \<Longrightarrow> (\<not> b \<Longrightarrow> lockstep A n) \<Longrightarrow> lockstep A (if b then m else n)"
  by simp

lemma lockstep_for_each: "(\<And>x. x \<in> set xs \<Longrightarrow> lockstep A (f x)) \<Longrightarrow> lockstep A (for_each xs f)"
  by (induction xs) (auto intro: lockstep_bind lockstep_ret)

lemmas lockstep_combinators = lockstep_bind lockstep_ret lockstep_raise lockstep_map_err lockstep_attempt
  lockstep_case_option lockstep_case_prod lockstep_if lockstep_for_each

section \<open>Agreement on the rows of one tenant\<close>

definition own_view :: "uuid \<Rightarrow> db \<Rightarrow> db" where
  "own_view t d = view (\<lambda>u. u = t) d"

definition agree :: "uuid \<Rightarrow> world \<Rightarrow> world \<Rightarrow> bool" where
  "agree t w v \<longleftrightarrow> w_faults w = w_faults v \<and> w_now w = w_now v \<and> own_view t (w_db w) = own_view t (w_db v)"

definition own_fun :: "uuid \<Rightarrow> (db \<Rightarrow> 'a) \<Rightarrow> bool" where
  "own_fun t f \<longleftrightarrow> (\<forall>d e. own_view t d = own_view t e \<longrightarrow> f d = f e)"

lemma own_funI: "(\<And>d e. own_view t d = own_view t e \<Longrightarrow> f d = f e) \<Longrightarrow> own_fun t f"
  unfolding own_fun_def by blast

lemma own_funD: "own_fun t f \<Longrightarrow> own_view t d = own_view t e \<Longrightarrow> f d = f e"
  unfolding own_fun_def by blast

lemma lockstep_now: "lockstep (agree t) now"
  by (simp add: lockstep_def now_run agree_def)

lemma lockstep_sql:
  assumes "own_fun t (\<lambda>d. case q d of Inl e \<Rightarrow> Inl e | Inr (x, d') \<Rightarrow> Inr x)" and "\<And>d x d'. q d = Inr (x, d') \<Longrightarrow> d' = d"
  shows "lockstep (agree t) (sql q)"
proof (rule lockstepI)
  fix w v assume A: "agree t w v"
  then have f: "w_faults v = w_faults w" "w_now v = w_now w" and e: "own_view t (w_db w) = own_view t (w_db v)"
    by (simp_all add: agree_def)
  have same: "(case q (w_db w) of Inl e \<Rightarrow> Inl e | Inr (x, d') \<Rightarrow> Inr x) = (case q (w_db v) of Inl e \<Rightarrow> Inl e | Inr (x, d') \<Rightarrow> Inr x)"
    using assms(1) e by (rule own_funD)
  show "snd (sql q w) = snd (sql q v) \<and> agree t (fst (sql q w)) (fst (sql q v))"
    using same A f assms(2) [of "w_db w"] assms(2) [of "w_db v"] unfolding sql_def agree_def f(1)
    by (auto split: list.splits bool.splits sum.splits prod.splits)
qed

lemma own_fun_Inr: "own_fun t f \<Longrightarrow> own_fun t (\<lambda>d. Inr (f d))"
  by (rule own_funI) (drule (1) own_funD, simp)

lemma lockstep_sel: "own_fun t f \<Longrightarrow> lockstep (agree t) (sel f)"
  unfolding sel_def by (rule lockstep_sql) (simp_all add: own_fun_Inr)

lemma own_fun_const: "own_fun t (\<lambda>_. c)"
  by (rule own_funI) simp

lemma own_fun_app: "own_fun t f \<Longrightarrow> own_fun t (\<lambda>d. g (f d))"
  by (rule own_funI) (drule (1) own_funD, simp)

lemma filter_filter_and: "(\<And>r. Q r \<Longrightarrow> P r) \<Longrightarrow> filter Q xs = filter Q (filter P xs)"
  by (induction xs) auto

lemma own_fun_filter:
  assumes "\<And>d. rows (own_view t d) = filter P (rows d)" and "\<And>r. Q r \<Longrightarrow> P r"
  shows "own_fun t (\<lambda>d. filter Q (rows d))"
proof (rule own_funI)
  fix d e assume "own_view t d = own_view t e"
  then have "rows (own_view t d) = rows (own_view t e)" by simp
  then have "filter P (rows d) = filter P (rows e)" unfolding assms(1) .
  then show "filter Q (rows d) = filter Q (rows e)"
    using filter_filter_and [of Q P "rows d"] filter_filter_and [of Q P "rows e"] assms(2) by simp
qed

lemma own_view_tables:
  "orders (own_view t d) = filter (\<lambda>r. or_tenant r = t) (orders d)"
  "customers (own_view t d) = filter (\<lambda>c. cu_tenant c = t) (customers d)"
  "coupons (own_view t d) = filter (\<lambda>c. cp_tenant c = t) (coupons d)"
  "products (own_view t d) = filter (\<lambda>p. pr_tenant p = t) (products d)"
  "categories (own_view t d) = filter (\<lambda>c. ct_tenant c = t) (categories d)"
  "tenants (own_view t d) = filter (\<lambda>u. tn_id u = t) (tenants d)"
  by (simp_all add: own_view_def view_def)

lemma find_filter: "find P xs = (case filter P xs of [] \<Rightarrow> None | x # _ \<Rightarrow> Some x)"
  by (induction xs) auto

lemma own_fun_find: "own_fun t (\<lambda>d. filter Q (rows d)) \<Longrightarrow> own_fun t (\<lambda>d. find Q (rows d))"
  unfolding find_filter by (rule own_fun_app)

lemmas own_fun_tables =
  own_fun_filter [where rows = orders, OF own_view_tables(1)]
  own_fun_filter [where rows = customers, OF own_view_tables(2)]
  own_fun_filter [where rows = coupons, OF own_view_tables(3)]
  own_fun_filter [where rows = products, OF own_view_tables(4)]
  own_fun_filter [where rows = categories, OF own_view_tables(5)]
  own_fun_filter [where rows = tenants, OF own_view_tables(6)]

lemma lockstep_query_page: "own_fun t rows \<Longrightarrow> lockstep (agree t) (query_page rows created l f)"
  unfolding query_page_def
proof (intro lockstep_combinators lockstep_sel lockstep_sql)
  assume rows: "own_fun t rows"
  then show "own_fun t (\<lambda>d. length (rows d))" by (rule own_fun_app)
  have "own_fun t (\<lambda>d. (\<lambda>rs. limit_offset l f (order_desc created rs)) (rows d))" using rows by (rule own_fun_app)
  moreover have "(case (case limit_offset l f (order_desc created (rows d)) of Inl e \<Rightarrow> Inl e | Inr rs \<Rightarrow> Inr (rs, d)) of
      Inl e \<Rightarrow> Inl e | Inr (x, d') \<Rightarrow> Inr x) = limit_offset l f (order_desc created (rows d))" for d
    by (simp split: sum.splits)
  ultimately show "own_fun t (\<lambda>d. case (case limit_offset l f (order_desc created (rows d)) of Inl e \<Rightarrow> Inl e
      | Inr rs \<Rightarrow> Inr (rs, d)) of Inl e \<Rightarrow> Inl e | Inr (x, d') \<Rightarrow> Inr x)" by simp
qed (auto split: sum.splits)

lemma lockstep_query_row: "own_fun t f \<Longrightarrow> lockstep (agree t) (query_row p f)"
  unfolding query_row_def by (intro lockstep_combinators lockstep_sel)


section \<open>The children of an order\<close>

definition agree_on :: "uuid \<Rightarrow> uuid \<Rightarrow> world \<Rightarrow> world \<Rightarrow> bool" where
  "agree_on t i w v \<longleftrightarrow> agree t w v \<and> owns t i (w_db w) \<and> owns t i (w_db v)"

lemma owns_order_ids: "owns t i d \<Longrightarrow> i \<in> set (order_ids (\<lambda>u. u = t) d)"
  by (auto simp: owns_def list_ex_iff own_order_def order_ids_def)

lemma own_children:
  assumes "own_view t d = own_view t e" and "owns t i d" and "owns t i e"
  shows "filter (\<lambda>r. it_order r = i) (order_items d) = filter (\<lambda>r. it_order r = i) (order_items e)"
    and "filter (\<lambda>r. pm_order r = i) (payments d) = filter (\<lambda>r. pm_order r = i) (payments e)"
proof -
  have items: "filter (\<lambda>r. it_order r = i) (order_items d) = filter (\<lambda>r. it_order r = i) (order_items (own_view t d))"
    and pays: "filter (\<lambda>r. pm_order r = i) (payments d) = filter (\<lambda>r. pm_order r = i) (payments (own_view t d))"
    if "owns t i d" for d
    using owns_order_ids [OF that]
      filter_filter_and [of "\<lambda>r. it_order r = i" "\<lambda>r. it_order r \<in> set (order_ids (\<lambda>u. u = t) d)" "order_items d"]
      filter_filter_and [of "\<lambda>r. pm_order r = i" "\<lambda>r. pm_order r \<in> set (order_ids (\<lambda>u. u = t) d)" "payments d"]
    by (simp_all add: own_view_def view_def)
  show "filter (\<lambda>r. it_order r = i) (order_items d) = filter (\<lambda>r. it_order r = i) (order_items e)"
    using items [OF assms(2)] items [OF assms(3)] assms(1) by simp
  show "filter (\<lambda>r. pm_order r = i) (payments d) = filter (\<lambda>r. pm_order r = i) (payments e)"
    using pays [OF assms(2)] pays [OF assms(3)] assms(1) by simp
qed

lemma lockstep_sel_on:
  assumes "\<And>d e. own_view t d = own_view t e \<Longrightarrow> owns t i d \<Longrightarrow> owns t i e \<Longrightarrow> f d = f e"
  shows "lockstep (agree_on t i) (sel f)"
proof (rule lockstepI)
  fix w v assume A: "agree_on t i w v"
  then have "f (w_db w) = f (w_db v)" using assms [of "w_db w" "w_db v"] by (simp add: agree_on_def agree_def)
  with A show "snd (sel f w) = snd (sel f v) \<and> agree_on t i (fst (sel f w)) (fst (sel f v))"
    unfolding sel_def sql_def agree_on_def agree_def by (auto split: list.splits bool.splits)
qed

lemma lockstep_loadChildren: "lockstep (agree_on t (od_id o1)) (loadChildren E o1)"
  unfolding loadChildren_def
proof (intro lockstep_combinators lockstep_sel_on)
  fix d e assume e: "own_view t d = own_view t e" "owns t (od_id o1) d" "owns t (od_id o1) e"
  show "map (item_of_row E) (sort_key it_id (filter (\<lambda>r. it_order r = od_id o1) (order_items d))) =
      map (item_of_row E) (sort_key it_id (filter (\<lambda>r. it_order r = od_id o1) (order_items e)))"
    unfolding own_children(1) [OF e] ..
  show "map (payment_of_row E) (order_desc pm_created (filter (\<lambda>r. pm_order r = od_id o1) (payments d))) =
      map (payment_of_row E) (order_desc pm_created (filter (\<lambda>r. pm_order r = od_id o1) (payments e)))"
    unfolding own_children(2) [OF e] ..
qed

lemma own_fun_find_order: "own_fun t (\<lambda>d. find (own_order t i) (orders d))"
  by (rule own_fun_find, rule own_fun_tables(1)) (simp add: own_order_def)

lemma lockstep_repo_Get: "lockstep (agree t) (repo_Get E t i)"
  unfolding repo_Get_def
proof (rule lockstep_bind_post [where B = "\<lambda>o1. agree_on t (od_id o1)"])
  let ?q = "query_row POrders (\<lambda>d. map_option (order_of_row E) (find (own_order t i) (orders d)))"
  show "lockstep (agree t) ?q" by (intro lockstep_query_row own_fun_app [where g = "map_option (order_of_row E)"] own_fun_find_order)
  show "agree_on t (od_id x) w' v'" if A: "agree t w' v'" and w: "?q w = (w', Inr x)" and v: "?q v = (v', Inr x)" for w w' v v' x
  proof -
    have own: "owns t (od_id x) (w_db u')" if u: "?q u = (u', Inr x)" for u u'
    proof -
      from query_row_InrD [OF u] obtain r where r: "find (own_order t i) (orders (w_db u)) = Some r"
        and "x = order_of_row E r" "w_db u' = w_db u" by auto
      with find_Some_iff' [OF r] show ?thesis
        by (auto simp: owns_def list_ex_iff order_of_row_def own_order_def)
    qed
    show ?thesis using A own [OF w] own [OF v] by (simp add: agree_on_def)
  qed
qed (simp_all add: lockstep_loadChildren agree_on_def)

lemma lockstep_SignedGetURL: "lockstep (agree t) (st_SignedGetURL (LocalStorage F s) key ttl)"
  unfolding LocalStorage_def storage.simps local_SignedGetURL_def Let_def
  by (intro lockstep_combinators lockstep_now)

lemma lockstep_attachProofURLs: "lockstep (agree t) (attachProofURLs (LocalStorage F s) o1)"
  unfolding attachProofURLs_def by (intro lockstep_combinators lockstep_SignedGetURL)

lemma lockstep_order_Get: "lockstep (agree t) (order_Get E (LocalStorage F s) t i)"
  unfolding order_Get_def by (intro lockstep_combinators lockstep_repo_Get lockstep_attachProofURLs)

section \<open>The handlers that read\<close>

lemma lockstep_parse: "lockstep (agree t) (parseID E p)" "lockstep (agree t) (parseUUID E name p)"
  unfolding parseID_def parseUUID_def by (intro lockstep_combinators)+

lemma lockstep_order_page: "lockstep (agree (tid ctx)) (order_page E ctx ss p)"
  unfolding order_page_def order_List_def repo_List_def
  by (intro lockstep_combinators lockstep_query_page own_fun_app [where g = "map (order_of_row E)"] own_fun_tables) simp

lemma lockstep_customers:
  "lockstep (agree t) (customer_List E t q l f)" "lockstep (agree t) (customer_Get t i)" "lockstep (agree t) (GetByLoyalty t c)"
proof -
  show "lockstep (agree t) (customer_List E t q l f)"
    unfolding customer_List_def
    by (intro lockstep_query_page own_fun_app [where g = "map scan_customer"] own_fun_tables) simp
  show "lockstep (agree t) (customer_Get t i)"
    unfolding customer_Get_def
    by (intro lockstep_query_row own_fun_app [where g = "map_option scan_customer"] own_fun_find own_fun_tables)
      (simp add: own_customer_def)
  show "lockstep (agree t) (GetByLoyalty t c)"
    unfolding GetByLoyalty_def
    by (intro lockstep_query_row own_fun_app [where g = "map_option scan_customer"] own_fun_find own_fun_tables) simp
qed

lemma lockstep_coupons: "lockstep (agree t) (coupon_List E t q l f)" "lockstep (agree t) (coupon_Get t i)"
proof -
  show "lockstep (agree t) (coupon_List E t q l f)"
    unfolding coupon_List_def
    by (intro lockstep_combinators lockstep_query_page own_fun_tables lockstep_now) simp
  show "lockstep (agree t) (coupon_Get t i)"
    unfolding coupon_Get_def
    by (intro lockstep_combinators lockstep_query_row own_fun_find own_fun_tables lockstep_now)
      (simp add: own_coupon_def)
qed

lemma lockstep_categories: "lockstep (agree t) (ListCategories t)"
  unfolding ListCategories_def repo_ListCategories_def
  by (intro lockstep_sel own_fun_app [where g = "\<lambda>cs. map (\<lambda>c. c\<lparr>ct_tenant := uuid_Nil\<rparr>) (order_by ct_name cs)"]
      own_fun_tables) simp

lemma lockstep_dashboard: "lockstep (agree t) (dashboard_load t)"
proof -
  have "own_fun t (\<lambda>d. length (filter (\<lambda>r. or_tenant r = t) (orders d)))"
    "own_fun t (\<lambda>d. length (filter (\<lambda>r. or_tenant r = t \<and> or_status r = ''pending'') (orders d)))"
    "own_fun t (\<lambda>d. length (filter (\<lambda>p. pr_tenant p = t) (products d)))"
    "own_fun t (\<lambda>d. length (filter (\<lambda>c. cu_tenant c = t) (customers d)))"
    "own_fun t (\<lambda>d. length (filter (\<lambda>r. or_tenant r = t \<and> or_status r = ''shipped'') (orders d)))"
    by (rule own_fun_app [where g = length], rule own_fun_tables, simp)+
  note same = this
  show ?thesis
    unfolding dashboard_load_def
  proof (intro lockstep_sel own_funI)
    fix d e assume e: "own_view t d = own_view t e"
    show "\<lparr>cn_orders = length (filter (\<lambda>r. or_tenant r = t) (orders d)),
         cn_pending = length (filter (\<lambda>r. or_tenant r = t \<and> or_status r = ''pending'') (orders d)),
         cn_products = length (filter (\<lambda>p. pr_tenant p = t) (products d)),
         cn_customers = length (filter (\<lambda>c. cu_tenant c = t) (customers d)),
         cn_shipped = length (filter (\<lambda>r. or_tenant r = t \<and> or_status r = ''shipped'') (orders d))\<rparr> =
       \<lparr>cn_orders = length (filter (\<lambda>r. or_tenant r = t) (orders e)),
         cn_pending = length (filter (\<lambda>r. or_tenant r = t \<and> or_status r = ''pending'') (orders e)),
         cn_products = length (filter (\<lambda>p. pr_tenant p = t) (products e)),
         cn_customers = length (filter (\<lambda>c. cu_tenant c = t) (customers e)),
         cn_shipped = length (filter (\<lambda>r. or_tenant r = t \<and> or_status r = ''shipped'') (orders e))\<rparr>"
      using same [THEN own_funD, OF e] by (simp only:)
  qed
qed


lemma lockstep_handlers:
  "lockstep (agree (tid ctx)) (order_list E ctx q)" "lockstep (agree (tid ctx)) (listPending E ctx q)"
  "lockstep (agree (tid ctx)) (order_get E (LocalStorage F s) ctx p)"
  "lockstep (agree (tid ctx)) (customer_list E ctx q)" "lockstep (agree (tid ctx)) (customer_get E ctx p)"
  "lockstep (agree (tid ctx)) (byLoyalty ctx c)" "lockstep (agree (tid ctx)) (coupon_list E ctx q)"
  "lockstep (agree (tid ctx)) (coupon_get E ctx p)" "lockstep (agree (tid ctx)) (listCategories ctx)"
  "lockstep (agree (tid ctx)) (dashboard_counts ctx)"
  unfolding order_list_def listPending_def order_get_def customer_list_def customer_get_def byLoyalty_def coupon_list_def
    coupon_get_def listCategories_def dashboard_counts_def Let_def
  by (intro lockstep_combinators lockstep_order_page lockstep_parse lockstep_order_Get lockstep_customers lockstep_coupons
      lockstep_categories lockstep_dashboard)+

section \<open>Product pages\<close>

text \<open>A product page shows the name of the category its row points at, whoever's it is. When the rows of the
  tenant point at categories of the tenant only, that is one of its own rows too.\<close>

definition own_categories :: "uuid \<Rightarrow> db \<Rightarrow> bool" where
  "own_categories t d \<longleftrightarrow> list_all (\<lambda>p. pr_tenant p = t \<longrightarrow>
     list_all (\<lambda>k. pr_category p = Some (ct_id k) \<longrightarrow> ct_tenant k = t) (categories d)) (products d)"

definition agree_products :: "uuid \<Rightarrow> world \<Rightarrow> world \<Rightarrow> bool" where
  "agree_products t w v \<longleftrightarrow> agree t w v \<and> own_categories t (w_db w) \<and> own_categories t (w_db v)"

lemma find_own:
  assumes "\<And>x. x \<in> set xs \<Longrightarrow> P x \<Longrightarrow> Q x"
  shows "find P xs = find P (filter Q xs)"
  using assms by (induction xs) auto

lemma own_category_name:
  assumes "own_view t d = own_view t e" and "own_categories t d" and "own_categories t e"
    and "p \<in> set (products d)" and "p \<in> set (products e)" and "pr_tenant p = t"
  shows "category_name d (pr_category p) = category_name e (pr_category p)"
proof (cases "pr_category p")
  case (Some i)
  have own: "find (\<lambda>k. ct_id k = i) (categories c) = find (\<lambda>k. ct_id k = i) (filter (\<lambda>k. ct_tenant k = t) (categories c))"
    if "own_categories t c" "p \<in> set (products c)" for c
    by (rule find_own) (use that assms(6) Some in \<open>auto simp: own_categories_def list_all_iff\<close>)
  have "categories (own_view t d) = categories (own_view t e)" using assms(1) by simp
  then show ?thesis using own [OF assms(2,4)] own [OF assms(3,5)] by (simp add: Some category_name_def own_view_tables)
next
  case None
  have "find (\<lambda>k. False) xs = None" for xs :: "category list" by (simp add: find_None_iff)
  then show ?thesis by (simp add: None category_name_def)
qed

lemma own_pages:
  assumes "own_view t d = own_view t e" and "own_categories t d" and "own_categories t e"
    and "\<And>p. P p \<Longrightarrow> pr_tenant p = t"
  shows "map (product_of E d) (filter P (products d)) = map (product_of E e) (filter P (products e))"
proof -
  have same: "filter P (products d) = filter P (products e)"
    using own_funD [OF own_fun_tables(4) assms(1), of P] assms(4) by blast
  show ?thesis
    unfolding same
  proof (rule map_cong [OF refl])
    fix p assume "p \<in> set (filter P (products e))"
    moreover from this have "p \<in> set (filter P (products d))" unfolding same .
    ultimately have "p \<in> set (products e)" "p \<in> set (products d)" "pr_tenant p = t" using assms(4) by simp_all
    then show "product_of E d p = product_of E e p"
      using own_category_name [OF assms(1-3), of p] by (simp add: product_of_def)
  qed
qed

lemma lockstep_products_sql:
  assumes "\<And>d e. own_view t d = own_view t e \<Longrightarrow> own_categories t d \<Longrightarrow> own_categories t e \<Longrightarrow> f d = f e"
  shows "lockstep (agree_products t) (sql (\<lambda>d. case f d of Inl e \<Rightarrow> Inl e | Inr x \<Rightarrow> Inr (x, d)))"
proof (rule lockstepI)
  fix w v assume A: "agree_products t w v"
  then have "f (w_db w) = f (w_db v)" using assms [of "w_db w" "w_db v"] by (simp add: agree_products_def agree_def)
  moreover have run: "sql (\<lambda>d. case f d of Inl e \<Rightarrow> Inl e | Inr x \<Rightarrow> Inr (x, d)) u =
      (u\<lparr>w_faults := tl (w_faults u)\<rparr>, if w_faults u \<noteq> [] \<and> hd (w_faults u) then Inl (ErrDb Unavailable)
        else case f (w_db u) of Inl e \<Rightarrow> Inl (ErrDb e) | Inr x \<Rightarrow> Inr x)" for u
    by (cases "f (w_db u)"; cases "w_faults u"; cases "hd (w_faults u)") (simp_all add: sql_def)
  ultimately show "snd (sql (\<lambda>d. case f d of Inl e \<Rightarrow> Inl e | Inr x \<Rightarrow> Inr (x, d)) w) =
      snd (sql (\<lambda>d. case f d of Inl e \<Rightarrow> Inl e | Inr x \<Rightarrow> Inr (x, d)) v) \<and>
    agree_products t (fst (sql (\<lambda>d. case f d of Inl e \<Rightarrow> Inl e | Inr x \<Rightarrow> Inr (x, d)) w))
      (fst (sql (\<lambda>d. case f d of Inl e \<Rightarrow> Inl e | Inr x \<Rightarrow> Inr (x, d)) v))"
    using A unfolding run by (simp add: agree_products_def agree_def)
qed

lemma lockstep_products_sel:
  assumes "\<And>d e. own_view t d = own_view t e \<Longrightarrow> own_categories t d \<Longrightarrow> own_categories t e \<Longrightarrow> f d = f e"
  shows "lockstep (agree_products t) (sel f)"
proof -
  have "lockstep (agree_products t) (sql (\<lambda>d. case Inr (f d) of Inl e \<Rightarrow> Inl e | Inr x \<Rightarrow> Inr (x, d)))"
    by (rule lockstep_products_sql, drule (2) assms, simp only:)
  then show ?thesis by (simp add: sel_def)
qed

lemma lockstep_products_page:
  assumes "\<And>d e. own_view t d = own_view t e \<Longrightarrow> own_categories t d \<Longrightarrow> own_categories t e \<Longrightarrow> rows d = rows e"
  shows "lockstep (agree_products t) (query_page rows created l f)"
  unfolding query_page_def
proof (intro lockstep_combinators lockstep_products_sel)
  show "length (rows d) = length (rows e)" if "own_view t d = own_view t e" "own_categories t d" "own_categories t e" for d e
    using assms that by metis
  have "lockstep (agree_products t) (sql (\<lambda>d. case limit_offset l f (order_desc created (rows d)) of Inl e \<Rightarrow> Inl e | Inr x \<Rightarrow> Inr (x, d)))"
    by (rule lockstep_products_sql) (use assms in metis)
  then show "lockstep (agree_products t) (sql (\<lambda>d. case limit_offset l f (order_desc created (rows d)) of Inl e \<Rightarrow> Inl e | Inr rs \<Rightarrow> Inr (rs, d)))" .
qed

lemma lockstep_products_row:
  assumes "\<And>p. P p \<Longrightarrow> pr_tenant p = t"
  shows "lockstep (agree_products t) (query_row k (\<lambda>d. map_option (product_of E d) (find P (products d))))"
proof -
  have first: "map_option (product_of E d) (find P (products d)) =
      (case map (product_of E d) (filter P (products d)) of [] \<Rightarrow> None | x # _ \<Rightarrow> Some x)" for d
    unfolding find_filter by (simp split: list.split)
  have "map_option (product_of E d) (find P (products d)) = map_option (product_of E e) (find P (products e))"
    if "own_view t d = own_view t e" "own_categories t d" "own_categories t e" for d e
  proof -
    have "map (product_of E d) (filter P (products d)) = map (product_of E e) (filter P (products e))"
      by (rule own_pages [OF that]) (rule assms)
    then show ?thesis unfolding first by (simp only:)
  qed
  then show ?thesis unfolding query_row_def by (intro lockstep_combinators lockstep_products_sel)
qed

lemma lockstep_products_url: "lockstep (agree_products t) (attachImageURL (LocalStorage F s) p)"
proof -
  have "lockstep (agree_products t) now" by (simp add: lockstep_def now_run agree_products_def agree_def)
  then show ?thesis
    unfolding attachImageURL_def LocalStorage_def storage.simps local_SignedGetURL_def Let_def
    by (intro lockstep_combinators)
qed

lemma lockstep_products:
  "lockstep (agree_products (tid ctx)) (listProducts E (LocalStorage F s) ctx q)"
  "lockstep (agree_products (tid ctx)) (getProduct E (LocalStorage F s) ctx p)"
  "lockstep (agree_products (tid ctx)) (getProductBySKU E (LocalStorage F s) ctx p)"
  unfolding listProducts_def getProduct_def getProductBySKU_def ListProducts_def GetProduct_def GetProductBySKU_def
    repo_ListProducts_def repo_GetProduct_def repo_GetProductBySKU_def parseID_def Let_def
  by (intro lockstep_combinators lockstep_products_row lockstep_products_url lockstep_products_page own_pages;
      simp add: own_product_def sku_match_def)+

text \<open>C14: A seller learns nothing about other tenants from the back office: two states that agree on the
  seller's own rows, the clock and the faults, and differ in anything else, give the same answer
  to every request for orders, one order, customers, coupons, categories and the dashboard; and to every
  request for products, as long as the seller's products name no other tenant's category (a product that
  does shows that category's name).\<close>

theorem read_isolation:
  assumes "w_faults w = w_faults v" and "w_now w = w_now v"
    and "view (\<lambda>u. u = tid ctx) (w_db w) = view (\<lambda>u. u = tid ctx) (w_db v)"
  shows "snd (order_list E ctx q w) = snd (order_list E ctx q v) \<and> snd (listPending E ctx q w) = snd (listPending E ctx q v) \<and>
    snd (order_get E (LocalStorage F s) ctx p w) = snd (order_get E (LocalStorage F s) ctx p v) \<and>
    snd (customer_list E ctx q w) = snd (customer_list E ctx q v) \<and> snd (customer_get E ctx p w) = snd (customer_get E ctx p v) \<and>
    snd (byLoyalty ctx c w) = snd (byLoyalty ctx c v) \<and> snd (coupon_list E ctx q w) = snd (coupon_list E ctx q v) \<and>
    snd (coupon_get E ctx p w) = snd (coupon_get E ctx p v) \<and> snd (listCategories ctx w) = snd (listCategories ctx v) \<and>
    snd (dashboard_counts ctx w) = snd (dashboard_counts ctx v) \<and>
    (own_categories (tid ctx) (w_db w) \<and> own_categories (tid ctx) (w_db v) \<longrightarrow>
      snd (listProducts E (LocalStorage F s) ctx q w) = snd (listProducts E (LocalStorage F s) ctx q v) \<and>
      snd (getProduct E (LocalStorage F s) ctx p w) = snd (getProduct E (LocalStorage F s) ctx p v) \<and>
      snd (getProductBySKU E (LocalStorage F s) ctx c w) = snd (getProductBySKU E (LocalStorage F s) ctx c v))"
proof -
  have agree: "agree (tid ctx) w v" using assms by (simp add: agree_def own_view_def)
  have products: "agree_products (tid ctx) w v" if "own_categories (tid ctx) (w_db w) \<and> own_categories (tid ctx) (w_db v)"
    using agree that by (simp add: agree_products_def)
  show ?thesis
    by (intro conjI impI; intro lockstep_handlers [THEN lockstep_snd, OF agree]
      lockstep_products [THEN lockstep_snd, OF products])
qed

theorem read_isolation_witness:
  "snd (dashboard_counts sample_ctx (sample_world sample_orders)) =
     snd (dashboard_counts sample_ctx (sample_world (sample_orders\<lparr>orders := orders sample_orders @ [sample_order\<lparr>or_id := 10, or_tenant := 8\<rparr>]\<rparr>)))"
proof -
  let ?v = "sample_world (sample_orders\<lparr>orders := orders sample_orders @ [sample_order\<lparr>or_id := 10, or_tenant := 8\<rparr>]\<rparr>)"
  have "view (\<lambda>u. u = tid sample_ctx) (w_db (sample_world sample_orders)) = view (\<lambda>u. u = tid sample_ctx) (w_db ?v)"
    by (simp add: view_def order_ids_def sample_orders_def sample_order_def)
  moreover have "w_faults (sample_world sample_orders) = w_faults ?v" "w_now (sample_world sample_orders) = w_now ?v"
    by (simp_all add: sample_world_def)
  ultimately show ?thesis using read_isolation [of "sample_world sample_orders" ?v sample_ctx] by blast
qed

end
