(* ===== verification/Enhancements.thy ===== *)
theory Enhancements
  imports Storefront "HOL-Library.List_Lexorder"
begin

text \<open>
  The parts of \<open>api/internal/enhancements\<close> behind the handlers: the agent router
  (\<open>eh1_orchestration.go\<close>), the chase decision (\<open>eh2_fulfillment.go\<close>), notifications
  (\<open>eh3_notifications.go\<close>), content (\<open>eh4_ai_content.go\<close>), the sales trend
  (\<open>eh5_recommendations.go\<close>), gateways and currencies (\<open>eh6_payments.go\<close>) and the flags
  (\<open>flags.go\<close>). A Go map that is ranged over is a list of pairs in the order of that run.
\<close>

section \<open>Flags (flags.go)\<close>

definition Enabled :: "(string \<Rightarrow> string) \<Rightarrow> string \<Rightarrow> bool" where
  "Enabled getenv flag \<longleftrightarrow> getenv (''MH_'' @ flag) = ''true''"

definition FlagFulfillment :: string where
  "FlagFulfillment = ''EH2_FULFILLMENT''"

section \<open>The agent router (eh1\_orchestration.go)\<close>

datatype agent_kind = AgentSellerCopilot | AgentStorefrontAssistant | AgentFulfillment

record agent_request =
  aq_tenant :: string
  aq_role :: string
  aq_scope :: string
  aq_message :: string

record proposed_action =
  ac_kind :: string
  ac_target :: string
  ac_params :: "(string \<times> string) list"

record agent_response =
  rs_agent :: agent_kind
  rs_answer :: string
  rs_actions :: "proposed_action list"
  rs_grounded :: bool

record agent =
  ag_kind :: agent_kind
  ag_handle :: "agent_request \<Rightarrow> agent_response go"

type_synonym router = "agent_kind \<Rightarrow> agent option"

definition NewRouter :: "agent list \<Rightarrow> router" where
  "NewRouter agents = foldl (\<lambda>m a. m(ag_kind a \<mapsto> a)) (\<lambda>_. None) agents"

fun containsAny :: "string \<Rightarrow> string list \<Rightarrow> bool" where
  "containsAny s [] = False"
| "containsAny s (sub # subs) = (if Contains s sub then True else containsAny s subs)"

definition Route :: "(string \<Rightarrow> string) \<Rightarrow> agent_request \<Rightarrow> agent_kind" where
  "Route lower req =
     (let msg = lower (aq_message req) in
      if aq_scope req = ''storefront'' then AgentStorefrontAssistant
      else if containsAny msg [''track'', ''shipping'', ''deliver'', ''poslaju'', ''status''] then AgentFulfillment
      else if aq_role req = ''seller'' \<and>
        containsAny msg [''add'', ''tambah'', ''create'', ''update'', ''change'', ''tukar'', ''set price'',
          ''set the price'', ''edit'', ''advance'', ''price'', ''harga'', ''generate'', ''draft'']
      then AgentSellerCopilot
      else AgentStorefrontAssistant)"

definition Dispatch :: "(string \<Rightarrow> string) \<Rightarrow> router \<Rightarrow> agent_request \<Rightarrow> agent_response go" where
  "Dispatch lower r req =
     (let kind = Route lower req in
      case r kind of
        Some a \<Rightarrow> ag_handle a req
      | None \<Rightarrow> ret \<lparr>rs_agent = kind, rs_answer = ''agent not enabled'', rs_actions = [], rs_grounded = False\<rparr>)"

section \<open>Chasing unpaid orders (eh2\_fulfillment.go)\<close>

record chase_decision =
  ch_order :: string
  ch_should :: bool
  ch_reason :: string

definition DecideChase :: "string \<Rightarrow> string \<Rightarrow> time \<Rightarrow> bool \<Rightarrow> time \<Rightarrow> chase_decision" where
  "DecideChase orderID status expiresAt hasPayment n =
     (if status \<noteq> ''pending'' \<or> hasPayment then
        \<lparr>ch_order = orderID, ch_should = False, ch_reason = ''not an unpaid pending order''\<rparr>
      else if expiresAt - n \<le> 24 * Hour \<and> n < expiresAt then
        \<lparr>ch_order = orderID, ch_should = True, ch_reason = ''expires within 24h, no payment''\<rparr>
      else \<lparr>ch_order = orderID, ch_should = False, ch_reason = ''not yet due''\<rparr>)"

record tracking_status =
  tr_no :: string
  tr_state :: string
  tr_updated :: time

definition noop_Track :: "string \<Rightarrow> tracking_status go" where
  "noop_Track no = bind_act now (\<lambda>n. ret \<lparr>tr_no = no, tr_state = ''unknown'', tr_updated = n\<rparr>)"

section \<open>Notifications (eh3\_notifications.go)\<close>

record notification =
  nt_channel :: string
  nt_recipient :: string
  nt_template :: string
  nt_vars :: "(string \<times> string) list"

definition Templates :: "string \<Rightarrow> string option" where
  "Templates = map_of
     [(''order_confirmed'', ''Pesanan anda {order_id} telah diterima. Jumlah RM{total}.''),
      (''payment_reminder'', ''Peringatan: sila buat pembayaran untuk pesanan {order_id} sebelum {expiry}.''),
      (''shipped'', ''Pesanan {order_id} telah dihantar. No. penjejakan: {tracking_no}.'')]"

definition Render :: "string \<Rightarrow> (string \<times> string) list \<Rightarrow> string" where
  "Render template vars =
     foldl (\<lambda>body (k, v). ReplaceAll body (''{'' @ k @ ''}'') v)
       (case Templates template of None \<Rightarrow> template | Some body \<Rightarrow> body) vars"

text \<open>The sender of a message to a web hook is a parameter: the error of the request, if any.\<close>

type_synonym post = "string \<Rightarrow> string \<Rightarrow> string \<Rightarrow> go_err option"

definition email_Notify :: "notification \<Rightarrow> unit go" where
  "email_Notify n =
     Mailer_Send \<lparr>ms_to = nt_recipient n, ms_subject = ''MUDAHURUS: '' @ nt_template n,
       ms_body = Render (nt_template n) (nt_vars n)\<rparr>"

definition whatsapp_Notify :: "post \<Rightarrow> string \<Rightarrow> notification \<Rightarrow> unit go" where
  "whatsapp_Notify post url n =
     (let body = Render (nt_template n) (nt_vars n) in
      if url = '''' then ret ()
      else case post url (nt_recipient n) body of None \<Rightarrow> ret () | Some e \<Rightarrow> raise e)"

text \<open>\<open>MultiChannelNotifier\<close> with the two senders of \<open>NewModule\<close>: the web hook's address
  and the way to reach it, and nothing for a channel without a sender.\<close>

definition Notify :: "post \<Rightarrow> string \<Rightarrow> notification \<Rightarrow> unit go" where
  "Notify post url n =
     (if nt_channel n = ''email'' then email_Notify n
      else if nt_channel n = ''whatsapp'' then whatsapp_Notify post url n
      else ret ())"

section \<open>Content (eh4\_ai\_content.go)\<close>

record content_result =
  cr_description :: string
  cr_title :: string
  cr_meta :: string
  cr_category :: string

definition suggestCategory :: "string \<Rightarrow> string" where
  "suggestCategory name =
     (let n = ToLower name in
      if containsAny n [''kuih'', ''kek'', ''cake'', ''biskut''] then ''Makanan''
      else if containsAny n [''teh'', ''kopi'', ''air'', ''drink''] then ''Minuman''
      else if containsAny n [''baju'', ''shirt'', ''tudung''] then ''Pakaian''
      else ''Lain-lain'')"

text \<open>The dash of the meta line is the three bytes of the em dash.\<close>

definition em_dash :: string where
  "em_dash = map char_of [226 :: nat, 128, 148]"

definition Generate :: "string \<Rightarrow> string list \<Rightarrow> content_result" where
  "Generate name keywords =
     (let kw = Join keywords '', '' in
      \<lparr>cr_description = ''Produk '' @ name @ '' berkualiti. '' @ kw,
       cr_title = name @ '' | Beli dalam talian'',
       cr_meta = ''Beli '' @ name @ '' '' @ em_dash @ '' '' @ kw,
       cr_category = suggestCategory name\<rparr>)"

section \<open>The sales trend (eh5\_recommendations.go)\<close>

record sales_point =
  sx_period :: string
  sx_total :: f64

record insight =
  in_headline :: string
  in_detail :: string

definition f_const :: "rat \<Rightarrow> f64" where
  "f_const r = fl r"

definition AnalyzeTrend :: "sales_point list \<Rightarrow> insight list" where
  "AnalyzeTrend points =
     (if length points < 2 then []
      else
        (let s = order_by sx_period points;
             prev = s ! (length s - 2); cur = s ! (length s - 1)
         in if flt (Fin 0) (sx_total prev) then
              (let change = fdiv (fsub (sx_total cur) (sx_total prev)) (sx_total prev) in
               if fle change (f_const (- 1 / 5)) then
                 [\<lparr>in_headline = ''Sales dropped'',
                   in_detail = ''Revenue fell materially vs the previous period; investigate top SKUs and pending orders.''\<rparr>]
               else if fle (f_const (1 / 5)) change then
                 [\<lparr>in_headline = ''Sales up'', in_detail = ''Revenue grew vs the previous period.''\<rparr>]
               else [])
            else []))"

section \<open>Gateways and currencies (eh6\_payments.go)\<close>

record money =
  mo_amount :: int
  mo_currency :: string

record charge_request =
  cq_order :: string
  cq_amount :: money
  cq_customer :: string

record charge_result =
  cs_ref :: string
  cs_status :: string
  cs_redirect :: string

definition manual_CreateCharge :: "charge_request \<Rightarrow> charge_result go" where
  "manual_CreateCharge req = raise ErrGatewayDisabled"

definition mock_CreateCharge :: "'z env_scheme \<Rightarrow> string \<Rightarrow> charge_request \<Rightarrow> charge_result go" where
  "mock_CreateCharge E baseURL req =
     bind_act (uuid_string E) (\<lambda>u.
     (let ref = ''mock_'' @ u in
      ret \<lparr>cs_ref = ref, cs_status = ''pending'',
           cs_redirect = baseURL @ ''/pay/mock/'' @ ref @ ''?order='' @ cq_order req\<rparr>))"

definition SupportedCurrencies :: "string list" where
  "SupportedCurrencies = [''MYR'', ''SGD'', ''USD'']"

definition fxFromMYR :: "string \<Rightarrow> f64 option" where
  "fxFromMYR = map_of [(''MYR'', f_const 1), (''SGD'', f_const (3 / 10)), (''USD'', f_const (22 / 100))]"

definition Convert :: "money \<Rightarrow> string \<Rightarrow> money" where
  "Convert m to0 =
     (let to = ToUpper to0; from = ToUpper (mo_currency m) in
      if from = to then m
      else case (fxFromMYR from, fxFromMYR to) of
        (Some rFrom, Some rTo) \<Rightarrow>
          if feq rFrom (Fin 0) then \<lparr>mo_amount = mo_amount m, mo_currency = to\<rparr>
          else
            (let myr = fdiv (f64_of_int (mo_amount m)) rFrom; converted = fmul myr rTo
             in \<lparr>mo_amount = int64_of (fadd converted (f_const (1 / 2))), mo_currency = to\<rparr>)
      | _ \<Rightarrow> \<lparr>mo_amount = mo_amount m, mo_currency = to\<rparr>)"

end
