(* ===== verification/ParseFloat.thy ===== *)
theory ParseFloat
  imports Float64
begin

text \<open>
  \<open>strconv.ParseFloat(s, 64)\<close>: decimal and hexadecimal numbers with an optional exponent,
  underscores between digits, infinities and NaN. The value is the exact rational rounded once;
  a syntax error gives 0, a value out of range an infinity, both with an error.
\<close>

datatype float_err = ErrSyntax | ErrRange

definition hex_val :: "char \<Rightarrow> nat option" where
  "hex_val c =
     (let k = code c in
      if 48 \<le> k \<and> k \<le> 57 then Some (k - 48)
      else if 97 \<le> code (lower_char c) \<and> code (lower_char c) \<le> 102 then Some (code (lower_char c) - 87)
      else None)"

definition digit_in :: "nat \<Rightarrow> char \<Rightarrow> nat option" where
  "digit_in base c = (if base = 16 then hex_val c else if is_digit c then Some (digit_val c) else None)"

text \<open>The mantissa: digits seen, the digits as a number, the digits after the point, whether a point
  was seen, and the rest.\<close>

fun read_mantissa :: "nat \<Rightarrow> bool \<Rightarrow> bool \<Rightarrow> nat \<Rightarrow> nat \<Rightarrow> string \<Rightarrow> bool \<times> nat \<times> nat \<times> string" where
  "read_mantissa base saw dot n fd [] = (saw, n, fd, [])"
| "read_mantissa base saw dot n fd (c # s) =
     (if c = CHR ''_'' then read_mantissa base saw dot n fd s
      else if c = CHR ''.'' then
        (if dot then (saw, n, fd, c # s) else read_mantissa base saw True n fd s)
      else case digit_in base c of
        Some d \<Rightarrow> read_mantissa base True dot (n * base + d) (if dot then fd + 1 else fd) s
      | None \<Rightarrow> (saw, n, fd, c # s))"

text \<open>The digits of the exponent; they stop counting at 10000.\<close>

fun read_exponent :: "nat \<Rightarrow> string \<Rightarrow> nat \<times> string" where
  "read_exponent e [] = (e, [])"
| "read_exponent e (c # s) =
     (if c = CHR ''_'' then read_exponent e s
      else if is_digit c then read_exponent (if e < 10000 then e * 10 + digit_val c else e) s
      else (e, c # s))"

text \<open>\<open>underscoreOK\<close>: an underscore stands between digits, or after the base prefix.\<close>

fun under_ok :: "bool \<Rightarrow> char \<Rightarrow> string \<Rightarrow> bool" where
  "under_ok hex i [] = (i \<noteq> CHR ''_'')"
| "under_ok hex i (c # s) =
     (if is_digit c \<or> hex \<and> hex_val c \<noteq> None then under_ok hex (CHR ''0'') s
      else if c = CHR ''_'' then i = CHR ''0'' \<and> under_ok hex (CHR ''_'') s
      else i \<noteq> CHR ''_'' \<and> under_ok hex (CHR ''!'') s)"

definition is_hex :: "string \<Rightarrow> bool" where
  "is_hex s \<longleftrightarrow> 2 < length s \<and> s ! 0 = CHR ''0'' \<and> lower_char (s ! 1) = CHR ''x''"

definition scan_sign :: "string \<Rightarrow> bool \<times> string" where
  "scan_sign s =
     (case s of
        [] \<Rightarrow> (False, [])
      | c # r \<Rightarrow> if c = CHR ''+'' then (False, r) else if c = CHR ''-'' then (True, r) else (False, s))"

definition underscoreOK :: "string \<Rightarrow> bool" where
  "underscoreOK s0 =
     (let s = snd (scan_sign s0) in
      if is_hex s then under_ok True (CHR ''0'') (drop 2 s) else under_ok False (CHR ''^'') s)"

text \<open>The exponent after the mantissa: \<open>e\<close>, or \<open>p\<close> for hexadecimal numbers, which need one.\<close>

definition scan_exponent :: "nat \<Rightarrow> string \<Rightarrow> int option" where
  "scan_exponent base s =
     (case s of
        [] \<Rightarrow> if base = 16 then None else Some 0
      | c # r \<Rightarrow>
          if lower_char c = (if base = 16 then CHR ''p'' else CHR ''e'') then
            (let (neg, t) = scan_sign r in
             case t of
               [] \<Rightarrow> None
             | d # _ \<Rightarrow> if \<not> is_digit d then None
                 else (case read_exponent 0 t of (e, []) \<Rightarrow> Some (if neg then - int e else int e) | _ \<Rightarrow> None))
          else None)"

definition rat_power :: "rat \<Rightarrow> int \<Rightarrow> rat" where
  "rat_power b e = (if 0 \<le> e then b ^ nat e else 1 / b ^ nat (- e))"

definition special_float :: "string \<Rightarrow> f64 option" where
  "special_float s =
     (let (neg, t) = scan_sign s in
      if ToLower t = ''inf'' \<or> ToLower t = ''infinity'' then Some (if neg then NInf else PInf)
      else if ToLower s = ''nan'' then Some NaN
      else None)"

definition ParseFloat :: "string \<Rightarrow> f64 \<times> float_err option" where
  "ParseFloat s =
     (case special_float s of
        Some x \<Rightarrow> (x, None)
      | None \<Rightarrow>
          (let (neg, t) = scan_sign s; hex = is_hex t; base = (if hex then 16 else 10);
               (saw, n, fd, r) = read_mantissa base False False 0 0 (if hex then drop 2 t else t)
           in case (if saw then scan_exponent base r else None) of
                None \<Rightarrow> (Fin 0, Some ErrSyntax)
              | Some e \<Rightarrow>
                  if CHR ''_'' \<in> set s \<and> \<not> underscoreOK s then (Fin 0, Some ErrSyntax)
                  else
                    (let v = of_nat n * (if hex then rat_power 2 (e - 4 * int fd) else rat_power 10 (e - int fd));
                         x = fl (if neg then - v else v)
                     in case x of Fin _ \<Rightarrow> (x, None) | _ \<Rightarrow> (x, Some ErrRange))))"

end
