(* ===== verification/EnhModule.thy ===== *)
theory EnhModule
  imports Enhancements ParseFloat
begin

text \<open>
  The handlers of \<open>api/internal/enhancements/module.go\<close>: the seller copilot, content, analytics,
  recommendations, charges and the payment web hook, the reminders and the background sweep.
  \<open>enh_env\<close> adds to the parameters what this module relies on outside the repository: the
  operator LIKE, the zone of the database session, the environment variables and the HTTP client
  of the WhatsApp sender. A Go map literal is a list of pairs; \<open>render_order_free\<close> says when the
  order in which \<open>Render\<close> ranges over it does not matter.
\<close>

record enh_env = app_env +
  e_like :: "string \<Rightarrow> string \<Rightarrow> bool"
  e_db_zone :: "time \<Rightarrow> int"
  e_getenv :: "string \<Rightarrow> string"
  e_post :: post

section \<open>Replies\<close>

record recommendation =
  rc_id :: uuid
  rc_sku :: string
  rc_name :: string
  rc_price :: f64

record charge_json =
  cj_ref :: string
  cj_status :: string
  cj_payment :: uuid
  cj_amount :: int
  cj_currency :: string
  cj_redirect :: string

record chase_candidate =
  cc_id :: uuid
  cc_full_name :: string
  cc_email :: string
  cc_contact :: string
  cc_expired :: time
  cc_total :: f64
  cc_reason :: string

datatype enh_reply =
    X_create_product product
  | X_update_price product
  | X_advance_order order
  | X_generate_content content_result
  | X_content content_result
  | X_insights "sales_point list" "insight list"
  | X_recommendations "recommendation list"
  | X_currencies "string list" string
  | X_charge charge_json
  | X_candidates "chase_candidate list" bool
  | X_tracking tracking_status
  | X_status string

definition param :: "proposed_action \<Rightarrow> string \<Rightarrow> string" where
  "param act k = (case map_of (ac_params act) k of None \<Rightarrow> '''' | Some v \<Rightarrow> v)"

section \<open>Helpers\<close>

definition resolveOrCreateCategory :: "'z env_scheme \<Rightarrow> uuid \<Rightarrow> string \<Rightarrow> string go" where
  "resolveOrCreateCategory E tenantID name =
     bind_act (attempt (ListCategories tenantID)) (\<lambda>r.
     case find (\<lambda>c. e_equal_fold E (ct_name c) name) (case r of Inl _ \<Rightarrow> [] | Inr cats \<Rightarrow> cats) of
       Some c \<Rightarrow> ret (e_uuid_str E (ct_id c))
     | None \<Rightarrow>
         bind_act (attempt (CreateCategory E tenantID name '''')) (\<lambda>q.
         ret (case q of Inl _ \<Rightarrow> '''' | Inr c \<Rightarrow> e_uuid_str E (ct_id c))))"

definition resolveOrderID :: "'z enh_env_scheme \<Rightarrow> uuid \<Rightarrow> string \<Rightarrow> uuid go" where
  "resolveOrderID E tenantID target =
     (case e_uuid_parse E target of
        Some i \<Rightarrow> ret i
      | None \<Rightarrow>
          or_else (query_row POrders (\<lambda>d. map_option or_id
            (find (\<lambda>r. or_tenant r = tenantID \<and> e_like E (e_uuid_str E (or_id r)) (target @ ''%'')) (orders d))))
            (NotFound (''order not found for: '' @ target)))"

text \<open>At most eight letters and digits of the name, then four characters of a random identifier.\<close>

definition sku_char :: "char \<Rightarrow> bool" where
  "sku_char c \<longleftrightarrow> is_upper c \<or> is_digit c"

definition deriveSKU :: "'z env_scheme \<Rightarrow> string \<Rightarrow> string go" where
  "deriveSKU E name =
     (let b = take 8 (filter sku_char (ToUpper (TrimSpace name))) in
      bind_act (uuid_string E) (\<lambda>u.
      ret (if b = '''' then ''SKU'' @ take 6 u else b @ ''-'' @ take 4 u)))"

definition uuidPtrToStr :: "'z env_scheme \<Rightarrow> uuid option \<Rightarrow> string" where
  "uuidPtrToStr E p = (case p of None \<Rightarrow> '''' | Some i \<Rightarrow> e_uuid_str E i)"

section \<open>The copilot\<close>

definition execCreateProduct :: "'z env_scheme \<Rightarrow> uuid \<Rightarrow> proposed_action \<Rightarrow> enh_reply response go" where
  "execCreateProduct E tenantID act =
     (let price = fst (ParseFloat (param act ''unit_price'')); name = param act ''product_name'';
          catName = TrimSpace (param act ''category'')
      in bind_act (if param act ''sku'' = '''' then deriveSKU E name else ret (param act ''sku'')) (\<lambda>sku.
         bind_act (if catName \<noteq> '''' then resolveOrCreateCategory E tenantID catName else ret '''') (\<lambda>cat.
         bind_act (CreateProduct E tenantID
           \<lparr>pi_category = cat, pi_sku = sku, pi_name = name, pi_desc = '''', pi_price = price, pi_slug = '''',
            pi_status = ''active''\<rparr>) (\<lambda>p.
         ret (JSON 201 (X_create_product p))))))"

definition execUpdatePrice ::
  "'z env_scheme \<Rightarrow> storage \<Rightarrow> uuid \<Rightarrow> proposed_action \<Rightarrow> enh_reply response go" where
  "execUpdatePrice E S tenantID act =
     (case ParseFloat (param act ''unit_price'') of
        (_, Some _) \<Rightarrow> raise (BadRequest ''invalid unit_price'')
      | (price, None) \<Rightarrow>
          bind_act (GetProductBySKU E S tenantID (param act ''sku'')) (\<lambda>existing.
          bind_act (UpdateProduct E tenantID (pd_id existing)
            \<lparr>pi_category = uuidPtrToStr E (pd_category existing), pi_sku = pd_sku existing,
             pi_name = pd_name existing, pi_desc = pd_desc existing, pi_price = price,
             pi_slug = pd_slug existing, pi_status = pd_status existing\<rparr>) (\<lambda>p.
          ret (JSON 200 (X_update_price p)))))"

definition execAdvanceOrder :: "'z enh_env_scheme \<Rightarrow> uuid \<Rightarrow> proposed_action \<Rightarrow> enh_reply response go" where
  "execAdvanceOrder E tenantID act =
     bind_act (resolveOrderID E tenantID (ac_target act)) (\<lambda>oid.
     bind_act (check (param act ''status'' \<noteq> '''') (BadRequest ''target status is required'')) (\<lambda>_.
     bind_act (UpdateStatus E tenantID oid (param act ''status'')) (\<lambda>o1.
     ret (JSON 200 (X_advance_order o1)))))"

definition generateContentFromAction :: "proposed_action \<Rightarrow> enh_reply response go" where
  "generateContentFromAction act =
     ret (JSON 200 (X_generate_content (Generate (param act ''product_name'') [])))"

definition copilotExecute ::
  "'z enh_env_scheme \<Rightarrow> storage \<Rightarrow> identity option \<Rightarrow> proposed_action option \<Rightarrow> enh_reply response go" where
  "copilotExecute E S ctx body =
     bind_act (Bind body) (\<lambda>act.
     if ac_kind act = ''create_product'' then execCreateProduct E (tid ctx) act
     else if ac_kind act = ''update_product_price'' then execUpdatePrice E S (tid ctx) act
     else if ac_kind act = ''advance_order_status'' then execAdvanceOrder E (tid ctx) act
     else if ac_kind act = ''generate_content'' then generateContentFromAction act
     else raise (BadRequest (''unknown action kind: '' @ ac_kind act)))"

definition generateContent :: "(string \<times> string list \<times> string) option \<Rightarrow> enh_reply response go" where
  "generateContent body =
     bind_act (Bind body) (\<lambda>(name, keywords, tone).
     bind_act (check (name \<noteq> '''') (BadRequest ''product_name is required'')) (\<lambda>_.
     ret (JSON 200 (X_content (Generate name keywords)))))"

section \<open>Analytics and recommendations\<close>

text \<open>\<open>to_char(date_trunc('month', created_at), 'YYYY-MM')\<close> in the zone of the session.\<close>

definition month_key :: "'z enh_env_scheme \<Rightarrow> time \<Rightarrow> string" where
  "month_key E t =
     (let ((y, m, d), s) = clock_of (t div Second + e_db_zone E t) in show_pad 4 y @ ''-'' @ show_pad 2 m)"

definition counted :: "uuid \<Rightarrow> order_row \<Rightarrow> bool" where
  "counted tenantID r \<longleftrightarrow> or_tenant r = tenantID \<and> or_status r \<in> set [''payment_accepted'', ''shipped'']"

definition sales_series :: "'z enh_env_scheme \<Rightarrow> uuid \<Rightarrow> db \<Rightarrow> sales_point list" where
  "sales_series E tenantID d =
     (let rs = filter (counted tenantID) (orders d) in
      map (\<lambda>m. \<lparr>sx_period = m,
              sx_total = e_num_dec E (sum_list (map or_total (filter (\<lambda>r. month_key E (or_created r) = m) rs)))\<rparr>)
        (order_by (\<lambda>m. m) (remdups (map (\<lambda>r. month_key E (or_created r)) rs))))"

definition analyticsInsights :: "'z enh_env_scheme \<Rightarrow> identity option \<Rightarrow> enh_reply response go" where
  "analyticsInsights E ctx =
     bind_act (sel (sales_series E (tid ctx))) (\<lambda>series.
     ret (JSON 200 (X_insights series (AnalyzeTrend series))))"

text \<open>The category of the given product is looked up by its id alone; no such product is no category.\<close>

definition same_category :: "db \<Rightarrow> uuid \<Rightarrow> product_row \<Rightarrow> bool" where
  "same_category d pid p \<longleftrightarrow>
     pr_category p = (case find (\<lambda>q. pr_id q = pid) (products d) of None \<Rightarrow> None | Some q \<Rightarrow> pr_category q)"

definition recommended :: "db \<Rightarrow> uuid \<Rightarrow> uuid option \<Rightarrow> product_row \<Rightarrow> bool" where
  "recommended d tenantID pid p \<longleftrightarrow>
     on_sale tenantID p \<and> (case pid of None \<Rightarrow> True | Some i \<Rightarrow> pr_id p \<noteq> i \<and> same_category d i p)"

definition recommendation_of :: "'z env_scheme \<Rightarrow> product_row \<Rightarrow> recommendation" where
  "recommendation_of E p =
     \<lparr>rc_id = pr_id p, rc_sku = pr_sku p, rc_name = pr_name p, rc_price = e_num_dec E (pr_price p)\<rparr>"

definition recommendations ::
  "'z env_scheme \<Rightarrow> identity option \<Rightarrow> (string \<Rightarrow> string) \<Rightarrow> enh_reply response go" where
  "recommendations E ctx query =
     (let pid = e_uuid_parse E (query ''product_id'') in
      bind_act (sel (\<lambda>d. map (recommendation_of E)
        (take 5 (order_desc pr_created (filter (recommended d (tid ctx) pid) (products d)))))) (\<lambda>out.
      ret (JSON 200 (X_recommendations out))))"

section \<open>Payments\<close>

definition currencies :: "enh_reply response go" where
  "currencies = ret (JSON 200 (X_currencies SupportedCurrencies ''MYR''))"

definition minor_units :: "f64 \<Rightarrow> int" where
  "minor_units x = int64_of (fadd (fmul x (Fin 100)) (f_const (1 / 2)))"

definition charge ::
  "'z env_scheme \<Rightarrow> storage \<Rightarrow> string \<Rightarrow> identity option \<Rightarrow> string \<Rightarrow> (string \<Rightarrow> string) \<Rightarrow>
   enh_reply response go" where
  "charge E S publicBase ctx p query =
     bind_act (parseUUID E ''order id'' p) (\<lambda>oid.
     bind_act (order_Get E S (tid ctx) oid) (\<lambda>o1.
     (let c = ToUpper (query ''currency''); currency = (if c = '''' then ''MYR'' else c);
          amount = Convert \<lparr>mo_amount = minor_units (od_total o1), mo_currency = ''MYR''\<rparr> currency
      in bind_act (mock_CreateCharge E publicBase
             \<lparr>cq_order = e_uuid_str E oid, cq_amount = amount, cq_customer = od_email o1\<rparr>) (\<lambda>res.
         bind_act (AddPayment E oid '''' (od_total o1)) (\<lambda>pay.
         ret (JSON 200 (X_charge \<lparr>cj_ref = cs_ref res, cj_status = cs_status res, cj_payment = py_id pay,
           cj_amount = mo_amount amount, cj_currency = mo_currency amount,
           cj_redirect = publicBase @ ''/api/pay/mock/'' @ cs_ref res @ ''?order='' @ e_uuid_str E oid @
             ''&payment='' @ e_uuid_str E (py_id pay)\<rparr>)))))))"

text \<open>The page, with a backquote for a double quote and a tilde for a single one, and its five
  arguments in place.\<close>

definition requote :: "string \<Rightarrow> string" where
  "requote s = map (\<lambda>c. if c = CHR ''`'' then char_of (34 :: nat) else if c = CHR ''~'' then char_of (39 :: nat) else c) s"

definition check_mark :: string where
  "check_mark = map char_of [226 :: nat, 156, 147]"

definition mock_page :: "string \<Rightarrow> string \<Rightarrow> string \<Rightarrow> string" where
  "mock_page ref ord pay =
     Join [requote ''<!doctype html><html><body style=`font-family:sans-serif;max-width:480px;margin:60px auto;text-align:center`>'',
       ''<h2>MUDAHURUS '' @ em_dash @ '' Mock Payment</h2>'',
       ''<p>Gateway ref: <code>'' @ ref @ ''</code></p>'',
       requote ''<button id=`pay` style=`padding:12px 24px;background:#0e7490;color:#fff;border:0;border-radius:8px;cursor:pointer`>Pay now</button>'',
       requote ''<p id=`msg`></p>'',
       ''<script>'',
       requote ''document.getElementById(~pay~).onclick=async()=>{'',
       requote ''  const r=await fetch(~/api/payments/webhook~,{method:~POST~,headers:{~Content-Type~:~application/json~},'',
       requote ''    body:JSON.stringify({order_id:~'' @ ord @ requote ''~,payment_id:~'' @ pay @
         requote ''~,gateway_ref:~'' @ ref @ requote ''~,status:~paid~})});'',
       requote ''  document.getElementById(~msg~).textContent = r.ok ? ~Payment confirmed '' @ check_mark @
         requote ''~ : ~Failed~;'',
       ''};'',
       ''</script></body></html>''] [char_of (10 :: nat)]"

definition mockHostedPage :: "string \<Rightarrow> (string \<Rightarrow> string) \<Rightarrow> enh_reply response go" where
  "mockHostedPage ref query =
     ret (Blob 200 ''text/html; charset=UTF-8'' (mock_page ref (query ''order'') (query ''payment'')))"

record webhook_input =
  wh_order :: string
  wh_payment :: string
  wh_ref :: string
  wh_status :: string

definition order_confirmed :: "'z env_scheme \<Rightarrow> order \<Rightarrow> uuid \<Rightarrow> notification" where
  "order_confirmed E o1 oid =
     \<lparr>nt_channel = ''email'', nt_recipient = od_email o1, nt_template = ''order_confirmed'',
      nt_vars = [(''order_id'', take 8 (e_uuid_str E oid)), (''total'', fmt2 (od_total o1))]\<rparr>"

definition module_Notify :: "'z enh_env_scheme \<Rightarrow> notification \<Rightarrow> unit go" where
  "module_Notify E n = Notify (e_post E) (e_getenv E ''MH_WHATSAPP_WEBHOOK'') n"

definition paymentWebhook ::
  "'z enh_env_scheme \<Rightarrow> string \<Rightarrow> webhook_input option \<Rightarrow> enh_reply response go" where
  "paymentWebhook E signature body =
     (let secret = e_getenv E ''MH_GATEWAY_SECRET'' in
      bind_act (check (secret = '''' \<or> signature = secret) (Unauthorized ''invalid gateway signature'')) (\<lambda>_.
      bind_act (Bind body) (\<lambda>i.
      bind_act (parseUUID E ''order_id'' (wh_order i)) (\<lambda>oid.
      bind_act (parseUUID E ''payment_id'' (wh_payment i)) (\<lambda>pid.
      bind_act (or_else (repo_GetByID E oid) (NotFound ''order not found'')) (\<lambda>o1.
      bind_act (if wh_status i = ''paid'' then
          bind_act (ignore (SetPaymentStatus (od_tenant o1) pid ''verified'')) (\<lambda>_.
          bind_act (ignore (repo_UpdateStatus (od_tenant o1) oid ''payment_accepted'')) (\<lambda>_.
          ignore (module_Notify E (order_confirmed E o1 oid))))
        else ret ()) (\<lambda>_.
      ret (JSON 200 (X_status ''ok'')))))))))"

section \<open>Reminders\<close>

definition chase_due :: "db \<Rightarrow> time \<Rightarrow> order_row \<Rightarrow> bool" where
  "chase_due d n r \<longleftrightarrow>
     or_status r = ''pending'' \<and> or_expired r > n \<and> or_expired r \<le> n + 24 * Hour \<and>
     \<not> list_ex (\<lambda>p. pm_order p = or_id r) (payments d)"

definition payment_reminder :: "'z app_env_scheme \<Rightarrow> uuid \<Rightarrow> string \<Rightarrow> time \<Rightarrow> notification" where
  "payment_reminder E oid email ex =
     \<lparr>nt_channel = ''email'', nt_recipient = email, nt_template = ''payment_reminder'',
      nt_vars = [(''order_id'', take 8 (e_uuid_str E oid)), (''expiry'', format_minute (e_local_offset E ex) ex)]\<rparr>"

definition candidate_of :: "'z env_scheme \<Rightarrow> time \<Rightarrow> order_row \<Rightarrow> chase_candidate" where
  "candidate_of E n r =
     \<lparr>cc_id = or_id r, cc_full_name = or_full_name r, cc_email = or_email r, cc_contact = or_contact_no r,
      cc_expired = or_expired r, cc_total = e_num_dec E (or_total r),
      cc_reason = ch_reason (DecideChase (e_uuid_str E (or_id r)) ''pending'' (or_expired r) False n)\<rparr>"

definition chaseCandidates ::
  "'z enh_env_scheme \<Rightarrow> identity option \<Rightarrow> (string \<Rightarrow> string) \<Rightarrow> enh_reply response go" where
  "chaseCandidates E ctx query =
     bind_act now (\<lambda>n.
     bind_act (sel (\<lambda>d. sort_key or_expired
       (filter (\<lambda>r. or_tenant r = tid ctx \<and> chase_due d n r) (orders d)))) (\<lambda>rows.
     (let flag = (query ''notify'' = ''true'') in
      bind_act (for_each rows (\<lambda>r.
        let x = candidate_of E n r in
        bind_act (if flag then ignore (module_Notify E (payment_reminder E (cc_id x) (cc_email x) (cc_expired x)))
                  else ret ()) (\<lambda>_. ret x))) (\<lambda>out.
      ret (JSON 200 (X_candidates out flag))))))"

definition track :: "string option \<Rightarrow> enh_reply response go" where
  "track body =
     bind_act (Bind body) (\<lambda>no. bind_act (noop_Track no) (\<lambda>st. ret (JSON 200 (X_tracking st))))"

definition sendNotification :: "'z enh_env_scheme \<Rightarrow> notification option \<Rightarrow> enh_reply response go" where
  "sendNotification E body =
     bind_act (Bind body) (\<lambda>n. bind_act (module_Notify E n) (\<lambda>_. ret (JSON 200 (X_status ''sent''))))"

text \<open>The sweep over all tenants; its only output is the reminders. A failed query ends it.\<close>

definition runChaseSweep :: "'z enh_env_scheme \<Rightarrow> unit go" where
  "runChaseSweep E =
     bind_act now (\<lambda>n.
     bind_act (attempt (sel (\<lambda>d. filter (chase_due d n) (orders d)))) (\<lambda>r.
     case r of
       Inl _ \<Rightarrow> ret ()
     | Inr rows \<Rightarrow>
         bind_act (for_each rows (\<lambda>o1.
           ignore (module_Notify E (payment_reminder E (or_id o1) (or_email o1) (or_expired o1))))) (\<lambda>_.
         ret ())))"

section \<open>What the handlers do to the tables\<close>

lemma reads_module_Notify: "reads (module_Notify E n)"
  unfolding module_Notify_def Notify_def email_Notify_def whatsapp_Notify_def Let_def
  by (intro reads_combinators reads_Mailer_Send)

lemma reads_module_pages:
  "reads (analyticsInsights E ctx)" "reads (recommendations F ctx q)" "reads currencies"
  "reads (mockHostedPage ref q)" "reads (chaseCandidates E ctx q)" "reads (track no)"
  "reads (sendNotification E n)" "reads (runChaseSweep E)" "reads (generateContent inp)"
  "reads (generateContentFromAction act)"
  unfolding analyticsInsights_def recommendations_def currencies_def mockHostedPage_def chaseCandidates_def
    track_def noop_Track_def sendNotification_def runChaseSweep_def generateContent_def
    generateContentFromAction_def Let_def
  by (intro reads_combinators reads_module_Notify)+

lemma reads_module_helpers:
  "reads (resolveOrderID E t s)" "reads (deriveSKU F s)" "reads (mock_CreateCharge F b q)"
  unfolding resolveOrderID_def deriveSKU_def mock_CreateCharge_def uuid_string_def Let_def
  by (intro reads_combinators reads_query_row)+

lemma scoped_resolveOrCreateCategory: "keeps (scoped t) (resolveOrCreateCategory E t name)"
  unfolding resolveOrCreateCategory_def
  by (intro scoped_rules scoped_categories)

lemma scoped_execCreateProduct: "keeps (scoped t) (execCreateProduct E t act)"
  unfolding execCreateProduct_def Let_def
  by (intro scoped_rules scoped_resolveOrCreateCategory scoped_CreateProduct reads_module_helpers [THEN scoped_reads])

lemma scoped_execAdvanceOrder: "keeps (scoped t) (execAdvanceOrder E t act)"
  unfolding execAdvanceOrder_def
  by (intro scoped_rules scoped_UpdateStatus reads_module_helpers [THEN scoped_reads])

lemma advances_module_helpers:
  "keeps advances (execAdvanceOrder E t act)"
  unfolding execAdvanceOrder_def
  by (intro advances_rules advances_UpdateStatus reads_module_helpers [THEN advances_reads])

lemma module_refuses:
  "keeps (scoped t) (raise e)" "keeps advances (raise e)"
  by (rule sc.keeps_raise, rule adv.keeps_raise)

context object_store
begin

lemma scoped_execUpdatePrice: "keeps (scoped t) (execUpdatePrice E S t act)"
  unfolding execUpdatePrice_def
  by (intro scoped_rules scoped_UpdateProduct reads_GetProductBySKU [THEN scoped_reads])

lemma scoped_copilotExecute: "keeps (scoped (tid ctx)) (copilotExecute E S ctx body)"
  unfolding copilotExecute_def
  by (intro scoped_rules scoped_execCreateProduct scoped_execUpdatePrice scoped_execAdvanceOrder
      reads_module_pages [THEN scoped_reads])

lemma order_Get_owns: "order_Get E S t i w = (v, Inr o1) \<Longrightarrow> owns t i (w_db v)"
proof -
  assume run: "order_Get E S t i w = (v, Inr o1)"
  then obtain u o0 where get: "repo_Get E t i w = (u, Inr o0)" unfolding order_Get_def by (auto elim!: bind_InrE)
  have "w_db v = w_db w" by (rule reads_db' [OF reads_order_Get run])
  with repo_Get_InrD [OF get] show ?thesis
    by (auto simp: owns_def list_ex_iff dest: find_Some_iff')
qed

lemma scoped_charge: "keeps (scoped (tid ctx)) (charge E S base ctx p q)"
  unfolding charge_def Let_def
proof (rule sc.keeps_bind [OF scoped_reads [OF reads_parseUUID]])
  fix i
  show "keeps (scoped (tid ctx)) (bind_act (order_Get E S (tid ctx) i) (\<lambda>o1.
      bind_act (mock_CreateCharge E base \<lparr>cq_order = e_uuid_str E i,
          cq_amount = Convert \<lparr>mo_amount = minor_units (od_total o1), mo_currency = ''MYR''\<rparr>
            (if ToUpper (q ''currency'') = '''' then ''MYR'' else ToUpper (q ''currency'')),
          cq_customer = od_email o1\<rparr>) (\<lambda>res.
      bind_act (AddPayment E i '''' (od_total o1)) (\<lambda>pay.
      ret (JSON 200 (X_charge \<lparr>cj_ref = cs_ref res, cj_status = cs_status res, cj_payment = py_id pay,
        cj_amount = mo_amount (Convert \<lparr>mo_amount = minor_units (od_total o1), mo_currency = ''MYR''\<rparr>
            (if ToUpper (q ''currency'') = '''' then ''MYR'' else ToUpper (q ''currency''))),
        cj_currency = mo_currency (Convert \<lparr>mo_amount = minor_units (od_total o1), mo_currency = ''MYR''\<rparr>
            (if ToUpper (q ''currency'') = '''' then ''MYR'' else ToUpper (q ''currency''))),
        cj_redirect = base @ ''/api/pay/mock/'' @ cs_ref res @ ''?order='' @ e_uuid_str E i @
          ''&payment='' @ e_uuid_str E (py_id pay)\<rparr>))))))"
    by (rule scoped_then_under [where g = "\<lambda>_. i", OF scoped_reads [OF reads_order_Get] order_Get_owns])
      (assumption, intro un.keeps_combinators under_AddPayment under_reads [OF reads_module_helpers(3)])
qed

end

section \<open>The web hook\<close>

lemma module_Notify_email:
  "nt_channel n = ''email'' \<Longrightarrow>
   module_Notify E n w = (w\<lparr>w_outbox := w_outbox w @ [\<lparr>ms_to = nt_recipient n, ms_subject = ''MUDAHURUS: '' @ nt_template n,
     ms_body = Render (nt_template n) (nt_vars n)\<rparr>]\<rparr>, Inr ())"
  by (simp add: module_Notify_def Notify_def email_Notify_def)

text \<open>A statement on payments whose count is thrown away: it writes the rows, or there were none.\<close>

lemma db_ok_payment_status:
  assumes "db_ok d" and "s \<in> set [''submitted'', ''verified'', ''rejected'']"
  shows "db_ok (d\<lparr>payments := update_rows P (\<lambda>p. p\<lparr>pm_status := s\<rparr>) (payments d)\<rparr>)"
proof -
  have "payments_ok (d\<lparr>payments := update_rows P (\<lambda>p. p\<lparr>pm_status := s\<rparr>) (payments d)\<rparr>)"
    using assms by (auto simp: db_ok_def payments_ok_def update_rows_def list_all_iff comp_def if_distrib cong: if_cong)
  with assms(1) show ?thesis
    by (simp add: db_ok_def tenants_ok_def tokens_ok_def categories_ok_def products_ok_def customers_ok_def
        coupons_ok_def orders_ok_def items_ok_def)
qed

lemma SetPaymentStatus_ok:
  assumes "w_faults w = []" and "db_ok (w_db w)" and "s \<in> set [''submitted'', ''verified'', ''rejected'']"
  shows "fst (SetPaymentStatus t pid s w) =
    w\<lparr>w_db := (w_db w)\<lparr>payments := update_rows (own_payment (w_db w) t pid) (\<lambda>p. p\<lparr>pm_status := s\<rparr>) (payments (w_db w))\<rparr>\<rparr>"
proof -
  let ?d = "(w_db w)\<lparr>payments := update_rows (own_payment (w_db w) t pid) (\<lambda>p. p\<lparr>pm_status := s\<rparr>) (payments (w_db w))\<rparr>"
  have ok: "db_ok ?d" by (rule db_ok_payment_status [OF assms(2,3)])
  have "sql (\<lambda>d. commit (affected (own_payment d t pid) (payments d))
      (d\<lparr>payments := update_rows (own_payment d t pid) (\<lambda>p. p\<lparr>pm_status := s\<rparr>) (payments d)\<rparr>)) w
    = (w\<lparr>w_db := ?d\<rparr>, Inr (affected (own_payment (w_db w) t pid) (payments (w_db w))))"
    unfolding sql_ok [OF assms(1)] commit_def using ok by simp
  then show ?thesis unfolding SetPaymentStatus_def affecting_run by simp
qed

text \<open>C25: A paid call of the web hook that passes the check of the signature puts the order into
  payment accepted whatever its status was: shipped, cancelled and expired orders come back to
  life past the table of transitions. The payment named in the call is verified only if it belongs
  to that seller, and need not belong to the order or exist; the customer is told either way.\<close>

theorem webhook_ignores_transitions:
  assumes "w_faults w = []" and "db_ok (w_db w)"
    and "e_getenv E ''MH_GATEWAY_SECRET'' = '''' \<or> signature = e_getenv E ''MH_GATEWAY_SECRET''"
    and "e_uuid_parse E (wh_order i) = Some oid" and "e_uuid_parse E (wh_payment i) = Some pid"
    and "wh_status i = ''paid''" and "find (\<lambda>r. or_id r = oid) (orders (w_db w)) = Some r"
  shows "\<exists>w'. paymentWebhook E signature (Some i) w = (w', Inr (JSON 200 (X_status ''ok''))) \<and>
    w_db w' = (w_db w)\<lparr>
      payments := update_rows (own_payment (w_db w) (or_tenant r) pid) (\<lambda>p. p\<lparr>pm_status := ''verified''\<rparr>) (payments (w_db w)),
      orders := update_rows (own_order (or_tenant r) oid) (\<lambda>q. q\<lparr>or_status := ''payment_accepted''\<rparr>) (orders (w_db w))\<rparr> \<and>
    (\<exists>m. w_outbox w' = w_outbox w @ [m] \<and> ms_to m = or_email r)"
proof -
  let ?o = "full_order E (w_db w) r"
  let ?v = "w\<lparr>w_db := (w_db w)\<lparr>payments := update_rows (own_payment (w_db w) (or_tenant r) pid)
      (\<lambda>p. p\<lparr>pm_status := ''verified''\<rparr>) (payments (w_db w))\<rparr>\<rparr>"
  have pay: "fst (SetPaymentStatus (or_tenant r) pid ''verified'' w) = ?v"
    by (rule SetPaymentStatus_ok) (use assms(1,2) in simp_all)
  have r: "r \<in> set (orders (w_db w))" "or_id r = oid" using find_Some_iff' [OF assms(7)] by simp_all
  have "distinct (map or_id (orders (w_db w)))" using assms(2) by (simp add: db_ok_def orders_ok_def)
  then have own: "find (own_order (or_tenant r) oid) (orders (w_db ?v)) = Some r"
    using r by (simp, intro find_unique [where k = or_id]) (auto simp: own_order_def)
  have ok: "db_ok (w_db ?v)" using db_ok_payment_status [OF assms(2)] by simp
  have upd: "fst (repo_UpdateStatus (or_tenant r) oid ''payment_accepted'' ?v) =
      with_status (or_tenant r) oid ''payment_accepted'' ?v"
    using repo_UpdateStatus_ok [OF _ ok own] assms(1) by (simp add: order_statuses_def)
  let ?u = "with_status (or_tenant r) oid ''payment_accepted'' ?v"
  have email: "od_email ?o = or_email r" by (simp add: full_order_def order_of_row_def)
  have get: "or_else (repo_GetByID E oid) (NotFound ''order not found'') w = (w, Inr ?o)"
    by (simp add: repo_GetByID_ok [OF assms(1)] assms(7))
  have told: "module_Notify E (order_confirmed E ?o oid) ?u = (?u\<lparr>w_outbox := w_outbox ?u @
      [\<lparr>ms_to = or_email r, ms_subject = ''MUDAHURUS: order_confirmed'',
        ms_body = Render ''order_confirmed'' (nt_vars (order_confirmed E ?o oid))\<rparr>]\<rparr>, Inr ())"
    by (simp add: module_Notify_email order_confirmed_def email)
  have "paymentWebhook E signature (Some i) w = (fst (module_Notify E (order_confirmed E ?o oid) ?u), Inr (JSON 200 (X_status ''ok'')))"
    unfolding paymentWebhook_def Let_def
    by (simp add: bind_check assms(3-6) Bind_def parseUUID_def get bind_ignore pay upd bind_act_def [of "bind_act _ _"] ignore_run)
  then show ?thesis
    unfolding told by (intro exI conjI) (auto simp: with_status_def)
qed

definition sample_enh :: enh_env where
  "sample_enh = app_env.extend (sample_app sample_claims)
     (enh_env.fields (\<lambda>s p. HasPrefix s (TrimSuffix p ''%'')) (\<lambda>_. 0) (\<lambda>_. '''') (\<lambda>_ _ _. None))"

lemma sample_enh_simps [simp]:
  "e_uuid_parse sample_enh = e_uuid_parse (sample_env sample_claims)"
  "e_uuid_str sample_enh = e_uuid_str (sample_env sample_claims)"
  "e_uuid_gen sample_enh = e_uuid_gen (sample_env sample_claims)"
  "e_num_enc sample_enh = e_num_enc (sample_env sample_claims)"
  "e_num_dec sample_enh = e_num_dec (sample_env sample_claims)"
  "e_getenv sample_enh s = ''''"
  by (simp_all add: sample_enh_def sample_app_def app_env.defs auth_env.defs enh_env.defs)

definition cancelled_orders :: db where
  "cancelled_orders = sample_orders\<lparr>orders := [sample_order\<lparr>or_status := ''cancelled''\<rparr>]\<rparr>"

lemma cancelled_orders_ok: "db_ok cancelled_orders"
  using sample_orders_ok by (simp add: cancelled_orders_def db_ok_defs sample_orders_def sample_order_def order_statuses_def)

theorem webhook_ignores_transitions_witness:
  "\<exists>w'. paymentWebhook sample_enh '''' (Some \<lparr>wh_order = ''9'', wh_payment = ''7'', wh_ref = '''', wh_status = ''paid''\<rparr>)
      (sample_world cancelled_orders) = (w', Inr (JSON 200 (X_status ''ok''))) \<and>
    map or_status (orders (w_db w')) = [''payment_accepted'']"
proof -
  let ?i = "\<lparr>wh_order = ''9'', wh_payment = ''7'', wh_ref = '''', wh_status = ''paid''\<rparr>"
  have "e_uuid_parse sample_enh ''9'' = Some 9" "e_uuid_parse sample_enh ''7'' = Some 7"
    by (simp_all add: sample_env_def nat_of_digits_def is_digit_def digit_val_def code_def)
  moreover have "find (\<lambda>r. or_id r = 9) (orders cancelled_orders) = Some (sample_order\<lparr>or_status := ''cancelled''\<rparr>)"
    by (simp add: cancelled_orders_def sample_order_def)
  ultimately show ?thesis
    using webhook_ignores_transitions [of "sample_world cancelled_orders" sample_enh "''''" ?i 9 7 "sample_order\<lparr>or_status := ''cancelled''\<rparr>"]
      cancelled_orders_ok
    by (auto simp: cancelled_orders_def sample_orders_def sample_order_def update_rows_def own_order_def)
qed

section \<open>Reminders are what the decision function asks for\<close>

definition has_payment :: "db \<Rightarrow> order_row \<Rightarrow> bool" where
  "has_payment d r \<longleftrightarrow> list_ex (\<lambda>p. pm_order p = or_id r) (payments d)"

lemma chase_due_iff:
  "chase_due d n r \<longleftrightarrow> ch_should (DecideChase i (or_status r) (or_expired r) (has_payment d r) n)"
  by (auto simp: chase_due_def DecideChase_def has_payment_def)

definition reminder_mail :: "'z app_env_scheme \<Rightarrow> order_row \<Rightarrow> message" where
  "reminder_mail E r =
     \<lparr>ms_to = or_email r, ms_subject = ''MUDAHURUS: payment_reminder'',
      ms_body = Render ''payment_reminder'' (nt_vars (payment_reminder E (or_id r) (or_email r) (or_expired r)))\<rparr>"

lemma for_each_mails:
  assumes "\<And>x w. f x w = (w\<lparr>w_outbox := w_outbox w @ g x\<rparr>, Inr (h x))"
  shows "for_each xs f w = (w\<lparr>w_outbox := w_outbox w @ concat (map g xs)\<rparr>, Inr (map h xs))"
proof (induction xs arbitrary: w)
  case (Cons x xs)
  then show ?case by (simp add: assms bind_act_def [of "f _"] bind_act_def [of "for_each _ _"])
qed simp

lemma remind_one:
  "(let x = candidate_of E n r in
      bind_act (if flag then ignore (module_Notify E (payment_reminder E (cc_id x) (cc_email x) (cc_expired x)))
                else ret ()) (\<lambda>_. ret x)) w =
   (w\<lparr>w_outbox := w_outbox w @ (if flag then [reminder_mail E r] else [])\<rparr>, Inr (candidate_of E n r))"
proof -
  have "cc_id (candidate_of E n r) = or_id r" "cc_email (candidate_of E n r) = or_email r"
    "cc_expired (candidate_of E n r) = or_expired r" by (simp_all add: candidate_of_def)
  then show ?thesis
    by (cases flag) (simp_all add: bind_ignore module_Notify_email payment_reminder_def reminder_mail_def)
qed

text \<open>C24: The candidates to chase are exactly the tenant's orders for which DecideChase says so,
  the one that expires first in front, each with the reason of that decision; with the query
  notify=true each gets one reminder by mail, in that order, and otherwise nobody hears of it. The
  tables stay as they are.\<close>

theorem chase_matches_decision:
  assumes "w_faults w = []"
  shows "let due = sort_key or_expired (filter (\<lambda>r. or_tenant r = tid ctx \<and>
        ch_should (DecideChase (e_uuid_str E (or_id r)) (or_status r) (or_expired r) (has_payment (w_db w) r) (w_now w)))
        (orders (w_db w)))
    in \<exists>w' ms. chaseCandidates E ctx query w =
         (w', Inr (JSON 200 (X_candidates (map (candidate_of E (w_now w)) due) (query ''notify'' = ''true'')))) \<and>
       (\<forall>c \<in> set (map (candidate_of E (w_now w)) due). cc_reason c = ''expires within 24h, no payment'') \<and>
       w_db w' = w_db w \<and> w_outbox w' = w_outbox w @ ms \<and>
       map ms_to ms = (if query ''notify'' = ''true'' then map or_email due else [])"
proof -
  let ?due = "sort_key or_expired (filter (\<lambda>r. or_tenant r = tid ctx \<and> chase_due (w_db w) (w_now w) r) (orders (w_db w)))"
  let ?flag = "query ''notify'' = ''true''"
  have reason: "\<forall>c \<in> set (map (candidate_of E (w_now w)) ?due). cc_reason c = ''expires within 24h, no payment''"
    by (auto simp: candidate_of_def DecideChase_def chase_due_def)
  have run: "chaseCandidates E ctx query w =
     (w\<lparr>w_outbox := w_outbox w @ concat (map (\<lambda>r. if ?flag then [reminder_mail E r] else []) ?due)\<rparr>,
      Inr (JSON 200 (X_candidates (map (candidate_of E (w_now w)) ?due) ?flag)))"
    unfolding chaseCandidates_def Let_def [of "query _ = _"] for_each_mails [OF remind_one, THEN bind_run_Inr]
    by (simp add: bind_act_def [of now] now_run bind_act_def [of "sel _"] sel_ok [OF assms]
        for_each_mails [OF remind_one] bind_act_def [of "for_each _ _"])
  show ?thesis
    unfolding Let_def chase_due_iff [symmetric] using reason run
    by (cases ?flag) (simp_all add: reminder_mail_def comp_def)
qed

lemma or_email_sample: "or_email sample_order = ''s@x''"
  by (simp add: sample_order_def)

theorem chase_matches_decision_witness:
  "\<exists>w'. chaseCandidates sample_enh sample_ctx (\<lambda>_. ''true'') (sample_world sample_orders) =
      (w', Inr (JSON 200 (X_candidates [candidate_of sample_enh 0 sample_order] True))) \<and>
      map ms_to (w_outbox w') = [''s@x'']"
proof -
  have "chase_due sample_orders 0 sample_order"
    by (simp add: chase_due_def sample_orders_def sample_order_def sample_db_def empty_db_def Hour_def Second_def)
  then have due: "sort_key or_expired (filter (\<lambda>r. or_tenant r = tid sample_ctx \<and> ch_should (DecideChase
        (e_uuid_str sample_enh (or_id r)) (or_status r) (or_expired r) (has_payment (w_db (sample_world sample_orders)) r)
        (w_now (sample_world sample_orders)))) (orders (w_db (sample_world sample_orders)))) = [sample_order]"
    unfolding chase_due_iff [symmetric]
    by (simp add: sample_orders_def sample_order_def sample_world_def sample_ctx_def tid_Some uuid_Nil_def)
  have start: "w_now (sample_world sample_orders) = 0" "w_outbox (sample_world sample_orders) = []"
    by (simp_all add: sample_world_def)
  show ?thesis
    using chase_matches_decision [of "sample_world sample_orders" sample_ctx sample_enh "\<lambda>_. ''true''",
      unfolded Let_def, unfolded due, unfolded start] or_email_sample by auto
qed

end
