(* ===== verification/EnhFacts.thy ===== *)
theory EnhFacts
  imports EnhModule "HOL-Library.Multiset"
begin

text \<open>
  What the messages, the sales trend and the charges of the enhancement module are worth:
  when the order in which \<open>Render\<close> fills its placeholders does not matter, that the trend does not
  depend on the order of the points, and what a charge does to the order it is for.
\<close>

section \<open>Filling placeholders\<close>

definition brace_free :: "string \<Rightarrow> bool" where
  "brace_free s \<longleftrightarrow> CHR ''{'' \<notin> set s \<and> CHR ''}'' \<notin> set s"

definition hole :: "string \<Rightarrow> string" where
  "hole k = ''{'' @ k @ ''}''"

text \<open>A text whose braces come in pairs that are not nested.\<close>

inductive flat :: "string \<Rightarrow> bool" where
  flat_Nil: "flat []"
| flat_char: "c \<noteq> CHR ''{'' \<Longrightarrow> c \<noteq> CHR ''}'' \<Longrightarrow> flat s \<Longrightarrow> flat (c # s)"
| flat_hole: "brace_free u \<Longrightarrow> flat s \<Longrightarrow> flat (hole u @ s)"

lemma hole_simps [simp]: "hole k \<noteq> []" "HasPrefix (c # s) (hole k) \<Longrightarrow> c = CHR ''{''"
  by (auto simp: hole_def HasPrefix_iff)

lemma ReplaceAll_Nil [simp]: "ReplaceAll [] old new = []"
  by (simp add: ReplaceAll.simps)

lemma ReplaceAll_hit: "old \<noteq> [] \<Longrightarrow> ReplaceAll (old @ s) old new = new @ ReplaceAll s old new"
  using HasPrefix_append [of old s] by (cases old) (simp_all add: ReplaceAll.simps [of "_ # _"])

lemma ReplaceAll_miss: "\<not> HasPrefix (c # s) old \<Longrightarrow> ReplaceAll (c # s) old new = c # ReplaceAll s old new"
  by (simp add: ReplaceAll.simps [of "c # s"])

lemma ReplaceAll_skip:
  "CHR ''{'' \<notin> set p \<Longrightarrow> ReplaceAll (p @ s) (hole k) v = p @ ReplaceAll s (hole k) v"
proof (induction p)
  case (Cons c p)
  then have "\<not> HasPrefix (c # p @ s) (hole k)" by (auto simp: HasPrefix_iff hole_def)
  with Cons show ?case by (simp add: ReplaceAll_miss)
qed simp

lemma hole_prefix: "brace_free u \<Longrightarrow> brace_free k \<Longrightarrow> u @ CHR ''}'' # s = k @ CHR ''}'' # t \<Longrightarrow> u = k"
  by (induction u arbitrary: k) (auto simp: brace_free_def Cons_eq_append_conv split: list.splits)

lemma ReplaceAll_other:
  assumes "brace_free u" and "brace_free k" and "u \<noteq> k"
  shows "ReplaceAll (hole u @ s) (hole k) v = hole u @ ReplaceAll s (hole k) v"
proof -
  have "\<not> HasPrefix (CHR ''{'' # u @ CHR ''}'' # s) (hole k)"
    using hole_prefix [OF assms(1,2)] assms(3) by (auto simp: HasPrefix_iff hole_def)
  moreover have "CHR ''{'' \<notin> set (u @ ''}'')" using assms by (simp add: brace_free_def)
  from ReplaceAll_skip [OF this, of s k v]
  have "ReplaceAll (u @ CHR ''}'' # s) (hole k) v = u @ CHR ''}'' # ReplaceAll s (hole k) v" by simp
  ultimately show ?thesis by (simp add: ReplaceAll_miss hole_def [of u])
qed

lemmas ReplaceAll_hole = ReplaceAll_hit [OF hole_simps(1)] ReplaceAll_other

lemma flat_prepend: "brace_free p \<Longrightarrow> flat s \<Longrightarrow> flat (p @ s)"
  by (induction p) (auto simp: brace_free_def intro: flat_char)

lemma ReplaceAll_plain: "c \<noteq> CHR ''{'' \<Longrightarrow> ReplaceAll (c # s) (hole k) v = c # ReplaceAll s (hole k) v"
  using ReplaceAll_skip [of "[c]"] by simp

lemma flat_ReplaceAll:
  assumes "brace_free k" and "brace_free v" and "flat s"
  shows "flat (ReplaceAll s (hole k) v)"
  using assms(3)
proof (induction rule: flat.induct)
  case (flat_char c s)
  then show ?case by (simp add: ReplaceAll_plain flat.flat_char)
next
  case (flat_hole u s)
  then show ?case using assms
    by (cases "u = k") (simp_all add: ReplaceAll_hole flat_prepend flat.flat_hole)
qed (simp add: flat.flat_Nil)

lemma ReplaceAll_commute:
  assumes "brace_free k" and "brace_free l" and "brace_free v" and "brace_free u" and "k \<noteq> l" and "flat s"
  shows "ReplaceAll (ReplaceAll s (hole k) v) (hole l) u = ReplaceAll (ReplaceAll s (hole l) u) (hole k) v"
  using assms(6)
proof (induction rule: flat.induct)
  case (flat_char c s)
  then show ?case by (simp add: ReplaceAll_plain)
next
  case (flat_hole w s)
  have "CHR ''{'' \<notin> set v" "CHR ''{'' \<notin> set u" using assms by (simp_all add: brace_free_def)
  then show ?case using flat_hole assms
    by (cases "w = k"; cases "w = l") (simp_all add: ReplaceAll_hole ReplaceAll_skip)
qed simp

definition fill_in :: "string \<Rightarrow> (string \<times> string) list \<Rightarrow> string" where
  "fill_in s vars = foldl (\<lambda>body (k, v). ReplaceAll body (hole k) v) s vars"

lemma Render_fill: "Render t vars = fill_in (case Templates t of None \<Rightarrow> t | Some body \<Rightarrow> body) vars"
  by (simp add: Render_def fill_in_def hole_def)

definition clean_vars :: "(string \<times> string) list \<Rightarrow> bool" where
  "clean_vars vars \<longleftrightarrow> distinct (map fst vars) \<and> list_all (\<lambda>(k, v). brace_free k \<and> brace_free v) vars"

lemma fill_in_simps [simp]:
  "fill_in s [] = s" "fill_in s ((k, v) # vars) = fill_in (ReplaceAll s (hole k) v) vars"
  by (simp_all add: fill_in_def)

lemma fill_in_append: "fill_in s (xs @ ys) = fill_in (fill_in s xs) ys"
  by (simp add: fill_in_def)

lemma fill_in_front:
  "flat s \<Longrightarrow> clean_vars (xs @ [(k, v)]) \<Longrightarrow> fill_in s (xs @ [(k, v)]) = fill_in s ((k, v) # xs)"
proof (induction xs arbitrary: s)
  case (Cons x xs)
  obtain l u where x: "x = (l, u)" by fastforce
  from Cons.prems have c: "brace_free k" "brace_free l" "brace_free v" "brace_free u" "k \<noteq> l" "clean_vars (xs @ [(k, v)])"
    by (auto simp: clean_vars_def x)
  have "fill_in s ((x # xs) @ [(k, v)]) = fill_in (ReplaceAll s (hole l) u) ((k, v) # xs)"
    using Cons.IH [OF flat_ReplaceAll [OF c(2,4) Cons.prems(1)] c(6)] by (simp add: x)
  also have "\<dots> = fill_in s ((k, v) # x # xs)"
    by (simp add: x ReplaceAll_commute [OF c(1-5) Cons.prems(1)])
  finally show ?case .
qed simp

lemma fill_in_perm:
  "mset xs = mset ys \<Longrightarrow> clean_vars xs \<Longrightarrow> flat s \<Longrightarrow> fill_in s xs = fill_in s ys"
proof (induction xs arbitrary: ys s)
  case (Cons x xs)
  obtain k v where x: "x = (k, v)" by fastforce
  from Cons.prems(1) have "x \<in> set ys" by (metis list.set_intros(1) set_mset_mset)
  then obtain y1 y2 where ys: "ys = y1 @ x # y2" by (auto dest: split_list)
  have m: "mset (x # xs) = mset ys" by (rule Cons.prems(1))
  have "distinct (map fst ys)"
    using Cons.prems(2) m by (metis clean_vars_def mset_map mset_eq_imp_distinct_iff)
  moreover have "list_all (\<lambda>(k, v). brace_free k \<and> brace_free v) ys"
    using Cons.prems(2) mset_eq_setD [OF m, symmetric] by (simp add: clean_vars_def list_all_iff)
  ultimately have "clean_vars (y1 @ [(k, v)])" by (auto simp: clean_vars_def ys x)
  from fill_in_front [OF Cons.prems(3) this]
  have front: "fill_in s ys = fill_in (ReplaceAll s (hole k) v) (y1 @ y2)" by (simp add: ys x fill_in_append)
  have "mset xs = mset (y1 @ y2)" using m by (simp add: ys)
  moreover have "clean_vars xs" using Cons.prems(2) by (auto simp: clean_vars_def)
  moreover have "flat (ReplaceAll s (hole k) v)"
    using Cons.prems(2,3) by (intro flat_ReplaceAll) (auto simp: clean_vars_def x)
  ultimately have "fill_in (ReplaceAll s (hole k) v) xs = fill_in (ReplaceAll s (hole k) v) (y1 @ y2)" by (rule Cons.IH)
  then show ?case by (simp add: front x)
qed simp

lemma flat_hole_text: "brace_free p \<Longrightarrow> brace_free k \<Longrightarrow> flat s \<Longrightarrow> flat (p @ hole k @ s)"
  by (intro flat_prepend flat_hole)

lemma flat_text: "brace_free p \<Longrightarrow> flat p"
  using flat_prepend [of p "[]"] by (simp add: flat_Nil)

lemma template_texts:
  "Templates ''order_confirmed'' =
     Some (''Pesanan anda '' @ hole ''order_id'' @ '' telah diterima. Jumlah RM'' @ hole ''total'' @ ''.'')"
  "Templates ''payment_reminder'' = Some (''Peringatan: sila buat pembayaran untuk pesanan '' @ hole ''order_id'' @
     '' sebelum '' @ hole ''expiry'' @ ''.'')"
  "Templates ''shipped'' =
     Some (''Pesanan '' @ hole ''order_id'' @ '' telah dihantar. No. penjejakan: '' @ hole ''tracking_no'' @ ''.'')"
  by (simp_all add: Templates_def hole_def)

lemma flat_template_texts:
  "flat (''Pesanan anda '' @ hole ''order_id'' @ '' telah diterima. Jumlah RM'' @ hole ''total'' @ ''.'')"
  "flat (''Peringatan: sila buat pembayaran untuk pesanan '' @ hole ''order_id'' @ '' sebelum '' @ hole ''expiry'' @ ''.'')"
  "flat (''Pesanan '' @ hole ''order_id'' @ '' telah dihantar. No. penjejakan: '' @ hole ''tracking_no'' @ ''.'')"
  by ((intro flat_hole_text flat_text; simp add: brace_free_def)+)

lemma flat_templates:
  assumes "Templates t = Some body"
  shows "flat body"
proof -
  from assms have "t = ''order_confirmed'' \<or> t = ''payment_reminder'' \<or> t = ''shipped''"
    by (auto simp: Templates_def split: if_splits)
  with assms template_texts have "body \<in>
    {''Pesanan anda '' @ hole ''order_id'' @ '' telah diterima. Jumlah RM'' @ hole ''total'' @ ''.'',
     ''Peringatan: sila buat pembayaran untuk pesanan '' @ hole ''order_id'' @ '' sebelum '' @ hole ''expiry'' @ ''.'',
     ''Pesanan '' @ hole ''order_id'' @ '' telah dihantar. No. penjejakan: '' @ hole ''tracking_no'' @ ''.''}"
    by (elim disjE; hypsubst; simp only: option.inject insert_iff simp_thms)
  then show ?thesis using flat_template_texts by (elim insertE emptyE; simp only:)
qed

text \<open>The text of a message does not depend on the order in which Go ranges over the map of the
  variables, when the template is one of the known ones and neither names nor values hold braces.
  In particular the confirmation of an order reads as it should in both orders.\<close>

theorem render_order_free:
  assumes "Templates t = Some body" and "clean_vars vars" and "mset vars' = mset vars"
    and "brace_free i" and "brace_free a"
  shows "Render t vars' = Render t vars \<and>
    Render ''order_confirmed'' [(''total'', a), (''order_id'', i)] =
      ''Pesanan anda '' @ i @ '' telah diterima. Jumlah RM'' @ a @ ''.''"
proof
  show "Render t vars' = Render t vars"
    using fill_in_perm [OF assms(3) [symmetric] assms(2) flat_templates [OF assms(1)]] assms(1) by (simp add: Render_fill)
  have no: "CHR ''{'' \<notin> set a" "CHR ''{'' \<notin> set ''Pesanan anda ''" "CHR ''{'' \<notin> set '' telah diterima. Jumlah RM''"
    "CHR ''{'' \<notin> set ''.''" using assms(5) by (simp_all add: brace_free_def)
  have stop: "ReplaceAll ''.'' (hole k) v = ''.''" for k v using ReplaceAll_skip [OF no(4), of "[]" k v] by simp
  have "brace_free ''order_id''" "brace_free ''total''" by (simp_all add: brace_free_def)
  then show "Render ''order_confirmed'' [(''total'', a), (''order_id'', i)] =
      ''Pesanan anda '' @ i @ '' telah diterima. Jumlah RM'' @ a @ ''.''"
    unfolding Render_fill template_texts
    by (simp del: append_Cons append_Nil add: ReplaceAll_skip [OF no(1)] ReplaceAll_skip [OF no(2)] ReplaceAll_skip [OF no(3)]
        ReplaceAll_hole stop)
qed

theorem render_order_free_witness:
  "Render ''shipped'' [(''tracking_no'', ''EP1''), (''order_id'', ''9'')] =
     Render ''shipped'' [(''order_id'', ''9''), (''tracking_no'', ''EP1'')]"
  using render_order_free [OF template_texts(3), of "[(''order_id'', ''9''), (''tracking_no'', ''EP1'')]"
      "[(''tracking_no'', ''EP1''), (''order_id'', ''9'')]" "''9''" "''5''"]
  by (simp add: clean_vars_def brace_free_def)

lemma render_order_matters:
  "Render ''{a}{b}'' [(''a'', ''{b}''), (''b'', ''x'')] \<noteq> Render ''{a}{b}'' [(''b'', ''x''), (''a'', ''{b}'')]"
  by (simp add: Render_def Templates_def ReplaceAll.simps HasPrefix_def)

section \<open>The sales trend\<close>

definition str_key :: "string \<Rightarrow> nat list" where
  "str_key s = map code s"

lemma str_le_key: "str_le s t \<longleftrightarrow> str_key s \<le> str_key t"
  by (induction s t rule: str_le.induct) (auto simp: str_key_def code_inject)

lemma str_key_inj: "str_key s = str_key t \<Longrightarrow> s = t"
  by (simp add: str_key_def inj_map_eq_map inj_def code_inject)

lemma order_by_sort_key: "order_by k xs = sort_key (\<lambda>x. str_key (k x)) xs"
proof -
  have "insert_by k x ys = insort_key (\<lambda>x. str_key (k x)) x ys" for x ys
    by (induction ys) (auto simp: str_le_key)
  then have "insert_by k = insort_key (\<lambda>x. str_key (k x))" by (intro ext)
  then show ?thesis by (simp add: order_by_def sort_key_def)
qed

lemma order_by_perm:
  assumes "mset xs = mset ys" and "distinct (map k xs)"
  shows "order_by k xs = order_by k ys"
  unfolding order_by_sort_key
proof (rule sort_key_inj_key_eq)
  have "inj_on k (set xs)" using assms(2) by (simp add: distinct_map)
  then show "inj_on (\<lambda>x. str_key (k x)) (set xs)" by (auto simp: inj_on_def dest: str_key_inj)
qed (use assms(1) in simp_all)

definition growth :: "sales_point \<Rightarrow> sales_point \<Rightarrow> f64" where
  "growth prev cur = fdiv (fsub (sx_total cur) (sx_total prev)) (sx_total prev)"

text \<open>The trend is that of the two latest periods whatever the order of the points: for points of
  distinct periods every arrangement gives the same insights, at most one of them, and none when
  there are fewer than two points or the earlier of the two periods made nothing.\<close>

theorem trend_of_latest_periods:
  assumes "mset ps = mset qs" and "distinct (map sx_period ps)"
  shows "AnalyzeTrend ps = AnalyzeTrend qs \<and> length (AnalyzeTrend ps) \<le> 1 \<and>
    (AnalyzeTrend ps \<noteq> [] \<longrightarrow> (\<exists>prev cur. prev \<in> set ps \<and> cur \<in> set ps \<and> flt (Fin 0) (sx_total prev) \<and>
       str_le (sx_period prev) (sx_period cur) \<and> sx_period prev \<noteq> sx_period cur \<and>
       list_all (\<lambda>p. p = cur \<or> str_le (sx_period p) (sx_period prev)) ps \<and>
       map in_headline (AnalyzeTrend ps) =
         [if fle (growth prev cur) (f_const (- 1 / 5)) then ''Sales dropped'' else ''Sales up'']))"
proof (intro conjI impI)
  have len: "length ps = length qs" using assms(1) by (metis size_mset)
  show "AnalyzeTrend ps = AnalyzeTrend qs"
    by (simp add: AnalyzeTrend_def len order_by_perm [OF assms])
  show "length (AnalyzeTrend ps) \<le> 1" by (simp add: AnalyzeTrend_def Let_def)
  assume some: "AnalyzeTrend ps \<noteq> []"
  let ?s = "order_by sx_period ps" and ?k = "\<lambda>p. str_key (sx_period p)"
  have two: "2 \<le> length ps" using some by (auto simp: AnalyzeTrend_def split: if_splits)
  have set: "set ?s = set ps" "length ?s = length ps" and srt: "sorted (map ?k ?s)" by (simp_all add: order_by_sort_key)
  define i where "i = length ps - 2"
  have i: "length ps - 1 = Suc i" "length ps = Suc (Suc i)" using two by (simp_all add: i_def)
  have "distinct (map sx_period ?s)"
  proof -
    have "mset (map sx_period ?s) = mset (map sx_period ps)" by (simp add: order_by_sort_key)
    then show ?thesis using assms(2) by (metis mset_eq_imp_distinct_iff)
  qed
  then have neq: "sx_period (?s ! i) \<noteq> sx_period (?s ! Suc i)"
    using set(2) i by (auto simp: distinct_conv_nth)
  have le: "?k (?s ! a) \<le> ?k (?s ! b)" if "a \<le> b" "b < length ps" for a b
    using sorted_nth_mono [OF srt, of a b] that set(2) by simp
  have rest: "p = ?s ! Suc i \<or> str_le (sx_period p) (sx_period (?s ! i))" if "p \<in> set ps" for p
  proof -
    from that set obtain j where j: "j < length ps" "p = ?s ! j" by (metis in_set_conv_nth)
    show ?thesis using le [of j i] i j by (cases "j = Suc i") (auto simp: str_le_key)
  qed
  let ?prev = "?s ! i" and ?cur = "?s ! Suc i"
  have trend: "AnalyzeTrend ps = (if flt (Fin 0) (sx_total ?prev) then
      (let change = fdiv (fsub (sx_total ?cur) (sx_total ?prev)) (sx_total ?prev) in
       if fle change (f_const (- 1 / 5)) then
         [\<lparr>in_headline = ''Sales dropped'',
           in_detail = ''Revenue fell materially vs the previous period; investigate top SKUs and pending orders.''\<rparr>]
       else if fle (f_const (1 / 5)) change then
         [\<lparr>in_headline = ''Sales up'', in_detail = ''Revenue grew vs the previous period.''\<rparr>]
       else []) else [])"
    using two set(2) i by (simp add: AnalyzeTrend_def Let_def)
  have mem: "?prev \<in> set ps" "?cur \<in> set ps" using set i by (metis lessI less_SucI nth_mem)+
  show "\<exists>prev cur. prev \<in> set ps \<and> cur \<in> set ps \<and> flt (Fin 0) (sx_total prev) \<and>
       str_le (sx_period prev) (sx_period cur) \<and> sx_period prev \<noteq> sx_period cur \<and>
       list_all (\<lambda>p. p = cur \<or> str_le (sx_period p) (sx_period prev)) ps \<and>
       map in_headline (AnalyzeTrend ps) =
         [if fle (growth prev cur) (f_const (- 1 / 5)) then ''Sales dropped'' else ''Sales up'']"
  proof (rule exI [of _ ?prev], rule exI [of _ ?cur], intro conjI)
    show "flt (Fin 0) (sx_total ?prev)" using some unfolding trend by (simp split: if_splits)
    then show "map in_headline (AnalyzeTrend ps) =
        [if fle (growth ?prev ?cur) (f_const (- 1 / 5)) then ''Sales dropped'' else ''Sales up'']"
      using some unfolding trend growth_def by (simp add: Let_def split: if_splits)
    show "list_all (\<lambda>p. p = ?cur \<or> str_le (sx_period p) (sx_period ?prev)) ps"
      using rest by (simp add: list_all_iff)
    show "str_le (sx_period ?prev) (sx_period ?cur)" using le [of i "Suc i"] i by (simp add: str_le_key)
  qed (use mem neq in simp_all)
qed

theorem trend_of_latest_periods_witness:
  "AnalyzeTrend [\<lparr>sx_period = ''2026-02'', sx_total = Fin 5\<rparr>, \<lparr>sx_period = ''2026-01'', sx_total = Fin 9\<rparr>] =
     AnalyzeTrend [\<lparr>sx_period = ''2026-01'', sx_total = Fin 9\<rparr>, \<lparr>sx_period = ''2026-02'', sx_total = Fin 5\<rparr>]"
  by (rule trend_of_latest_periods [THEN conjunct1]) simp_all

section \<open>Charges\<close>

definition charge_amount :: "(string \<Rightarrow> string) \<Rightarrow> f64 \<Rightarrow> money" where
  "charge_amount q x =
     Convert \<lparr>mo_amount = minor_units x, mo_currency = ''MYR''\<rparr>
       (if ToUpper (q ''currency'') = '''' then ''MYR'' else ToUpper (q ''currency''))"

lemma ToUpper_idem [simp]: "ToUpper (ToUpper s) = ToUpper s"
  by (auto simp: ToUpper_def upper_char_def is_lower_def code_def)

lemma charge_amount_unknown:
  "ToUpper (q ''currency'') \<noteq> '''' \<Longrightarrow> fxFromMYR (ToUpper (q ''currency'')) = None \<Longrightarrow>
   charge_amount q x = \<lparr>mo_amount = minor_units x, mo_currency = ToUpper (q ''currency'')\<rparr>"
proof -
  assume c: "ToUpper (q ''currency'') \<noteq> ''''" and none: "fxFromMYR (ToUpper (q ''currency'')) = None"
  have "ToUpper ''MYR'' = ''MYR''" by (simp add: ToUpper_def upper_char_def is_lower_def code_def)
  moreover from none have "ToUpper (q ''currency'') \<noteq> ''MYR''" by (auto simp: fxFromMYR_def)
  ultimately show ?thesis using c none by (simp add: charge_amount_def Convert_def Let_def split: option.splits)
qed

lemma order_Get_InrD:
  assumes run: "order_Get E (LocalStorage F s) t i w = (v, Inr o1)"
  shows "w_db v = w_db w \<and> (\<exists>r. find (own_order t i) (orders (w_db w)) = Some r \<and> od_total o1 = e_num_dec E (or_total r))"
proof -
  from run obtain u o0 where get: "repo_Get E t i w = (u, Inr o0)" and att: "attachProofURLs (LocalStorage F s) o0 u = (v, Inr o1)"
    unfolding order_Get_def by (auto elim!: bind_InrE)
  from att have "od_total o1 = od_total o0" unfolding attachProofURLs_def by (auto elim!: bind_InrE)
  moreover have "w_db v = w_db w" by (rule reads_db' [OF local_store.reads_order_Get run])
  ultimately show ?thesis using repo_Get_InrD [OF get] by auto
qed

definition charge_answer ::
  "'z env_scheme \<Rightarrow> string \<Rightarrow> (string \<Rightarrow> string) \<Rightarrow> uuid \<Rightarrow> order \<Rightarrow> charge_result \<Rightarrow> payment \<Rightarrow> charge_json" where
  "charge_answer E base q oid o1 res pay =
     \<lparr>cj_ref = cs_ref res, cj_status = cs_status res, cj_payment = py_id pay,
      cj_amount = mo_amount (charge_amount q (od_total o1)), cj_currency = mo_currency (charge_amount q (od_total o1)),
      cj_redirect = base @ ''/api/pay/mock/'' @ cs_ref res @ ''?order='' @ e_uuid_str E oid @
        ''&payment='' @ e_uuid_str E (py_id pay)\<rparr>"

lemma charge_unfold:
  "charge E S base ctx p q =
     bind_act (parseUUID E ''order id'' p) (\<lambda>oid.
     bind_act (order_Get E S (tid ctx) oid) (\<lambda>o1.
     bind_act (mock_CreateCharge E base \<lparr>cq_order = e_uuid_str E oid, cq_amount = charge_amount q (od_total o1),
         cq_customer = od_email o1\<rparr>) (\<lambda>res.
     bind_act (AddPayment E oid '''' (od_total o1)) (\<lambda>pay.
     ret (JSON 200 (X_charge (charge_answer E base q oid o1 res pay)))))))"
  by (simp add: charge_def Let_def charge_amount_def charge_answer_def)

lemma charge_InrE:
  assumes "charge E S base ctx p q w = (w', Inr resp)"
  obtains oid o1 res pay w2 w3 where "e_uuid_parse E p = Some oid"
    and "order_Get E S (tid ctx) oid w = (w2, Inr o1)"
    and "mock_CreateCharge E base \<lparr>cq_order = e_uuid_str E oid, cq_amount = charge_amount q (od_total o1),
         cq_customer = od_email o1\<rparr> w2 = (w3, Inr res)"
    and "AddPayment E oid '''' (od_total o1) w3 = (w', Inr pay)"
    and "resp = JSON 200 (X_charge (charge_answer E base q oid o1 res pay))"
  using assms unfolding charge_unfold parseUUID_def
  by (auto elim!: bind_InrE split: option.splits)

lemma Convert_currency: "mo_currency (Convert \<lparr>mo_amount = n, mo_currency = ''MYR''\<rparr> (ToUpper c)) = ToUpper c"
proof -
  have myr: "ToUpper ''MYR'' = ''MYR''" by (simp add: ToUpper_def upper_char_def is_lower_def code_def)
  then show ?thesis by (auto simp: Convert_def Let_def split: option.split)
qed

text \<open>C30: A charge that succeeds was asked for an order of the tenant. It adds one submitted payment without
  proof to that order, of the order's total, one more for every call, and changes nothing else, not even the status; the
  answer names that payment. Its currency is the one asked for in capitals, or ringgit, and its amount is the total in
  sen, converted to that currency; for a currency that the rate table does not have it is the same number of sen
  under the other name.\<close>

theorem charge_effect:
  assumes "charge E (LocalStorage F s) base ctx p q w = (w', Inr resp)"
  shows "\<exists>oid r pay x. e_uuid_parse E p = Some oid \<and> find (own_order (tid ctx) oid) (orders (w_db w)) = Some r \<and>
    w_db w' = (w_db w)\<lparr>payments := payments (w_db w) @ [pay]\<rparr> \<and>
    pm_order pay = oid \<and> pm_proof_key pay = '''' \<and> pm_status pay = ''submitted'' \<and>
    e_num_enc E (e_num_dec E (or_total r)) = Some (pm_amount pay) \<and>
    resp = JSON 200 (X_charge x) \<and> cj_payment x = pm_id pay \<and>
    cj_currency x = (if ToUpper (q ''currency'') = '''' then ''MYR'' else ToUpper (q ''currency'')) \<and>
    cj_amount x = mo_amount (Convert \<lparr>mo_amount = minor_units (e_num_dec E (or_total r)), mo_currency = ''MYR''\<rparr> (cj_currency x)) \<and>
    (ToUpper (q ''currency'') \<noteq> '''' \<and> fxFromMYR (ToUpper (q ''currency'')) = None \<longrightarrow>
       cj_amount x = minor_units (e_num_dec E (or_total r)))"
proof -
  from assms obtain oid o1 res pp w2 w3 where parse: "e_uuid_parse E p = Some oid"
    and get: "order_Get E (LocalStorage F s) (tid ctx) oid w = (w2, Inr o1)"
    and mock: "mock_CreateCharge E base \<lparr>cq_order = e_uuid_str E oid, cq_amount = charge_amount q (od_total o1),
         cq_customer = od_email o1\<rparr> w2 = (w3, Inr res)"
    and pay: "AddPayment E oid '''' (od_total o1) w3 = (w', Inr pp)"
    and resp: "resp = JSON 200 (X_charge (charge_answer E base q oid o1 res pp))" by (rule charge_InrE)
  from order_Get_InrD [OF get] obtain r where r: "find (own_order (tid ctx) oid) (orders (w_db w)) = Some r"
    "od_total o1 = e_num_dec E (or_total r)" and w2: "w_db w2 = w_db w" by auto
  have w3: "w_db w3 = w_db w" using reads_db' [OF reads_module_helpers(3) mock] w2 by simp
  obtain pm where pm: "w_db w' = (w_db w)\<lparr>payments := payments (w_db w) @ [pm]\<rparr>" "py_id pp = pm_id pm" "pm_order pm = oid"
    "pm_proof_key pm = ''''" "pm_status pm = ''submitted''" "e_num_enc E (od_total o1) = Some (pm_amount pm)"
    using pay by (rule AddPayment_InrE) (use w3 in \<open>auto simp: payment_of_row_def\<close>)
  have cur: "mo_currency (charge_amount q x) = (if ToUpper (q ''currency'') = '''' then ''MYR'' else ToUpper (q ''currency''))" for x
    using Convert_currency [of _ "q ''currency''"] Convert_currency [of _ "''MYR''"]
    by (simp add: charge_amount_def Let_def ToUpper_def [of "''MYR''"] upper_char_def is_lower_def code_def)
  have odd: "mo_amount (charge_amount q x) = minor_units x"
    if "ToUpper (q ''currency'') \<noteq> '''' \<and> fxFromMYR (ToUpper (q ''currency'')) = None" for x
    using that by (simp add: charge_amount_unknown)
  let ?x = "charge_answer E base q oid o1 res pp"
  show ?thesis
    by (rule exI [of _ oid], rule exI [of _ r], rule exI [of _ pm], rule exI [of _ ?x])
      (use parse r resp pm cur in \<open>simp add: charge_answer_def odd charge_amount_def [symmetric]\<close>)
qed

theorem charge_effect_witness:
  "\<exists>w' x. charge sample_enh (LocalStorage (sample_app sample_claims) sample_store) ''http://x'' sample_ctx ''9''
      (\<lambda>_. ''EUR'') (sample_world sample_orders) = (w', Inr (JSON 200 (X_charge x))) \<and>
    map pm_order (payments (w_db w')) = [9] \<and> cj_currency x = ''EUR''"
proof -
  let ?w = "sample_world sample_orders" and ?o = "full_order sample_enh sample_orders sample_order"
  let ?S = "LocalStorage (sample_app sample_claims) sample_store"
  have ctx: "tid sample_ctx = 7" by (simp add: sample_ctx_def tid_Some uuid_Nil_def)
  have pays: "od_payments ?o = []"
    by (simp add: full_order_def sample_orders_def sample_db_def empty_db_def order_desc_def)
  have nine: "e_uuid_parse (sample_env sample_claims) ''9'' = Some 9"
    by (simp add: sample_env_def nat_of_digits_def is_digit_def digit_val_def code_def)
  then have parse: "parseUUID sample_enh ''order id'' ''9'' ?w = (?w, Inr 9)" by (simp add: parseUUID_def)
  have find: "find (own_order 7 9) (orders sample_orders) = Some sample_order"
    using sample_orders_find by simp
  have get: "order_Get sample_enh ?S (tid sample_ctx) 9 ?w = (?w, Inr ?o)"
    unfolding order_Get_def
    by (simp add: bind_act_def [of "map_err _ _"] map_err_def repo_Get_ok ctx find attachProofURLs_def pays)
  have paid: "e_num_dec (sample_env sample_claims) (or_total sample_order) = Fin 5"
    by (simp add: sample_order_def sample_env_def)
  let ?q = "\<lparr>pm_id = 1001, pm_order = 9, pm_proof_key = '''', pm_amount = 500, pm_status = ''submitted'', pm_created = 0\<rparr>"
  have ok: "db_ok (sample_orders\<lparr>payments := [?q]\<rparr>)"
    using sample_orders_ok by (simp add: db_ok_defs sample_orders_def sample_order_def sample_db_def empty_db_def
        sample_tenant_def order_statuses_def)
  have w: "w_seed ?w = 0" "w_now ?w = 0" "payments sample_orders = []"
    by (simp_all add: sample_world_def sample_orders_def sample_db_def empty_db_def)
  obtain w3 res where mock: "mock_CreateCharge sample_enh ''http://x'' \<lparr>cq_order = e_uuid_str sample_enh 9,
      cq_amount = charge_amount (\<lambda>_. ''EUR'') (od_total ?o), cq_customer = od_email ?o\<rparr> ?w = (w3, Inr res)"
    and w3: "w3 = ?w\<lparr>w_seed := 1\<rparr>"
    by (simp add: mock_CreateCharge_def uuid_string_def bind_act_def [of "bind_act _ _"] bind_act_def [of "new_uuid _"] new_uuid_run w)
  have env: "e_num_enc (sample_env sample_claims) (Fin 5) = Some 500" "e_uuid_gen (sample_env sample_claims) 1 = 1001"
    by (simp_all add: sample_env_def)
  obtain w4 pay where add: "AddPayment sample_enh 9 '''' (od_total ?o) w3 = (w4, Inr pay)"
    by (simp add: AddPayment_def bind_act_def num_arg_run new_uuid_run now_run paid env w w3 Let_def sql_ok commit_def ok
        env(2) [unfolded One_nat_def])
  have run: "charge sample_enh ?S ''http://x'' sample_ctx ''9'' (\<lambda>_. ''EUR'') ?w = (w4, Inr (JSON 200 (X_charge
      (charge_answer sample_enh ''http://x'' (\<lambda>_. ''EUR'') 9 ?o res pay))))"
    unfolding charge_unfold
    by (rule trans [OF bind_run_Inr], rule parse, rule trans [OF bind_run_Inr], rule get,
        rule trans [OF bind_run_Inr], rule mock, rule trans [OF bind_run_Inr], rule add) simp
  have "ToUpper ''EUR'' = ''EUR''" by (simp add: ToUpper_def upper_char_def is_lower_def code_def)
  with charge_effect [OF run] run w(3) nine show ?thesis by (auto simp: fxFromMYR_def)
qed

end
