(* ===== verification/Copilot.thy ===== *)
theory Copilot
  imports EnhModule
begin

text \<open>
  The parser of seller commands (\<open>enhancements/eh1_orchestration.go\<close>) and the handler that shows
  what it proposes (\<open>module.go\<close>). The patterns of the source are syntax trees; \<open>matches\<close> gives
  the matches of a tree at a place in the order in which a backtracking matcher finds them, which
  is the preference that Go's \<open>regexp\<close> follows, and \<open>search\<close> takes the first of the leftmost
  place. A text is a list of glyphs, each a rune with its bytes. The Unicode classes of letters and
  numbers are a parameter.
\<close>

section \<open>Patterns\<close>

type_synonym glyph = "nat \<times> string"

function glyphs :: "string \<Rightarrow> glyph list" where
  "glyphs [] = []"
| "glyphs (c # cs) =
     (let (r, w) = decode_rune (map code (c # cs)) in (r, c # take (w - 1) cs) # glyphs (drop (w - 1) cs))"
  by pat_completeness auto
termination by (relation "measure length") (auto split: prod.splits)

definition text_of :: "glyph list \<Rightarrow> string" where
  "text_of gs = concat (map snd gs)"

datatype re =
    Eps
  | Class "nat \<Rightarrow> bool"
  | Cat re re
  | Alt re re
  | Greedy re
  | Lazy re
  | Grp nat re
  | WordB
  | AtEnd

text \<open>A place in the text: the glyph before it, the glyphs after it, and the groups captured.\<close>

record re_state =
  rs_prev :: "glyph option"
  rs_rest :: "glyph list"
  rs_caps :: "(nat \<times> glyph list) list"

primrec greedy :: "(re_state \<Rightarrow> re_state list) \<Rightarrow> nat \<Rightarrow> re_state \<Rightarrow> re_state list" where
  "greedy f 0 s = [s]"
| "greedy f (Suc n) s = concat (map (greedy f n) (f s)) @ [s]"

primrec lazy :: "(re_state \<Rightarrow> re_state list) \<Rightarrow> nat \<Rightarrow> re_state \<Rightarrow> re_state list" where
  "lazy f 0 s = [s]"
| "lazy f (Suc n) s = s # concat (map (lazy f n) (f s))"

definition word_rune :: "nat \<Rightarrow> bool" where
  "word_rune r \<longleftrightarrow> (48 \<le> r \<and> r \<le> 57) \<or> (65 \<le> r \<and> r \<le> 90) \<or> r = 95 \<or> (97 \<le> r \<and> r \<le> 122)"

definition step_class :: "(nat \<Rightarrow> bool) \<Rightarrow> re_state \<Rightarrow> re_state list" where
  "step_class p s =
     (case rs_rest s of
        [] \<Rightarrow> []
      | g # gs \<Rightarrow> if p (fst g) then [s\<lparr>rs_prev := Some g, rs_rest := gs\<rparr>] else [])"

definition at_boundary :: "re_state \<Rightarrow> bool" where
  "at_boundary s \<longleftrightarrow>
     (case rs_prev s of None \<Rightarrow> False | Some g \<Rightarrow> word_rune (fst g)) \<noteq>
     (case rs_rest s of [] \<Rightarrow> False | g # _ \<Rightarrow> word_rune (fst g))"

definition capture :: "nat \<Rightarrow> re_state \<Rightarrow> re_state \<Rightarrow> re_state" where
  "capture n s t = t\<lparr>rs_caps := (n, take (length (rs_rest s) - length (rs_rest t)) (rs_rest s)) # rs_caps t\<rparr>"

text \<open>A repetition goes on at most as long as there are glyphs: its body takes at least one in every
  pattern below.\<close>

fun matches :: "re \<Rightarrow> re_state \<Rightarrow> re_state list" where
  "matches Eps s = [s]"
| "matches (Class p) s = step_class p s"
| "matches (Cat a b) s = concat (map (matches b) (matches a s))"
| "matches (Alt a b) s = matches a s @ matches b s"
| "matches (Greedy r) s = greedy (matches r) (length (rs_rest s)) s"
| "matches (Lazy r) s = lazy (matches r) (length (rs_rest s)) s"
| "matches (Grp n r) s = map (capture n s) (matches r s)"
| "matches WordB s = (if at_boundary s then [s] else [])"
| "matches AtEnd s = (if rs_rest s = [] then [s] else [])"

fun search :: "re \<Rightarrow> glyph option \<Rightarrow> glyph list \<Rightarrow> re_state option" where
  "search r prev [] =
     (case matches r \<lparr>rs_prev = prev, rs_rest = [], rs_caps = []\<rparr> of [] \<Rightarrow> None | t # _ \<Rightarrow> Some t)"
| "search r prev (g # gs) =
     (case matches r \<lparr>rs_prev = prev, rs_rest = g # gs, rs_caps = []\<rparr> of
        [] \<Rightarrow> search r (Some g) gs
      | t # _ \<Rightarrow> Some t)"

definition FindStringSubmatch :: "re \<Rightarrow> string \<Rightarrow> (nat \<Rightarrow> string) option" where
  "FindStringSubmatch r msg =
     map_option (\<lambda>t n. case map_of (rs_caps t) n of None \<Rightarrow> '''' | Some gs \<Rightarrow> text_of gs) (search r None (glyphs msg))"

section \<open>The patterns of the source\<close>

text \<open>Under \<open>(?i)\<close> the letters s and k also stand for U+017F and U+212A.\<close>

definition folds :: "char \<Rightarrow> nat \<Rightarrow> bool" where
  "folds c r \<longleftrightarrow> r = code c \<or> r = code (upper_char c) \<or> (c = CHR ''s'' \<and> r = 383) \<or> (c = CHR ''k'' \<and> r = 8490)"

definition blank :: "nat \<Rightarrow> bool" where
  "blank r \<longleftrightarrow> r \<in> set [9, 10, 12, 13, 32]"

definition digit_rune :: "nat \<Rightarrow> bool" where
  "digit_rune r \<longleftrightarrow> 48 \<le> r \<and> r \<le> 57"

definition hex_dash :: "nat \<Rightarrow> bool" where
  "hex_dash r \<longleftrightarrow> digit_rune r \<or> (97 \<le> r \<and> r \<le> 102) \<or> (65 \<le> r \<and> r \<le> 70) \<or> r = 45"

definition seq :: "re list \<Rightarrow> re" where
  "seq rs = foldr Cat rs Eps"

definition lits :: "string \<Rightarrow> re" where
  "lits s = seq (map (\<lambda>c. Class (folds c)) s)"

fun alts :: "re list \<Rightarrow> re" where
  "alts [] = Class (\<lambda>_. False)"
| "alts [r] = r"
| "alts (r # rs) = Alt r (alts rs)"

definition opt :: "re \<Rightarrow> re" where
  "opt r = Alt r Eps"

definition some_of :: "re \<Rightarrow> re" where
  "some_of r = Cat r (Greedy r)"

definition blanks :: re where
  "blanks = some_of (Class blank)"

text \<open>\<open>([0-9]+(?:\.[0-9]{1,2})?)\<close>\<close>

definition amount :: re where
  "amount = seq [some_of (Class digit_rune),
     opt (seq [Class (\<lambda>r. r = 46), Class digit_rune, opt (Class digit_rune)])]"

text \<open>\<open>rm?\<close>: the r is not optional.\<close>

definition ringgit :: re where
  "ringgit = seq [lits ''r'', opt (lits ''m'')]"

definition reAddProduct :: re where
  "reAddProduct = seq [WordB, alts [lits ''add'', lits ''create'', lits ''tambah''], WordB, blanks,
     opt (alts [Cat (lits ''product'') blanks, Cat (lits ''produk'') blanks]),
     Grp 1 (Cat (Class (\<lambda>r. r \<noteq> 10)) (Lazy (Class (\<lambda>r. r \<noteq> 10)))), blanks,
     alts [lits ''price'', lits ''harga'', lits ''for'', lits ''@'', lits ''rm''],
     Greedy (Class blank), ringgit, Greedy (Class blank), Grp 2 amount]"

definition reSetPrice :: re where
  "reSetPrice = seq [WordB, alts [lits ''set'', lits ''change'', lits ''update'', lits ''tukar''], WordB, blanks,
     lits ''price'', blanks, opt (alts [Cat (lits ''of'') blanks, Cat (lits ''for'') blanks]),
     Grp 1 (some_of (Class (\<lambda>r. \<not> blank r))), blanks, opt (Cat (lits ''to'') blanks),
     ringgit, Greedy (Class blank), Grp 2 amount]"

definition reCategory :: "(nat \<Rightarrow> bool) \<Rightarrow> re" where
  "reCategory letnum =
     (let c = Class (\<lambda>r. letnum r \<or> r = 32)
      in seq [lits ''categor'', alts [lits ''y'', lits ''i''], blanks, Grp 1 (Cat c (Lazy c)),
           alts [seq [blanks, lits ''sku'', WordB], AtEnd]])"

definition reSKU :: re where
  "reSKU = seq [WordB, lits ''sku'', blanks, Grp 1 (some_of (Class (\<lambda>r. \<not> blank r)))]"

definition reAdvanceOrder :: re where
  "reAdvanceOrder = seq [WordB, alts [lits ''advance'', lits ''move'', lits ''set'', lits ''ship''], WordB, blanks,
     lits ''order'', blanks,
     Grp 1 (seq [Class hex_dash, Class hex_dash, Class hex_dash, Class hex_dash, Class hex_dash,
       some_of (Class hex_dash)]),
     opt (seq [blanks, lits ''to'', blanks, Grp 2 (some_of (Class (\<lambda>r. word_rune r \<or> r = 383 \<or> r = 8490)))])]"

definition reGenContent :: re where
  "reGenContent = seq [WordB, alts [lits ''generate'', lits ''write'', lits ''draft''], WordB, blanks,
     opt (Cat (lits ''a'') blanks), alts [lits ''description'', lits ''desc'', lits ''copy'', lits ''seo''], blanks,
     opt (Cat (lits ''for'') blanks), Grp 1 (some_of (Class (\<lambda>r. r \<noteq> 10))), AtEnd]"

section \<open>The parser\<close>

text \<open>The keyword is looked for in the lower-cased name and the name itself is cut at the place found. \<open>lower\<close> is
  Go's \<open>ToLower\<close>; it may change the length of letters outside ASCII, so the cut can be misplaced, or outside
  of the name, where the slice panics (None).\<close>

definition strip_from :: "(string \<Rightarrow> string) \<Rightarrow> string \<Rightarrow> string \<Rightarrow> string option" where
  "strip_from lower kw name =
     (case Index (lower name) kw of
        None \<Rightarrow> Some name
      | Some i \<Rightarrow> if i \<le> length name then Some (take i name) else None)"

fun strip_all :: "(string \<Rightarrow> string) \<Rightarrow> string list \<Rightarrow> string \<Rightarrow> string option" where
  "strip_all lower [] name = Some name"
| "strip_all lower (kw # kws) name = Option.bind (strip_from lower kw name) (strip_all lower kws)"

definition stripTrailers :: "(string \<Rightarrow> string) \<Rightarrow> string \<Rightarrow> string option" where
  "stripTrailers lower name =
     map_option TrimSpace (strip_all lower ['' category '', '' categori '', '' sku '', '' kategori ''] name)"

definition ParseSellerCommand ::
  "(nat \<Rightarrow> bool) \<Rightarrow> (string \<Rightarrow> string) \<Rightarrow> string \<Rightarrow> proposed_action list option" where
  "ParseSellerCommand letnum lower message =
     (let msg = TrimSpace message in
      case FindStringSubmatch reAddProduct msg of
        Some m \<Rightarrow>
          map_option (\<lambda>name. [\<lparr>ac_kind = ''create_product'', ac_target = '''',
            ac_params =
              [(''product_name'', TrimSpace name), (''unit_price'', m 2)] @
              (case FindStringSubmatch (reCategory letnum) msg of
                 Some c \<Rightarrow> [(''category'', TrimSpace (c 1))] | None \<Rightarrow> []) @
              (case FindStringSubmatch reSKU msg of Some s \<Rightarrow> [(''sku'', s 1)] | None \<Rightarrow> [])\<rparr>])
            (stripTrailers lower (m 1))
      | None \<Rightarrow>
      (case FindStringSubmatch reSetPrice msg of
        Some m \<Rightarrow>
          Some [\<lparr>ac_kind = ''update_product_price'', ac_target = m 1,
            ac_params = [(''sku'', m 1), (''unit_price'', m 2)]\<rparr>]
      | None \<Rightarrow>
      (case FindStringSubmatch reAdvanceOrder msg of
        Some m \<Rightarrow>
          Some [\<lparr>ac_kind = ''advance_order_status'', ac_target = m 1,
            ac_params = [(''status'', if m 2 = '''' \<and> Contains (lower msg) ''ship'' then ''shipped'' else m 2)]\<rparr>]
      | None \<Rightarrow>
      (case FindStringSubmatch reGenContent msg of
        Some m \<Rightarrow>
          Some [\<lparr>ac_kind = ''generate_content'', ac_target = '''', ac_params = [(''product_name'', TrimSpace (m 1))]\<rparr>]
      | None \<Rightarrow> Some []))))"

text \<open>What the handler answers: the agent, the proposals, and a note for a question. The middleware that
  recovers from a panic turns it into an error that no handler knows.\<close>

datatype interpret_reply = X_interpreted agent_kind "proposed_action list" "string option"

definition question_note :: string where
  "question_note = ''This looks like a question '' @ em_dash @ '' use POST /assistant/search for grounded answers.''"

definition copilotInterpret ::
  "(nat \<Rightarrow> bool) \<Rightarrow> (string \<Rightarrow> string) \<Rightarrow> identity option \<Rightarrow> string option \<Rightarrow> interpret_reply response go" where
  "copilotInterpret letnum lower ctx body =
     bind_act (Bind body) (\<lambda>message.
     (let kind = Route lower \<lparr>aq_tenant = '''', aq_role = idn_role (identity_of ctx), aq_scope = ''admin'', aq_message = message\<rparr>
      in if kind = AgentStorefrontAssistant then ret (JSON 200 (X_interpreted kind [] (Some question_note)))
         else (case ParseSellerCommand letnum lower message of
                 None \<Rightarrow> raise (ErrMsg ''slice bounds out of range'')
               | Some acts \<Rightarrow> ret (JSON 200 (X_interpreted kind acts None)))))"

section \<open>What a match is\<close>

text \<open>The texts a pattern stands for, its groups, and the groups that every match captures.\<close>

primrec lang :: "re \<Rightarrow> glyph list set" where
  "lang Eps = {[]}"
| "lang (Class p) = {[g] | g. p (fst g)}"
| "lang (Cat a b) = {u @ v | u v. u \<in> lang a \<and> v \<in> lang b}"
| "lang (Alt a b) = lang a \<union> lang b"
| "lang (Greedy r) = {concat us | us. set us \<subseteq> lang r}"
| "lang (Lazy r) = {concat us | us. set us \<subseteq> lang r}"
| "lang (Grp n r) = lang r"
| "lang WordB = {[]}"
| "lang AtEnd = {[]}"

primrec grps :: "re \<Rightarrow> (nat \<times> re) set" where
  "grps Eps = {}"
| "grps (Class p) = {}"
| "grps (Cat a b) = grps a \<union> grps b"
| "grps (Alt a b) = grps a \<union> grps b"
| "grps (Greedy r) = grps r"
| "grps (Lazy r) = grps r"
| "grps (Grp n r) = insert (n, r) (grps r)"
| "grps WordB = {}"
| "grps AtEnd = {}"

primrec must :: "re \<Rightarrow> nat set" where
  "must Eps = {}"
| "must (Class p) = {}"
| "must (Cat a b) = must a \<union> must b"
| "must (Alt a b) = must a \<inter> must b"
| "must (Greedy r) = {}"
| "must (Lazy r) = {}"
| "must (Grp n r) = insert n (must r)"
| "must WordB = {}"
| "must AtEnd = {}"

text \<open>A step from a place to another one that took a text of \<open>L\<close> and captured only groups of \<open>G\<close>.\<close>

definition took :: "glyph list set \<Rightarrow> (nat \<times> re) set \<Rightarrow> re_state \<Rightarrow> re_state \<Rightarrow> bool" where
  "took L G s t \<longleftrightarrow>
     (\<exists>u \<in> L. rs_rest s = u @ rs_rest t) \<and> fst ` set (rs_caps s) \<subseteq> fst ` set (rs_caps t) \<and>
     (\<forall>(n, u) \<in> set (rs_caps t). (n, u) \<in> set (rs_caps s) \<or>
        (\<exists>r. (n, r) \<in> G \<and> u \<in> lang r \<and> set u \<subseteq> set (rs_rest s)))"

lemma took_refl: "[] \<in> L \<Longrightarrow> took L G s s"
  by (auto simp: took_def)

lemma took_trans:
  assumes "took L G s t" and "took M H t v"
  shows "took {u @ w | u w. u \<in> L \<and> w \<in> M} (G \<union> H) s v"
proof -
  from assms obtain u w where "u \<in> L" "rs_rest s = u @ rs_rest t" "w \<in> M" "rs_rest t = w @ rs_rest v"
    by (auto simp: took_def)
  then have "\<exists>x \<in> {u @ w | u w. u \<in> L \<and> w \<in> M}. rs_rest s = x @ rs_rest v" by auto
  moreover have "fst ` set (rs_caps s) \<subseteq> fst ` set (rs_caps v)"
    using assms unfolding took_def by (meson order_trans)
  moreover have "(n, u) \<in> set (rs_caps s) \<or> (\<exists>r. (n, r) \<in> G \<union> H \<and> u \<in> lang r \<and> set u \<subseteq> set (rs_rest s))"
    if cap: "(n, u) \<in> set (rs_caps v)" for n u
  proof -
    have "set (rs_rest t) \<subseteq> set (rs_rest s)" using assms(1) by (auto simp: took_def)
    then have "(n, u) \<in> set (rs_caps t) \<or> (\<exists>r. (n, r) \<in> H \<and> u \<in> lang r \<and> set u \<subseteq> set (rs_rest s))"
      using assms(2) cap unfolding took_def by fastforce
    moreover have "(n, u) \<in> set (rs_caps t) \<Longrightarrow>
        (n, u) \<in> set (rs_caps s) \<or> (\<exists>r. (n, r) \<in> G \<and> u \<in> lang r \<and> set u \<subseteq> set (rs_rest s))"
      using assms(1) by (auto simp: took_def)
    ultimately show ?thesis by auto
  qed
  ultimately show ?thesis unfolding took_def by blast
qed

lemma took_mono:
  assumes "took L G s t" and "L \<subseteq> M" and "G \<subseteq> H"
  shows "took M H s t"
proof -
  have "\<exists>u \<in> M. rs_rest s = u @ rs_rest t" using assms(1,2) by (auto simp: took_def)
  moreover have "\<forall>(n, u) \<in> set (rs_caps t). (n, u) \<in> set (rs_caps s) \<or>
      (\<exists>r. (n, r) \<in> H \<and> u \<in> lang r \<and> set u \<subseteq> set (rs_rest s))"
    using assms(1,3) unfolding took_def by fast
  ultimately show ?thesis using assms(1) by (simp add: took_def)
qed

lemma took_repeat:
  assumes "took L G s t" and "took {concat us | us. set us \<subseteq> L} G t v"
  shows "took {concat us | us. set us \<subseteq> L} G s v"
proof (rule took_mono [OF took_trans [OF assms]])
  show "{u @ w | u w. u \<in> L \<and> w \<in> {concat us | us. set us \<subseteq> L}} \<subseteq> {concat us | us. set us \<subseteq> L}"
  proof clarify
    fix u us assume "u \<in> L" "set us \<subseteq> L"
    then show "\<exists>vs. u @ concat us = concat vs \<and> set vs \<subseteq> L" by (intro exI [of _ "u # us"]) auto
  qed
qed simp

lemma empty_repeat: "[] \<in> {concat us | us. set us \<subseteq> L}"
  by (intro CollectI exI [of _ "[]"]) simp

lemma took_greedy:
  assumes "\<And>s t. t \<in> set (f s) \<Longrightarrow> took L G s t"
  shows "t \<in> set (greedy f n s) \<Longrightarrow> took {concat us | us. set us \<subseteq> L} G s t"
proof (induction n arbitrary: s)
  case (Suc n)
  then show ?case using assms by (auto intro: took_repeat took_refl [OF empty_repeat])
qed (simp add: took_refl [OF empty_repeat])

lemma took_lazy:
  assumes "\<And>s t. t \<in> set (f s) \<Longrightarrow> took L G s t"
  shows "t \<in> set (lazy f n s) \<Longrightarrow> took {concat us | us. set us \<subseteq> L} G s t"
proof (induction n arbitrary: s)
  case (Suc n)
  then show ?case using assms by (auto intro: took_repeat took_refl [OF empty_repeat])
qed (simp add: took_refl [OF empty_repeat])

lemma took_capture:
  assumes "took L G s t" and "L = lang r"
  shows "took L (insert (n, r) G) s (capture n s t)"
proof -
  from assms obtain u where "u \<in> lang r" "rs_rest s = u @ rs_rest t" by (auto simp: took_def)
  with assms show ?thesis by (auto simp: took_def capture_def)
qed

lemma matches_took: "t \<in> set (matches r s) \<Longrightarrow> took (lang r) (grps r) s t"
proof (induction r arbitrary: s t)
  case (Class p)
  then obtain g gs where "rs_rest s = g # gs" "p (fst g)" "t = s\<lparr>rs_prev := Some g, rs_rest := gs\<rparr>"
    by (cases "rs_rest s") (simp_all add: step_class_def split: if_splits)
  then have "[g] \<in> lang (Class p)" "rs_rest s = [g] @ rs_rest t" "rs_caps t = rs_caps s" by (cases g; simp)+
  then show ?case unfolding took_def by auto
next
  case (Cat a b)
  then show ?case by (auto dest!: Cat.IH intro: took_trans)
next
  case (Alt a b)
  then show ?case by (auto dest!: Alt.IH intro: took_mono)
next
  case (Greedy r)
  then show ?case using took_greedy [of "matches r" "lang r" "grps r"] by simp
next
  case (Lazy r)
  then show ?case using took_lazy [of "matches r" "lang r" "grps r"] by simp
next
  case (Grp n r)
  then show ?case by (auto intro: took_capture)
qed (auto simp: took_def split: if_splits)



lemma matches_must: "t \<in> set (matches r s) \<Longrightarrow> must r \<subseteq> fst ` set (rs_caps t)"
proof (induction r arbitrary: s t)
  case (Cat a b)
  then obtain u where u: "u \<in> set (matches a s)" "t \<in> set (matches b u)" by auto
  have "fst ` set (rs_caps u) \<subseteq> fst ` set (rs_caps t)" using matches_took [OF u(2)] by (simp add: took_def)
  with Cat.IH(1) [OF u(1)] Cat.IH(2) [OF u(2)] show ?case by simp
next
  case (Alt a b)
  then show ?case by fastforce
next
  case (Grp n r)
  then obtain x where x: "x \<in> set (matches r s)" "t = capture n s x" by auto
  from Grp.IH [OF x(1)] show ?case unfolding x(2) by (auto simp: capture_def)
qed simp_all

lemma search_matches:
  "search r prev gs = Some t \<Longrightarrow> \<exists>s. t \<in> set (matches r s) \<and> rs_caps s = [] \<and> set (rs_rest s) \<subseteq> set gs"
proof (induction r prev gs rule: search.induct)
  case (1 r prev)
  then show ?case
    by (intro exI [of _ "\<lparr>rs_prev = prev, rs_rest = [], rs_caps = []\<rparr>"]) (auto split: list.splits)
next
  case (2 r prev g gs)
  let ?s = "\<lparr>rs_prev = prev, rs_rest = g # gs, rs_caps = []\<rparr>"
  show ?case
  proof (cases "matches r ?s")
    case Nil
    with 2 show ?thesis by (auto intro: order_trans [of _ "set gs"])
  next
    case (Cons u us)
    with 2 show ?thesis by (intro exI [of _ ?s]) auto
  qed
qed

text \<open>A group that every match captures holds a text of its pattern.\<close>

lemma submatch_lang:
  assumes "FindStringSubmatch r msg = Some m" and "n \<in> must r" and "\<And>q. (n, q) \<in> grps r \<Longrightarrow> q = p"
  obtains u where "m n = text_of u" and "u \<in> lang p" and "set u \<subseteq> set (glyphs msg)"
proof -
  from assms(1) obtain t where t: "search r None (glyphs msg) = Some t"
    and m: "m = (\<lambda>n. case map_of (rs_caps t) n of None \<Rightarrow> '''' | Some gs \<Rightarrow> text_of gs)"
    by (auto simp: FindStringSubmatch_def)
  from search_matches [OF t] obtain s where s: "t \<in> set (matches r s)" "rs_caps s = []"
    "set (rs_rest s) \<subseteq> set (glyphs msg)" by blast
  have "n \<in> dom (map_of (rs_caps t))"
    using matches_must [OF s(1)] assms(2) by (auto simp: dom_map_of_conv_image_fst)
  then obtain u where u: "map_of (rs_caps t) n = Some u" by blast
  then have "(n, u) \<in> set (rs_caps t)" by (rule map_of_SomeD)
  with matches_took [OF s(1)] s(2) obtain q where "(n, q) \<in> grps r" "u \<in> lang q" "set u \<subseteq> set (rs_rest s)"
    by (auto simp: took_def)
  with assms(3) m u s(3) that show ?thesis by auto
qed

section \<open>Prices that the executor reads\<close>

text \<open>Digits, and one or two more after a point.\<close>

definition price_text :: "string \<Rightarrow> bool" where
  "price_text s \<longleftrightarrow>
     (\<exists>ds fs. s = ds @ fs \<and> ds \<noteq> [] \<and> list_all is_digit ds \<and>
        (fs = [] \<or> (\<exists>es. fs = CHR ''.'' # es \<and> length es \<in> set [1, 2] \<and> list_all is_digit es)))"

lemma decode_ascii: "decode_rune bs = (r, w) \<Longrightarrow> r < 128 \<Longrightarrow> bs \<noteq> [] \<and> r = hd bs \<and> w = 1"
  by (cases bs) (auto simp: Let_def cont_def split: if_splits list.splits)

lemma glyphs_ascii: "(r, bs) \<in> set (glyphs s) \<Longrightarrow> r < 128 \<Longrightarrow> bs = [char_of r]"
proof (induction s rule: glyphs.induct)
  case (2 c cs)
  obtain q w where q: "decode_rune (map code (c # cs)) = (q, w)" by fastforce
  from 2 q show ?case using decode_ascii [OF q] by auto
qed simp

lemma text_of_ascii:
  assumes "set u \<subseteq> set (glyphs s)" and "\<forall>g \<in> set u. fst g < 128"
  shows "text_of u = map (\<lambda>g. char_of (fst g)) u"
  using assms by (induction u) (auto simp: text_of_def dest: glyphs_ascii)

lemma lang_some_of: "u \<in> lang (some_of (Class p)) \<longleftrightarrow> u \<noteq> [] \<and> (\<forall>g \<in> set u. p (fst g))"
proof
  assume "u \<noteq> [] \<and> (\<forall>g \<in> set u. p (fst g))"
  then obtain g v where u: "u = g # v" "p (fst g)" "\<forall>g \<in> set v. p (fst g)" by (cases u) auto
  have one: "[g] \<in> lang (Class p)" if "p (fst g)" for g using that by (cases g) simp
  have "v = concat (map (\<lambda>g. [g]) v)" by (induction v) auto
  moreover have "set (map (\<lambda>g. [g]) v) \<subseteq> lang (Class p)" using one u(3) by auto
  ultimately have "v \<in> lang (Greedy (Class p))" unfolding lang.simps(5) by blast
  with one [OF u(2)] have "[g] @ v \<in> lang (Cat (Class p) (Greedy (Class p)))" unfolding lang.simps(3) by blast
  then show "u \<in> lang (some_of (Class p))" by (simp add: some_of_def u(1))
qed (fastforce simp: some_of_def)

lemma char_of_dot: "char_of (46 :: nat) = CHR ''.''"
  using char_of_code [of "CHR ''.''"] by (simp add: code_def)

lemma digit_glyph: "digit_rune r \<Longrightarrow> is_digit (char_of r :: char) \<and> r < 128"
  by (simp add: digit_rune_def is_digit_def)

lemma amount_text:
  assumes "u \<in> lang amount" and "set u \<subseteq> set (glyphs s)"
  shows "price_text (text_of u)"
proof -
  from assms(1) obtain ds fs where u: "u = ds @ fs" "ds \<in> lang (some_of (Class digit_rune))"
    and fs: "fs = [] \<or> (\<exists>d e es. fs = d # e # es \<and> fst d = 46 \<and> digit_rune (fst e) \<and>
      (es = [] \<or> (\<exists>f. es = [f] \<and> digit_rune (fst f))))"
    by (auto simp: amount_def seq_def opt_def)
  have ds: "ds \<noteq> []" "\<forall>g \<in> set ds. digit_rune (fst g)" using u(2) by (simp_all add: lang_some_of)
  have "\<forall>g \<in> set u. fst g < 128" using ds(2) fs digit_glyph unfolding u(1) by auto
  then have bytes: "text_of u = map (\<lambda>g. char_of (fst g)) u" using assms(2) by (rule text_of_ascii [rotated])
  show ?thesis
    unfolding price_text_def bytes unfolding u(1) map_append
  proof (intro exI conjI)
    show "list_all is_digit (map (\<lambda>g. char_of (fst g)) ds)" using ds(2) digit_glyph by (auto simp: list_all_iff)
    show "map (\<lambda>g. char_of (fst g)) fs = [] \<or> (\<exists>es. map (\<lambda>g. char_of (fst g)) fs = CHR ''.'' # es \<and>
        length es \<in> set [1, 2] \<and> list_all is_digit es)"
      using fs digit_glyph by (auto simp: char_of_dot)
  qed (use ds(1) in simp_all)
qed

lemma mantissa_digits:
  "list_all is_digit ds \<Longrightarrow>
   \<exists>n' fd'. read_mantissa 10 saw dot n fd (ds @ r) = read_mantissa 10 (saw \<or> ds \<noteq> []) dot n' fd' r"
proof (induction ds arbitrary: saw n fd)
  case (Cons c ds)
  have c: "c \<noteq> CHR ''_''" "c \<noteq> CHR ''.''" "is_digit c" using Cons.prems by (auto simp: is_digit_def code_def)
  from Cons.IH Cons.prems obtain n' fd' where
    "read_mantissa 10 True dot (n * 10 + digit_val c) (if dot then fd + 1 else fd) (ds @ r) = read_mantissa 10 True dot n' fd' r"
    using Cons.IH [of True "n * 10 + digit_val c" "if dot then fd + 1 else fd"] by auto
  with c show ?case by (cases dot; simp add: digit_in_def; blast)
qed auto

lemma ParseFloat_price:
  assumes "price_text s"
  shows "snd (ParseFloat s) \<in> set [None, Some ErrRange]"
proof -
  from assms obtain ds fs where s: "s = ds @ fs" "ds \<noteq> []" "list_all is_digit ds"
    and fs: "fs = [] \<or> (\<exists>es. fs = CHR ''.'' # es \<and> list_all is_digit es)"
    by (auto simp: price_text_def)
  have dot: "\<not> is_digit c \<Longrightarrow> c \<in> set s \<Longrightarrow> c = CHR ''.''" for c
    using s(1,3) fs by (auto simp: list_all_iff)
  obtain c t where ct: "s = c # t" "is_digit c" using s by (cases ds) auto
  have head: "c \<noteq> CHR ''+''" "c \<noteq> CHR ''-''" "lower_char c \<notin> set ''in''"
    using ct(2) by (auto simp: is_digit_def code_def lower_char_def is_upper_def)
  have sign: "scan_sign s = (False, s)" using head by (simp add: scan_sign_def ct(1))
  have special: "special_float s = None"
    using head(3) sign by (auto simp: special_float_def ToLower_def ct(1))
  have hex: "\<not> is_hex s"
  proof
    assume "is_hex s"
    then have x: "lower_char (s ! 1) = CHR ''x''" "s ! 1 \<in> set s" by (auto simp: is_hex_def)
    with dot [of "s ! 1"] show False
      by (cases "is_digit (s ! 1)") (auto simp: is_digit_def code_def lower_char_def is_upper_def)
  qed
  have under: "CHR ''_'' \<notin> set s" using dot [of "CHR ''_''"] by (auto simp: is_digit_def code_def)
  obtain n fd where mant: "read_mantissa 10 False False 0 0 s = (True, n, fd, [])"
  proof -
    from mantissa_digits [OF s(3)] obtain n fd where
      1: "read_mantissa 10 False False 0 0 (ds @ fs) = read_mantissa 10 (False \<or> ds \<noteq> []) False n fd fs" by blast
    have 1: "read_mantissa 10 False False 0 0 s = read_mantissa 10 True False n fd fs" using 1 s(1,2) by simp
    show ?thesis
    proof (cases "fs = []")
      case True
      with 1 that show ?thesis by simp
    next
      case False
      with fs obtain es where es: "fs = CHR ''.'' # es" "list_all is_digit es" by auto
      from mantissa_digits [OF es(2), of True True n fd "[]"] 1 es(1) that show ?thesis by auto
    qed
  qed
  show ?thesis
    unfolding ParseFloat_def special sign
    by (simp add: hex mant under scan_exponent_def Let_def split: f64.split)
qed

section \<open>What the parser proposes\<close>

lemma amount_groups:
  "2 \<in> must reAddProduct" "(2, q) \<in> grps reAddProduct \<Longrightarrow> q = amount"
  "2 \<in> must reSetPrice" "(2, q) \<in> grps reSetPrice \<Longrightarrow> q = amount"
  by (auto simp: reAddProduct_def reSetPrice_def seq_def amount_def some_of_def opt_def lits_def blanks_def ringgit_def)

lemma FindStringSubmatch_amount:
  assumes "FindStringSubmatch r msg = Some m" and "r \<in> {reAddProduct, reSetPrice}"
  shows "price_text (m 2)"
proof -
  have "2 \<in> must r" "\<And>q. (2, q) \<in> grps r \<Longrightarrow> q = amount" using assms(2) amount_groups by auto
  with assms(1) show ?thesis by (rule submatch_lang) (auto dest: amount_text)
qed

definition known_kinds :: "string list" where
  "known_kinds = [''create_product'', ''update_product_price'', ''advance_order_status'', ''generate_content'']"

definition well_typed :: "proposed_action \<Rightarrow> bool" where
  "well_typed act \<longleftrightarrow> ac_kind act \<in> set known_kinds \<and>
     (ac_kind act \<in> {''create_product'', ''update_product_price''} \<longrightarrow>
        price_text (param act ''unit_price'') \<and>
        snd (ParseFloat (param act ''unit_price'')) \<in> set [None, Some ErrRange])"

lemma well_typed_priced:
  assumes "price_text (param act ''unit_price'')" and "ac_kind act \<in> set known_kinds"
  shows "well_typed act"
  unfolding well_typed_def using assms ParseFloat_price [OF assms(1)] by blast

text \<open>The slice panics only when a name got longer in lower case.\<close>

lemma Index_within: "Index s t = Some i \<Longrightarrow> i \<le> length s"
  using Index_Some_append by blast

lemma stripTrailers_None: "stripTrailers lower s = None \<Longrightarrow> \<exists>name. length (lower name) > length name"
proof -
  have "\<exists>name. length (lower name) > length name" if "strip_all lower kws n = None" for kws n
    using that
  proof (induction kws arbitrary: n)
    case (Cons kw kws)
    show ?case
    proof (cases "strip_from lower kw n")
      case None
      then obtain i where i: "Index (lower n) kw = Some i" "length n < i"
        by (auto simp: strip_from_def split: option.splits if_splits)
      from Index_within [OF i(1)] i(2) have "length n < length (lower n)" by simp
      then show ?thesis by blast
    qed (use Cons in simp)
  qed simp
  then show "stripTrailers lower s = None \<Longrightarrow> ?thesis" 
    unfolding stripTrailers_def map_option_is_None by blast
qed


lemma glyphs_text: "\<forall>c \<in> set s. code c < 128 \<Longrightarrow> glyphs s = map (\<lambda>c. (code c, [c])) s"
proof (induction s)
  case (Cons c cs)
  then have "decode_rune (map code (c # cs)) = (code c, 1)" by simp
  with Cons show ?case by simp
qed simp

lemmas re_eval =
  seq_def lits_def folds_def code_def upper_char_def is_lower_def some_of_def opt_def blanks_def blank_def
  ringgit_def amount_def digit_rune_def hex_dash_def at_boundary_def word_rune_def step_class_def capture_def
  reAddProduct_def reSetPrice_def reAdvanceOrder_def reGenContent_def

text \<open>The currency mark of a price is not optional: the patterns ask for its r, so an amount without
  it is not understood.\<close>

lemma price_needs_ringgit: "ParseSellerCommand letnum lower ''set price of K1 to 5'' = Some []"
proof -
  have msg: "TrimSpace ''set price of K1 to 5'' = ''set price of K1 to 5''"
    by (simp add: TrimSpace_def trim_if_def is_space_def code_def)
  have gs: "glyphs ''set price of K1 to 5'' = map (\<lambda>c. (code c, [c])) ''set price of K1 to 5''"
    by (rule glyphs_text) (simp add: code_def)
  have "search reAddProduct None (glyphs ''set price of K1 to 5'') = None"
    "search reSetPrice None (glyphs ''set price of K1 to 5'') = None"
    "search reAdvanceOrder None (glyphs ''set price of K1 to 5'') = None"
    "search reGenContent None (glyphs ''set price of K1 to 5'') = None"
    unfolding gs by (simp_all add: re_eval)
  then show ?thesis by (simp add: ParseSellerCommand_def msg FindStringSubmatch_def)
qed

end
