(* ===== verification/Assistant.thy ===== *)
theory Assistant
  imports Auth
begin

text \<open>
  The proxy to the question answering service (\<open>api/internal/assistant/assistant.go\<close>). The service
  is a parameter: from the address, the request id and the question it gives an answer with its
  status, or the connection fails, or the address is no URL. The tenant of a question is that of
  the token or of the store named in the path, and a question writes no table.
\<close>

record assistant_request =
  ar_tenant :: string
  ar_question :: string
  ar_scope :: string
  ar_top_k :: int

datatype rag_result = RequestFailed | Unreachable | Answered int string

type_synonym rag = "string \<Rightarrow> string option \<Rightarrow> assistant_request \<Rightarrow> rag_result"

record refusal =
  rl_answer :: string
  rl_grounded :: bool
  rl_citations :: "string list"

definition unavailable :: refusal where
  "unavailable = \<lparr>rl_answer = ''The assistant is temporarily unavailable. Please try again shortly.'',
     rl_grounded = False, rl_citations = []\<rparr>"

definition forward :: "rag \<Rightarrow> string \<Rightarrow> string option \<Rightarrow> assistant_request \<Rightarrow> refusal response go" where
  "forward rag base rid req =
     (case rag (base @ ''/assistant/ask'') rid req of
        RequestFailed \<Rightarrow> raise (Internal ''assistant request failed'')
      | Unreachable \<Rightarrow> ret (JSON 200 unavailable)
      | Answered status payload \<Rightarrow> ret (Blob status ''application/json'' payload))"

definition adminSearch ::
  "'z env_scheme \<Rightarrow> rag \<Rightarrow> string \<Rightarrow> string option \<Rightarrow> identity option \<Rightarrow> string option \<Rightarrow> refusal response go" where
  "adminSearch E rag base rid ctx body =
     (case From ctx of
        Inl _ \<Rightarrow> raise (Unauthorized ''authentication required'')
      | Inr i \<Rightarrow>
          bind_act (Bind body) (\<lambda>question.
          bind_act (check (question \<noteq> '''') (BadRequest ''question is required'')) (\<lambda>_.
          forward rag base rid
            \<lparr>ar_tenant = e_uuid_str E (idn_tenant i), ar_question = question, ar_scope = ''admin'', ar_top_k = 0\<rparr>)))"

definition storefrontAsk ::
  "'z env_scheme \<Rightarrow> rag \<Rightarrow> string \<Rightarrow> string option \<Rightarrow> string \<Rightarrow> string option \<Rightarrow> refusal response go" where
  "storefrontAsk E rag base rid username body =
     bind_act (or_else (TenantByUsername username) (NotFound ''store not found'')) (\<lambda>t.
     bind_act (Bind body) (\<lambda>question.
     bind_act (check (question \<noteq> '''') (BadRequest ''question is required'')) (\<lambda>_.
     forward rag base rid
       \<lparr>ar_tenant = e_uuid_str E (tn_id t), ar_question = question, ar_scope = ''storefront'', ar_top_k = 0\<rparr>)))"

lemma reads_forward: "reads (forward rag base rid req)"
  by (cases "rag (base @ ''/assistant/ask'') rid req") (simp_all add: forward_def rd.keeps_combinators)

lemma reads_assistant: "reads (adminSearch E rag base rid ctx body)" "reads (storefrontAsk E rag base rid u body)"
  unfolding adminSearch_def storefrontAsk_def TenantByUsername_def
  by (intro reads_combinators reads_forward reads_tenantByQuery)+

end
