(* ===== verification/AccessLog.thy ===== *)
theory AccessLog
  imports Tenancy "HOL-Library.Sublist"
begin

text \<open>
  The access log (\<open>api/internal/accesslog/accesslog.go\<close>): requests put entries into a channel
  of 1024 places and go on whether or not there was room; one worker takes them out and inserts
  them. \<open>alog\<close> is the channel, the entry the worker holds and the rows written by it. Steps
  interleave freely. An abstract machine, a queue without a bound that may lose entries, says
  what the log promises; \<open>pending\<close> and \<open>al_rows\<close> map the one onto the other.
\<close>

record entry =
  en_tenant :: "uuid option"
  en_ip :: string
  en_referrer :: string
  en_url :: string
  en_uri :: string
  en_agent :: string

definition channel_size :: nat where
  "channel_size = 1024"

text \<open>The request as far as an entry shows it; the entry has the tenant of the context, if any.\<close>

record request_info =
  ri_ip :: string
  ri_referrer :: string
  ri_url :: string
  ri_path :: string
  ri_agent :: string

definition entry_of :: "request_info \<Rightarrow> identity option \<Rightarrow> entry" where
  "entry_of q ctx =
     \<lparr>en_tenant = (case From ctx of Inl _ \<Rightarrow> None | Inr i \<Rightarrow> Some (idn_tenant i)),
      en_ip = ri_ip q, en_referrer = ri_referrer q, en_url = ri_url q, en_uri = ri_path q, en_agent = ri_agent q\<rparr>"

definition send_entry :: "entry \<Rightarrow> entry list \<Rightarrow> entry list" where
  "send_entry e ch = (if length ch < channel_size then ch @ [e] else ch)"

text \<open>The middleware: the handler's answer, and the channel after it.\<close>

definition Middleware :: "'r go \<Rightarrow> request_info \<Rightarrow> identity option \<Rightarrow> entry list \<Rightarrow> world \<Rightarrow> (world \<times> (go_err + 'r)) \<times> entry list" where
  "Middleware next_handler q ctx ch w = (next_handler w, send_entry (entry_of q ctx) ch)"

definition log_row :: "entry \<Rightarrow> access_log_row" where
  "log_row e =
     \<lparr>al_tenant = en_tenant e, al_ip = en_ip e, al_referrer = en_referrer e, al_url = en_url e,
      al_uri = en_uri e, al_user_agent = en_agent e\<rparr>"

section \<open>The worker\<close>

record alog =
  al_ch :: "entry list"
  al_busy :: "entry option"
  al_rows :: "access_log_row list"

text \<open>An insert that fails may have taken effect all the same, when the answer comes too late.\<close>

datatype al_event = Visit entry | Receive | Inserted | InsertFailed

inductive al_step :: "alog \<Rightarrow> al_event \<Rightarrow> alog \<Rightarrow> bool" where
  al_visit: "al_step s (Visit e) (s\<lparr>al_ch := send_entry e (al_ch s)\<rparr>)"
| al_receive: "al_busy s = None \<Longrightarrow> al_ch s = e # es \<Longrightarrow> al_step s Receive (s\<lparr>al_ch := es, al_busy := Some e\<rparr>)"
| al_inserted: "al_busy s = Some e \<Longrightarrow> al_step s Inserted (s\<lparr>al_busy := None, al_rows := al_rows s @ [log_row e]\<rparr>)"
| al_failed: "al_busy s = Some e \<Longrightarrow> al_step s InsertFailed (s\<lparr>al_busy := None\<rparr>)"
| al_failed_late: "al_busy s = Some e \<Longrightarrow> al_step s InsertFailed (s\<lparr>al_busy := None, al_rows := al_rows s @ [log_row e]\<rparr>)"

inductive_cases al_visitE [elim!]: "al_step s (Visit e) s'"
inductive_cases al_receiveE [elim!]: "al_step s Receive s'"
inductive_cases al_insertedE [elim!]: "al_step s Inserted s'"
inductive_cases al_failedE [elim!]: "al_step s InsertFailed s'"

inductive al_run :: "alog \<Rightarrow> al_event list \<Rightarrow> alog \<Rightarrow> bool" where
  al_stop: "al_run s [] s"
| al_more: "al_run s evs t \<Longrightarrow> al_step t ev u \<Longrightarrow> al_run s (evs @ [ev]) u"

definition al_init :: alog where
  "al_init = \<lparr>al_ch = [], al_busy = None, al_rows = []\<rparr>"

section \<open>The promise\<close>

text \<open>A queue that may refuse an entry or lose its oldest one, with what came out of it.\<close>

inductive lossy :: "entry list \<times> access_log_row list \<Rightarrow> al_event \<Rightarrow> entry list \<times> access_log_row list \<Rightarrow> bool" where
  l_accept: "lossy (q, out) (Visit e) (q @ [e], out)"
| l_refuse: "lossy (q, out) (Visit e) (q, out)"
| l_take: "lossy (q, out) Receive (q, out)"
| l_write: "lossy (e # q, out) Inserted (q, out @ [log_row e])"
| l_lose: "lossy (e # q, out) InsertFailed (q, out)"
| l_late: "lossy (e # q, out) InsertFailed (q, out @ [log_row e])"

definition pending :: "alog \<Rightarrow> entry list" where
  "pending s = (case al_busy s of None \<Rightarrow> [] | Some e \<Rightarrow> [e]) @ al_ch s"

definition abs_log :: "alog \<Rightarrow> entry list \<times> access_log_row list" where
  "abs_log s = (pending s, al_rows s)"

lemma al_simulates: "al_step s ev s' \<Longrightarrow> lossy (abs_log s) ev (abs_log s')"
proof (induction rule: al_step.induct)
  case (al_visit s e)
  show ?case
    using l_accept [of "pending s" "al_rows s" e] l_refuse [of "pending s" "al_rows s" e]
    by (simp add: abs_log_def pending_def send_entry_def)
qed (auto simp: abs_log_def pending_def intro: lossy.intros)

inductive lossy_run :: "entry list \<times> access_log_row list \<Rightarrow> al_event list \<Rightarrow> entry list \<times> access_log_row list \<Rightarrow> bool" where
  lr_stop: "lossy_run a [] a"
| lr_more: "lossy_run a evs b \<Longrightarrow> lossy b ev c \<Longrightarrow> lossy_run a (evs @ [ev]) c"

definition visits :: "al_event list \<Rightarrow> entry list" where
  "visits evs = concat (map (\<lambda>ev. case ev of Visit e \<Rightarrow> [e] | _ \<Rightarrow> []) evs)"

lemma visits_simps [simp]: "visits [] = []" "visits (evs @ [Visit e]) = visits evs @ [e]"
  "visits (evs @ [Receive]) = visits evs" "visits (evs @ [Inserted]) = visits evs"
  "visits (evs @ [InsertFailed]) = visits evs"
  by (simp_all add: visits_def)

text \<open>What the abstract machine guarantees: entries come out in the order of the visits, none twice.\<close>

lemma lossy_order: "lossy_run a evs b \<Longrightarrow> a = ([], []) \<Longrightarrow> subseq (snd b @ map log_row (fst b)) (map log_row (visits evs))"
proof (induction rule: lossy_run.induct)
  case (lr_more a evs b ev c)
  then have ih: "subseq (snd b @ map log_row (fst b)) (map log_row (visits evs))" by simp
  from lr_more.hyps(2) show ?case
  proof cases
    case (l_accept q out e)
    then show ?thesis using list_emb_append_mono [OF ih, of "[log_row e]" "[log_row e]"] by simp
  next
    case (l_refuse q out e)
    then show ?thesis using ih list_emb_append2 [of "(=)" _ "map log_row (visits evs)" "[log_row e]"]
      by (simp add: list_emb_prefix)
  next
    case (l_lose e q out)
    then have "subseq (out @ map log_row q) (out @ log_row e # map log_row q)" by (auto simp: subseq_append' intro: list_emb_Cons)
    then show ?thesis using l_lose ih by (auto intro: subseq_order.trans)
  qed (use ih in simp_all)
qed simp

lemma al_run_lossy: "al_run s evs t \<Longrightarrow> lossy_run (abs_log s) evs (abs_log t)"
  by (induction rule: al_run.induct) (auto intro: lossy_run.intros al_simulates)

lemma al_run_bounded: "al_run s evs t \<Longrightarrow> length (al_ch s) \<le> channel_size \<Longrightarrow> length (al_ch t) \<le> channel_size"
proof (induction rule: al_run.induct)
  case (al_more s evs t ev u)
  from al_more.hyps(2) al_more.IH [OF al_more.prems] show ?case by cases (auto simp: send_entry_def)
qed simp

text \<open>The worker keeps up: whenever a visit comes, the visits before it are fewer than the entries taken out so
  far and the places of the channel together.\<close>

definition keeps_up :: "al_event list \<Rightarrow> bool" where
  "keeps_up evs \<longleftrightarrow>
     (\<forall>before e after. evs = before @ Visit e # after \<longrightarrow>
        length (visits before) < channel_size + length (filter (\<lambda>ev. ev = Receive) before))"

lemma keeps_up_snoc:
  "keeps_up (evs @ [ev]) \<Longrightarrow> keeps_up evs"
  "keeps_up (evs @ [Visit e]) \<Longrightarrow> length (visits evs) < channel_size + length (filter (\<lambda>ev. ev = Receive) evs)"
  unfolding keeps_up_def by (metis append.assoc append_Cons) blast

text \<open>Then every visit finds room: nothing is lost, however many visits there are, unless an insert fails.\<close>

lemma al_run_lossless:
  "al_run s evs t \<Longrightarrow> s = al_init \<Longrightarrow> InsertFailed \<notin> set evs \<Longrightarrow> keeps_up evs \<Longrightarrow>
   al_rows t @ map log_row (pending t) = map log_row (visits evs) \<and>
   length (al_ch t) + length (filter (\<lambda>ev. ev = Receive) evs) = length (visits evs)"
proof (induction rule: al_run.induct)
  case (al_stop s)
  then show ?case by (simp add: al_init_def pending_def)
next
  case (al_more s evs t ev u)
  have ih: "al_rows t @ map log_row (pending t) = map log_row (visits evs)"
    "length (al_ch t) + length (filter (\<lambda>ev. ev = Receive) evs) = length (visits evs)"
    using al_more.IH al_more.prems keeps_up_snoc(1) by auto
  from al_more.hyps(2) show ?case
  proof cases
    case (al_visit e)
    then have "length (al_ch t) < channel_size" using keeps_up_snoc(2) [of evs e] al_more.prems(3) ih(2) by simp
    then show ?thesis using ih al_visit by (simp add: send_entry_def pending_def)
  next
    case al_failed
    then show ?thesis using al_more.prems by simp
  next
    case al_failed_late
    then show ?thesis using al_more.prems by simp
  qed (use ih in \<open>simp_all add: pending_def\<close>)
qed

lemma few_visits_keep_up: "length (visits evs) \<le> channel_size \<Longrightarrow> keeps_up evs"
  unfolding keeps_up_def by (auto simp: visits_def)

text \<open>C16: The access log does what a lossy queue without a bound promises, step by step, and its buffer
  stays within its 1024 places: the rows written and the entries still waiting are the visits in
  their order, none twice; a visit can be taken at any time, so a request never waits for the log;
  and as long as the worker keeps up, however long the run, and no insert fails, none is lost.\<close>

theorem access_log_refines:
  assumes "al_run al_init evs s"
  shows "lossy_run ([], []) evs (pending s, al_rows s) \<and> length (al_ch s) \<le> channel_size \<and>
    subseq (al_rows s @ map log_row (pending s)) (map log_row (visits evs)) \<and>
    (\<forall>e. al_step s (Visit e) (s\<lparr>al_ch := send_entry e (al_ch s)\<rparr>)) \<and>
    (InsertFailed \<notin> set evs \<and> keeps_up evs \<longrightarrow>
       al_rows s @ map log_row (pending s) = map log_row (visits evs))"
proof (intro conjI impI)
  have init: "abs_log al_init = ([], [])" by (simp add: abs_log_def pending_def al_init_def)
  show run: "lossy_run ([], []) evs (pending s, al_rows s)"
    using al_run_lossy [OF assms] by (simp add: init) (simp add: abs_log_def)
  show "subseq (al_rows s @ map log_row (pending s)) (map log_row (visits evs))"
    using lossy_order [OF run] by simp
  show "length (al_ch s) \<le> channel_size" using al_run_bounded [OF assms] by (simp add: al_init_def)
  show "al_rows s @ map log_row (pending s) = map log_row (visits evs)"
    if "InsertFailed \<notin> set evs \<and> keeps_up evs"
    using al_run_lossless [OF assms] that by simp
qed (simp add: al_visit)

definition sample_entry :: entry where
  "sample_entry = \<lparr>en_tenant = None, en_ip = ''10.0.0.1'', en_referrer = [], en_url = ''/api/healthz'',
     en_uri = ''/api/healthz'', en_agent = ''curl''\<rparr>"

theorem access_log_refines_witness:
  "\<exists>s. al_run al_init [Visit sample_entry, Receive, Inserted] s \<and> subseq (al_rows s @ map log_row (pending s)) [log_row sample_entry]"
proof -
  let ?a = "al_init\<lparr>al_ch := [sample_entry]\<rparr>" and ?b = "al_init\<lparr>al_busy := Some sample_entry\<rparr>" and ?c = "al_init\<lparr>al_rows := [log_row sample_entry]\<rparr>"
  have steps: "al_step al_init (Visit sample_entry) ?a" "al_step ?a Receive ?b" "al_step ?b Inserted ?c"
    using al_visit [of al_init sample_entry] al_receive [of ?a sample_entry "[]"] al_inserted [of ?b sample_entry]
    by (simp_all add: al_init_def send_entry_def channel_size_def)
  from al_more [OF al_stop steps(1)] have "al_run al_init [Visit sample_entry] ?a" by simp
  from al_more [OF this steps(2)] have "al_run al_init [Visit sample_entry, Receive] ?b" by simp
  from al_more [OF this steps(3)] have run: "al_run al_init [Visit sample_entry, Receive, Inserted] ?c" by simp
  from access_log_refines [OF run] run show ?thesis by (auto simp: visits_def)
qed

end
