(* ===== verification/Migrate.thy ===== *)
theory Migrate
  imports Httpx
begin

text \<open>
  The migrations (\<open>api/internal/db/migrate.go\<close>). The schema that the SQL of the files builds is
  a type variable, and running one file on it a parameter, which may fail. \<open>sm_faults\<close> says for
  each coming call to the server whether the connection fails there; a transaction that does not
  reach its commit leaves no trace. The records of \<open>schema_migrations\<close> are \<open>sm_applied\<close>.
\<close>

record migration =
  mg_version :: int
  mg_name :: string
  mg_up :: string

section \<open>The embedded files\<close>

text \<open>Files in the order of the directory, by name, each with its text.\<close>

fun load_entries :: "(string \<times> string) list \<Rightarrow> go_err + migration list" where
  "load_entries [] = Inr []"
| "load_entries ((name, b) # es) =
     (if \<not> HasSuffix name ''.up.sql'' then load_entries es
      else (case SplitN2 (TrimSuffix name ''.up.sql'') (CHR ''_'') of
              [v, n] \<Rightarrow>
                (case Atoi v of
                   (k, True) \<Rightarrow>
                     (case load_entries es of
                        Inl e \<Rightarrow> Inl e
                      | Inr ms \<Rightarrow> Inr (\<lparr>mg_version = k, mg_name = n, mg_up = b\<rparr> # ms))
                 | (_, False) \<Rightarrow> Inl (ErrMsg (''bad migration version '' @ v)))
            | _ \<Rightarrow> Inl (ErrMsg (''bad migration filename: '' @ name))))"

definition loadMigrations :: "(string \<times> string) list \<Rightarrow> go_err + migration list" where
  "loadMigrations files =
     (case load_entries files of Inl e \<Rightarrow> Inl e | Inr ms \<Rightarrow> Inr (sort_key mg_version ms))"

section \<open>Applying them\<close>

record 'd schema =
  sm_db :: 'd
  sm_applied :: "(int \<times> string) list"
  sm_faults :: "bool list"

type_synonym ('d, 'a) mig = "('d schema, go_err, 'a) act"

definition call :: "('d, unit) mig" where
  "call s =
     (case sm_faults s of
        True # fs \<Rightarrow> (s\<lparr>sm_faults := fs\<rparr>, Inl (ErrDb Unavailable))
      | fs \<Rightarrow> (s\<lparr>sm_faults := tl fs\<rparr>, Inr ()))"

definition exec_up :: "(string \<Rightarrow> 'd \<Rightarrow> 'd option) \<Rightarrow> migration \<Rightarrow> ('d, unit) mig" where
  "exec_up run m =
     bind_act call (\<lambda>_. bind_act (gets sm_db) (\<lambda>d.
     case run (mg_up m) d of
       None \<Rightarrow> raise (ErrMsg (''apply migration '' @ mg_name m))
     | Some d' \<Rightarrow> modify (\<lambda>s. s\<lparr>sm_db := d'\<rparr>)))"

text \<open>The version is the primary key of the table.\<close>

definition insert_version :: "migration \<Rightarrow> ('d, unit) mig" where
  "insert_version m =
     bind_act call (\<lambda>_. bind_act (gets sm_applied) (\<lambda>vs.
     if mg_version m \<in> set (map fst vs) then raise (ErrDb Violation)
     else modify (\<lambda>s. s\<lparr>sm_applied := sm_applied s @ [(mg_version m, mg_name m)]\<rparr>)))"

text \<open>\<open>Begin\<close>, the two statements, \<open>Commit\<close>; on any error the schema is as before.\<close>

definition apply_one :: "(string \<Rightarrow> 'd \<Rightarrow> 'd option) \<Rightarrow> migration \<Rightarrow> ('d, unit) mig" where
  "apply_one run m s =
     (case bind_act call (\<lambda>_. bind_act (exec_up run m) (\<lambda>_. bind_act (insert_version m) (\<lambda>_. call))) s of
        (s', Inl e) \<Rightarrow> (s'\<lparr>sm_db := sm_db s, sm_applied := sm_applied s\<rparr>, Inl e)
      | (s', Inr x) \<Rightarrow> (s', Inr x))"

fun apply_pending :: "(string \<Rightarrow> 'd \<Rightarrow> 'd option) \<Rightarrow> int list \<Rightarrow> migration list \<Rightarrow> ('d, unit) mig" where
  "apply_pending run applied [] = ret ()"
| "apply_pending run applied (m # ms) =
     (if mg_version m \<in> set applied then apply_pending run applied ms
      else bind_act (apply_one run m) (\<lambda>_. apply_pending run applied ms))"

text \<open>\<open>CREATE TABLE IF NOT EXISTS\<close> is a call that changes nothing here: the table is there from the
  start, empty. The applied versions are read once.\<close>

definition Migrate :: "(string \<Rightarrow> 'd \<Rightarrow> 'd option) \<Rightarrow> (string \<times> string) list \<Rightarrow> ('d, unit) mig" where
  "Migrate run files =
     bind_act call (\<lambda>_.
     bind_act (lift (loadMigrations files)) (\<lambda>ms.
     bind_act call (\<lambda>_. bind_act (gets sm_applied) (\<lambda>vs. apply_pending run (map fst vs) ms))))"

section \<open>What a boot does\<close>

text \<open>The migrations still to come, and the schema after a list of migrations.\<close>

definition todo :: "'d schema \<Rightarrow> migration list \<Rightarrow> migration list" where
  "todo s ms = filter (\<lambda>m. mg_version m \<notin> fst ` set (sm_applied s)) ms"

definition after :: "(string \<Rightarrow> 'd \<Rightarrow> 'd option) \<Rightarrow> 'd schema \<Rightarrow> migration list \<Rightarrow> 'd schema" where
  "after run s ms =
     s\<lparr>sm_db := foldl (\<lambda>d m. the (run (mg_up m) d)) (sm_db s) ms,
       sm_applied := sm_applied s @ map (\<lambda>m. (mg_version m, mg_name m)) ms\<rparr>"

fun runs_ok :: "(string \<Rightarrow> 'd \<Rightarrow> 'd option) \<Rightarrow> 'd \<Rightarrow> migration list \<Rightarrow> bool" where
  "runs_ok run d [] = True"
| "runs_ok run d (m # ms) = (case run (mg_up m) d of None \<Rightarrow> False | Some d' \<Rightarrow> runs_ok run d' ms)"

definition without_faults :: "'d schema \<Rightarrow> 'd schema" where
  "without_faults s = s\<lparr>sm_faults := []\<rparr>"

text \<open>The connection failures still to come: every boot that fails uses up one.\<close>

definition failures :: "'d schema \<Rightarrow> nat" where
  "failures s = length (filter (\<lambda>b. b) (sm_faults s))"

definition fresh_in :: "migration \<Rightarrow> 'd schema \<Rightarrow> bool" where
  "fresh_in m s \<longleftrightarrow> mg_version m \<notin> fst ` set (sm_applied s)"

lemma call_run:
  "call s = (s\<lparr>sm_faults := tl (sm_faults s)\<rparr>, case sm_faults s of True # _ \<Rightarrow> Inl (ErrDb Unavailable) | _ \<Rightarrow> Inr ())"
  by (auto simp: call_def split: list.splits bool.splits)

lemma call_failures:
  "(case sm_faults s of True # _ \<Rightarrow> failures s = Suc (failures (s\<lparr>sm_faults := tl (sm_faults s)\<rparr>))
     | _ \<Rightarrow> failures s = failures (s\<lparr>sm_faults := tl (sm_faults s)\<rparr>))"
  by (auto simp: failures_def split: list.splits bool.splits)

lemma apply_one_cases:
  assumes "run (mg_up m) (sm_db s) = Some d" and "fresh_in m s" and "apply_one run m s = (s', r)"
  shows "(r = Inr () \<and> without_faults s' = without_faults (after run s [m]) \<and> failures s' = failures s) \<or>
    ((\<exists>e. r = Inl e) \<and> without_faults s' = without_faults s \<and> failures s' < failures s)"
proof -
  let ?fs = "sm_faults s"
  have "mg_version m \<notin> fst ` set (sm_applied s)" using assms(2) by (simp add: fresh_in_def)
  then show ?thesis
    using assms(1,3)
    by (cases ?fs; cases "tl ?fs"; cases "tl (tl ?fs)"; cases "tl (tl (tl ?fs))")
      (auto simp: apply_one_def exec_up_def insert_version_def bind_act_def call_def without_faults_def after_def
        failures_def split: bool.splits)
qed

lemma apply_pending_run:
  assumes "apply_pending run vs ms s = (s', r)" and "set vs = fst ` set (sm_applied s)"
    and "distinct (map mg_version ms)" and "runs_ok run (sm_db s) (todo s ms)"
  shows "\<exists>k \<le> length (todo s ms). without_faults s' = without_faults (after run s (take k (todo s ms))) \<and>
    (r = Inr () \<and> k = length (todo s ms) \<and> failures s' = failures s \<or> (\<exists>e. r = Inl e) \<and> failures s' < failures s)"
proof -
  define ps where "ps = todo s ms"
  have ps: "distinct (map mg_version ps)" "\<forall>m \<in> set ps. fresh_in m s" "runs_ok run (sm_db s) ps"
    using assms(3,4) by (simp_all add: ps_def todo_def fresh_in_def distinct_map_filter)
  have "apply_pending run vs ms = apply_pending run [] ps"
    unfolding ps_def todo_def assms(2) [symmetric] by (induction ms) simp_all
  with assms(1) have run: "apply_pending run [] ps s = (s', r)" by simp
  have "\<exists>k \<le> length ps. without_faults s' = without_faults (after run s (take k ps)) \<and>
    (r = Inr () \<and> k = length ps \<and> failures s' = failures s \<or> (\<exists>e. r = Inl e) \<and> failures s' < failures s)"
    using run ps
  proof (induction ps arbitrary: s)
    case Nil
    then show ?case by (simp add: after_def)
  next
    case (Cons m ms)
    obtain t q where one: "apply_one run m s = (t, q)" by fastforce
    from Cons.prems obtain d where d: "run (mg_up m) (sm_db s) = Some d" and rest: "runs_ok run d ms"
      by (auto split: option.splits)
    have "fresh_in m s" using Cons.prems by simp
    from apply_one_cases [OF d this one] show ?case
    proof (elim disjE conjE)
      assume q: "q = Inr ()" and t: "without_faults t = without_faults (after run s [m])" "failures t = failures s"
      have db: "sm_db t = d" "sm_applied t = sm_applied s @ [(mg_version m, mg_name m)]"
        using arg_cong [OF t(1), of sm_db] arg_cong [OF t(1), of sm_applied] d by (simp_all add: without_faults_def after_def)
      have more: "apply_pending run [] ms t = (s', r)" using Cons.prems(1) one q by (simp add: bind_act_def)
      have "mg_version n \<noteq> mg_version m" if "n \<in> set ms" for n
        using Cons.prems(2) that by (simp add: image_iff) metis
      then have "\<forall>n \<in> set ms. fresh_in n t" using Cons.prems(3) by (simp add: fresh_in_def db)
      with Cons.IH [OF more] Cons.prems rest db obtain k where k: "k \<le> length ms"
        "without_faults s' = without_faults (after run t (take k ms))"
        "r = Inr () \<and> k = length ms \<and> failures s' = failures t \<or> (\<exists>e. r = Inl e) \<and> failures s' < failures t" by auto
      have "without_faults (after run t (take k ms)) = without_faults (after run s (take (Suc k) (m # ms)))"
        using d by (simp add: without_faults_def after_def db)
      with k t show ?thesis by (intro exI [of _ "Suc k"]) auto
    next
      assume "\<exists>e. q = Inl e" "without_faults t = without_faults s" "failures t < failures s"
      then show ?thesis using Cons.prems(1) one
        by (intro exI [of _ 0]) (auto simp: bind_act_def after_def without_faults_def)
    qed
  qed
  then show ?thesis by (simp add: ps_def)
qed

lemma todo_after:
  assumes "distinct (map mg_version ms)" and "without_faults s' = without_faults (after run s (take k (todo s ms)))"
    and "runs_ok run (sm_db s) (todo s ms)"
  shows "todo s' ms = drop k (todo s ms) \<and> runs_ok run (sm_db s') (todo s' ms) \<and>
    without_faults (after run s' (todo s' ms)) = without_faults (after run s (todo s ms))"
proof -
  define ps where "ps = todo s ms"
  have db: "sm_db s' = sm_db (after run s (take k ps))" and app: "sm_applied s' = sm_applied (after run s (take k ps))"
    using arg_cong [OF assms(2), of sm_db] arg_cong [OF assms(2), of sm_applied]
    by (simp_all add: without_faults_def ps_def)
  have dist: "distinct (map mg_version ps)" using assms(1) by (simp add: ps_def todo_def distinct_map_filter)
  have split: "filter (\<lambda>m. mg_version m \<notin> mg_version ` set (take k ps)) ps = drop k ps"
  proof -
    have "distinct (map mg_version (take k ps @ drop k ps))" using dist by simp
    then have "filter (\<lambda>m. mg_version m \<notin> mg_version ` set (take k ps)) (take k ps) = []"
      and "filter (\<lambda>m. mg_version m \<notin> mg_version ` set (take k ps)) (drop k ps) = drop k ps"
      by (auto simp: filter_empty_conv filter_id_conv simp del: append_take_drop_id)
    then show ?thesis by (metis append_Nil append_take_drop_id filter_append)
  qed
  have todo: "todo s' ms = drop k ps"
  proof -
    have "todo s' ms = filter (\<lambda>m. mg_version m \<notin> mg_version ` set (take k ps)) ps"
      by (auto simp: todo_def app after_def ps_def image_Un image_image intro: filter_cong)
    then show ?thesis by (simp add: split)
  qed
  have ok: "runs_ok run (foldl (\<lambda>d m. the (run (mg_up m) d)) d (take j xs)) (drop j xs)" if "runs_ok run d xs" for d j xs
    using that
  proof (induction xs arbitrary: d j)
    case (Cons m xs)
    then show ?case by (cases j) (auto split: option.splits)
  qed simp
  have "runs_ok run (sm_db s') (drop k ps)"
    using ok [of "sm_db s" ps k] assms(3) by (simp add: db after_def ps_def)
  moreover have "without_faults (after run s' (drop k ps)) = without_faults (after run s ps)"
    by (simp add: without_faults_def after_def db app flip: foldl_append map_append)
  ultimately show ?thesis by (simp add: todo ps_def)
qed

lemma todo_faults [simp]: "todo (s\<lparr>sm_faults := fs\<rparr>) ms = todo s ms"
  by (simp add: todo_def)

lemma after_faults [simp]:
  "without_faults (after run (s\<lparr>sm_faults := fs\<rparr>) ms) = without_faults (after run s ms)"
  by (simp add: after_def without_faults_def)

lemma failures_tl: "failures (s\<lparr>sm_faults := tl fs\<rparr>) \<le> length (filter (\<lambda>b. b) fs)"
  by (cases fs) (simp_all add: failures_def)

lemma Migrate_cases:
  assumes "loadMigrations files = Inr ms" and "distinct (map mg_version ms)" and "runs_ok run (sm_db s) (todo s ms)"
    and "Migrate run files s = (s', r)"
  shows "\<exists>k \<le> length (todo s ms). without_faults s' = without_faults (after run s (take k (todo s ms))) \<and>
    (r = Inr () \<and> k = length (todo s ms) \<or> (\<exists>e. r = Inl e) \<and> failures s' < failures s)"
proof -
  let ?t = "s\<lparr>sm_faults := tl (sm_faults s)\<rparr>"
  let ?u = "s\<lparr>sm_faults := tl (tl (sm_faults s))\<rparr>"
  have none: "without_faults (s\<lparr>sm_faults := fs\<rparr>) = without_faults (after run s (take 0 (todo s ms)))" for fs
    by (simp add: without_faults_def after_def)
  have less: "failures ?t < failures s" if "sm_faults s = True # fs" for fs using that by (simp add: failures_def)
  have less2: "failures ?u < failures s" if "tl (sm_faults s) = True # fs" for fs
    using that by (cases "sm_faults s") (simp_all add: failures_def)
  have le: "failures ?u \<le> failures s"
    by (cases "sm_faults s"; cases "tl (sm_faults s)") (simp_all add: failures_def)
  show ?thesis
  proof (cases "(\<exists>fs. sm_faults s = True # fs) \<or> (\<exists>fs. tl (sm_faults s) = True # fs)")
    case True
    then have "\<exists>e fs. s' = s\<lparr>sm_faults := fs\<rparr> \<and> r = Inl e \<and> failures s' < failures s"
      using assms(4) less less2
      by (auto simp: Migrate_def bind_act_def call_run assms(1) split: list.splits bool.splits)
    then show ?thesis using none by (intro exI [of _ 0]) auto
  next
    case False
    then have "Migrate run files s = apply_pending run (map fst (sm_applied s)) ms ?u"
      by (auto simp: Migrate_def bind_act_def call_run assms(1) split: list.splits bool.splits)
    with assms(4) have "apply_pending run (map fst (sm_applied s)) ms ?u = (s', r)" by simp
    from apply_pending_run [OF this _ assms(2)] assms(3) le show ?thesis by (auto simp: image_image)
  qed
qed

section \<open>Boots\<close>

text \<open>The server is started again after a failed migration, at most \<open>n\<close> times in all.\<close>

fun boots :: "(string \<Rightarrow> 'd \<Rightarrow> 'd option) \<Rightarrow> (string \<times> string) list \<Rightarrow> nat \<Rightarrow> 'd schema \<Rightarrow> 'd schema \<times> bool" where
  "boots run files 0 s = (s, False)"
| "boots run files (Suc n) s =
     (case Migrate run files s of (s', Inr _) \<Rightarrow> (s', True) | (s', Inl _) \<Rightarrow> boots run files n s')"

lemma boots_finish:
  assumes "loadMigrations files = Inr ms" and "distinct (map mg_version ms)"
  shows "runs_ok run (sm_db s) (todo s ms) \<Longrightarrow> failures s < n \<Longrightarrow>
    snd (boots run files n s) \<and> without_faults (fst (boots run files n s)) = without_faults (after run s (todo s ms))"
proof (induction n arbitrary: s)
  case (Suc n)
  obtain s' r where run: "Migrate run files s = (s', r)" by fastforce
  from Migrate_cases [OF assms Suc.prems(1) run] obtain k where k: "k \<le> length (todo s ms)"
    "without_faults s' = without_faults (after run s (take k (todo s ms)))"
    "r = Inr () \<and> k = length (todo s ms) \<or> (\<exists>e. r = Inl e) \<and> failures s' < failures s" by auto
  from k(3) show ?case
  proof (elim disjE conjE exE)
    fix e assume "r = Inl e" "failures s' < failures s"
    with todo_after [OF assms(2) k(2) Suc.prems(1)] Suc.IH [of s'] Suc.prems(2) run show ?thesis by auto
  qed (use run k(2) in simp)
qed simp

lemma loadMigrations_sorted: "loadMigrations files = Inr ms \<Longrightarrow> sorted (map mg_version ms)"
  by (auto simp: loadMigrations_def split: sum.splits)

lemma faultless_Migrate:
  assumes "sm_faults s = []"
  shows "sm_faults (fst (Migrate run files s)) = []"
proof -
  have one: "sm_faults (fst (apply_one run m t)) = []" if "sm_faults t = []" for m and t :: "'a schema"
    using that by (auto simp: apply_one_def exec_up_def insert_version_def bind_act_def call_def split: option.splits)
  have pend: "sm_faults (fst (apply_pending run vs ms t)) = []" if "sm_faults t = []" for vs ms and t :: "'a schema"
    using that
  proof (induction ms arbitrary: t)
    case (Cons m ms)
    obtain u q where run: "apply_one run m t = (u, q)" by fastforce
    with one [OF Cons.prems, of m] have "sm_faults u = []" by simp
    with Cons run show ?case by (cases q) (simp_all add: bind_act_def)
  qed simp
  show ?thesis using assms pend by (auto simp: Migrate_def bind_act_def call_def split: sum.splits)
qed

lemma faultless_ok:
  assumes "loadMigrations files = Inr ms" and "distinct (map mg_version ms)"
    and "runs_ok run (sm_db s) (todo s ms)"
  shows "Migrate run files (without_faults s) = (without_faults (after run s (todo s ms)), Inr ())"
proof -
  let ?s = "without_faults s"
  obtain s' r where run: "Migrate run files ?s = (s', r)" by fastforce
  have same: "todo ?s ms = todo s ms" "sm_db ?s = sm_db s" "failures ?s = 0"
    by (simp_all add: without_faults_def todo_def failures_def)
  from Migrate_cases [OF assms(1,2) _ run] assms(3) same
  have r: "r = Inr ()" and s': "without_faults s' = without_faults (after run ?s (todo s ms))" by auto
  have "sm_faults s' = []" using faultless_Migrate [of ?s run files] run by (simp add: without_faults_def)
  then have "s' = without_faults s'" by (simp add: without_faults_def)
  with s' r run show ?thesis by (simp add: without_faults_def after_def)
qed

text \<open>C15: However often the connection fails while the server migrates, each failed boot leaves the schema
  after a whole number of migrations, and one boot more than there are failures brings it to where
  a single undisturbed boot would have brought it: every pending migration applied once, by rising
  version, with its record. After that a boot changes nothing.\<close>

theorem migrations_converge:
  assumes "loadMigrations files = Inr ms" and "distinct (map mg_version ms)"
    and "runs_ok run (sm_db s) (todo s ms)" and "failures s < n"
  shows "snd (boots run files n s) \<and>
    without_faults (fst (boots run files n s)) = without_faults (after run s (todo s ms)) \<and>
    Migrate run files (without_faults s) = (without_faults (after run s (todo s ms)), Inr ()) \<and>
    sorted (map mg_version (todo s ms)) \<and>
    (\<exists>k \<le> length (todo s ms). without_faults (fst (Migrate run files s)) = without_faults (after run s (take k (todo s ms)))) \<and>
    Migrate run files (without_faults (after run s (todo s ms))) = (without_faults (after run s (todo s ms)), Inr ())"
proof (intro conjI)
  let ?f = "without_faults (after run s (todo s ms))"
  show "snd (boots run files n s)" "without_faults (fst (boots run files n s)) = ?f"
    using boots_finish [OF assms] by simp_all
  show once: "Migrate run files (without_faults s) = (?f, Inr ())" by (rule faultless_ok [OF assms(1-3)])
  show "sorted (map mg_version (todo s ms))"
    using loadMigrations_sorted [OF assms(1)] by (simp add: todo_def sorted_filter)
  show "\<exists>k \<le> length (todo s ms). without_faults (fst (Migrate run files s)) = without_faults (after run s (take k (todo s ms)))"
    using Migrate_cases [OF assms(1-3) prod.collapse [symmetric]] by blast
  have f: "without_faults ?f = without_faults (after run s (take (length (todo s ms)) (todo s ms)))"
    by (simp add: without_faults_def)
  have none: "todo ?f ms = []" using todo_after [OF assms(2) f assms(3)] by simp
  then have "runs_ok run (sm_db ?f) (todo ?f ms)" by simp
  from faultless_ok [OF assms(1,2) this] none show "Migrate run files ?f = (?f, Inr ())"
    by (simp add: without_faults_def after_def)
qed

definition sample_files :: "(string \<times> string) list" where
  "sample_files = [(''000001_tenants.down.sql'', ''a''), (''000001_tenants.up.sql'', ''b''), (''000002_catalog.up.sql'', ''c'')]"

lemma sample_files_load:
  "loadMigrations sample_files = Inr [\<lparr>mg_version = 1, mg_name = ''tenants'', mg_up = ''b''\<rparr>,
     \<lparr>mg_version = 2, mg_name = ''catalog'', mg_up = ''c''\<rparr>]"
  by (simp add: loadMigrations_def sample_files_def HasSuffix_def TrimSuffix_def Atoi_def is_digit_def code_def
      nat_of_digits_def digit_val_def int64_max_def int64_min_def)

theorem migrations_converge_witness:
  "sm_db (fst (boots (\<lambda>q d. Some (d @ [q])) sample_files 2 \<lparr>sm_db = [], sm_applied = [], sm_faults = [False, False, True]\<rparr>)) =
     [''b'', ''c'']"
proof -
  let ?s = "\<lparr>sm_db = [], sm_applied = [], sm_faults = [False, False, True]\<rparr> :: string list schema"
  let ?run = "\<lambda>q d. Some (d @ [q])"
  let ?b = "boots ?run sample_files 2 ?s"
  have "without_faults (fst ?b) = without_faults (after ?run ?s [\<lparr>mg_version = 1, mg_name = ''tenants'', mg_up = ''b''\<rparr>,
     \<lparr>mg_version = 2, mg_name = ''catalog'', mg_up = ''c''\<rparr>])"
    using migrations_converge [OF sample_files_load, of ?run ?s 2] by (simp add: todo_def failures_def)
  from arg_cong [OF this, of sm_db] show ?thesis by (simp add: without_faults_def after_def)
qed

end
