(* ===== verification/Server.thy ===== *)
theory Server
  imports ReadIsolation EnhFacts Copilot Assistant Config AccessLog Migrate
begin

text \<open>
  The wiring (\<open>api/internal/server/server.go\<close>), the middleware of \<open>httpx\<close> around every request and
  the commands \<open>server\<close> and \<open>migratecheck\<close>. Each package's table of routes is a datatype with one
  constructor per route, which carries the parameters of the path, the query and the decoded body,
  and a function that runs the handler the route is mounted with. \<open>serve\<close> is the whole tree of
  groups: the guard of the authenticated group, the role of the operator group, the rate limiter of
  the storefront. A request is one atomic step of \<open>step\<close>; steps of the clock, of the connection, of
  the access log and of the background sweep come in between in any order.
\<close>

record server_env = enh_env +
  e_letnum :: "nat \<Rightarrow> bool"
  e_rag :: rag
  e_fts :: fts
  e_minio :: "string \<Rightarrow> string \<Rightarrow> string \<Rightarrow> bool \<Rightarrow> go_err + minio"
  e_mkdir :: "string \<Rightarrow> bool"
  e_connect :: "string \<Rightarrow> bool"

section \<open>The object store\<close>

definition NewLocal :: "(string \<Rightarrow> bool) \<Rightarrow> string \<Rightarrow> string \<Rightarrow> string \<Rightarrow> local_storage option" where
  "NewLocal mkdir dir base key =
     (if mkdir dir then Some \<lparr>ls_root = dir, ls_base_url = base, ls_signer_key = key\<rparr> else None)"

text \<open>When the directory of the local store cannot be made, the source logs that and goes on with a
  nil pointer.\<close>

datatype backend = Remote storage | Local local_storage | NilStore

definition buildStorage :: "'z server_env_scheme \<Rightarrow> config \<Rightarrow> backend" where
  "buildStorage E cfg =
     (case (if cf_env cfg \<noteq> ''development'' \<or> cf_s3_endpoint cfg \<noteq> ''localhost:9000''
            then NewS3 (e_minio E) E (cf_s3_endpoint cfg) (cf_s3_access_key cfg) (cf_s3_secret_key cfg)
                   (cf_s3_bucket cfg) (cf_s3_use_ssl cfg)
            else Inl (ErrMsg ''local'')) of
        Inr s3 \<Rightarrow> Remote s3
      | Inl _ \<Rightarrow>
          (case NewLocal (e_mkdir E) (path_Join ''.data'' ''objects'') ''/api/files'' (cf_access_secret cfg) of
             Some ls \<Rightarrow> Local ls
           | None \<Rightarrow> NilStore))"

section \<open>The application\<close>

record app =
  ap_tokens :: token_manager
  ap_store :: storage
  ap_local :: "local_storage option"
  ap_emitter :: emitter
  ap_rag_base :: string
  ap_public_base :: string

text \<open>With a nil store every request that touches it panics; \<open>Mount\<close> gives None there.\<close>

definition publicBase :: "'z server_env_scheme \<Rightarrow> config \<Rightarrow> string" where
  "publicBase E cfg =
     (if e_getenv E ''API_PUBLIC_BASE_URL'' = '''' then ''http://localhost'' @ cf_http_addr cfg
      else e_getenv E ''API_PUBLIC_BASE_URL'')"

definition Mount :: "'z server_env_scheme \<Rightarrow> config \<Rightarrow> app option" where
  "Mount E cfg =
     (let a = (\<lambda>store ls.
        \<lparr>ap_tokens = NewTokenManager (cf_access_secret cfg) (cf_refresh_secret cfg) (cf_access_ttl cfg) (cf_refresh_ttl cfg),
         ap_store = store, ap_local = ls, ap_emitter = events_New (cf_events_sink cfg) (cf_airflow_url cfg),
         ap_rag_base = cf_rag_base cfg, ap_public_base = publicBase E cfg\<rparr>)
      in case buildStorage E cfg of
           Remote s3 \<Rightarrow> Some (a s3 None)
         | Local ls \<Rightarrow> Some (a (LocalStorage E ls) (Some ls))
         | NilStore \<Rightarrow> None)"

text \<open>Whichever back end is mounted is an object store, as the client of MinIO does not touch the tables.\<close>

definition minio_apart :: "'z server_env_scheme \<Rightarrow> bool" where
  "minio_apart E \<longleftrightarrow> (\<forall>ep ak sk ssl. case e_minio E ep ak sk ssl of Inl _ \<Rightarrow> True | Inr M \<Rightarrow> minio_reads M)"

lemma mounted_store:
  assumes "minio_apart E" and "Mount E cfg = Some a"
  shows "object_store (ap_store a)"
proof (cases "buildStorage E cfg")
  case (Remote s3)
  then have "NewS3 (e_minio E) E (cf_s3_endpoint cfg) (cf_s3_access_key cfg) (cf_s3_secret_key cfg)
      (cf_s3_bucket cfg) (cf_s3_use_ssl cfg) = Inr s3"
    by (auto simp: buildStorage_def split: if_splits sum.splits option.splits)
  then have "object_store s3"
    by (rule NewS3_object_store) (use assms(1) in \<open>force simp: minio_apart_def split: sum.splits\<close>)
  with assms(2) Remote show ?thesis by (auto simp: Mount_def Let_def)
next
  case (Local ls)
  with assms(2) show ?thesis by (auto simp: Mount_def Let_def local_store.object_store_axioms)
next
  case NilStore
  with assms(2) show ?thesis by (simp add: Mount_def)
qed

section \<open>Replies\<close>

datatype api_reply =
    R_auth auth_reply
  | R_catalog catalog_reply
  | R_orders order_reply
  | R_customers customer_reply
  | R_coupons coupon_reply
  | R_counts counts
  | R_store store_reply
  | R_enh enh_reply
  | R_interpret interpret_reply
  | R_assistant refusal
  | R_tenants int
  | R_health string

definition via :: "('a \<Rightarrow> api_reply) \<Rightarrow> 'a response go \<Rightarrow> api_reply response go" where
  "via f m = bind_act m (\<lambda>r. ret (map_response f r))"

section \<open>Routes of the packages\<close>

text \<open>\<open>auth\<close>: the public routes under \<open>/auth\<close>, and \<open>GET /me\<close>, \<open>PUT /me\<close>, \<open>POST /auth/change-password\<close>.\<close>

datatype auth_call =
    Register "register_input option"
  | Login "(string \<times> string \<times> string) option"
  | Refresh "string option"
  | Logout "string option"
  | Forgot "string option"
  | Reset "(string \<times> string) option"
  | Verify "string option"

fun auth_public :: "'z auth_env_scheme \<Rightarrow> token_manager \<Rightarrow> auth_call \<Rightarrow> auth_reply response go" where
  "auth_public E m (Register body) = h_register E body"
| "auth_public E m (Login body) = h_login E m body"
| "auth_public E m (Refresh body) = h_refresh E m body"
| "auth_public E m (Logout body) = h_logout E body"
| "auth_public E m (Forgot body) = h_forgot E body"
| "auth_public E m (Reset body) = h_reset E body"
| "auth_public E m (Verify body) = h_verify E body"

datatype account_call =
    GetMe
  | PutMe "(string \<times> string \<times> string) option"
  | PostPassword "(string \<times> string) option"

fun auth_authed :: "'z auth_env_scheme \<Rightarrow> identity option \<Rightarrow> account_call \<Rightarrow> auth_reply response go" where
  "auth_authed E ctx GetMe = h_me ctx"
| "auth_authed E ctx (PutMe body) = h_updateProfile ctx body"
| "auth_authed E ctx (PostPassword body) = h_changePassword E ctx body"

text \<open>\<open>catalog\<close>; the last two are the aliases \<open>/api/products\<close> and \<open>/api/category\<close>, which inside the
  group are \<open>/api/api/products\<close> and \<open>/api/api/category\<close>.\<close>

datatype catalog_call =
    GetCategories
  | PostCategory "(string \<times> string) option"
  | PutCategory string "(string \<times> string) option"
  | DelCategory string
  | GetProducts "string \<Rightarrow> string"
  | PostProduct "product_input option"
  | GetProductById string
  | PutProduct string "product_input option"
  | DelProduct string
  | PostImage string "upload option"
  | GetBySku string
  | GetLegacyProducts "string \<Rightarrow> string"
  | GetLegacyCategory

fun catalog_routes ::
  "'z env_scheme \<Rightarrow> storage \<Rightarrow> identity option \<Rightarrow> catalog_call \<Rightarrow> catalog_reply response go" where
  "catalog_routes E S ctx GetCategories = listCategories ctx"
| "catalog_routes E S ctx (PostCategory body) = createCategory E ctx body"
| "catalog_routes E S ctx (PutCategory i body) = updateCategory E ctx i body"
| "catalog_routes E S ctx (DelCategory i) = deleteCategory E ctx i"
| "catalog_routes E S ctx (GetProducts q) = listProducts E S ctx q"
| "catalog_routes E S ctx (PostProduct body) = createProduct E ctx body"
| "catalog_routes E S ctx (GetProductById i) = getProduct E S ctx i"
| "catalog_routes E S ctx (PutProduct i body) = updateProduct E ctx i body"
| "catalog_routes E S ctx (DelProduct i) = deleteProduct E ctx i"
| "catalog_routes E S ctx (PostImage i up) = uploadImage E S ctx i up"
| "catalog_routes E S ctx (GetBySku sku) = getProductBySKU E S ctx sku"
| "catalog_routes E S ctx (GetLegacyProducts q) = listProducts E S ctx q"
| "catalog_routes E S ctx GetLegacyCategory = legacyCategories ctx"

text \<open>\<open>orders\<close> for the seller.\<close>

datatype orders_call =
    GetOrders "string \<Rightarrow> string"
  | GetPending "string \<Rightarrow> string"
  | PostOrder "admin_input option"
  | GetOrder string
  | PutOrder string "admin_input option"
  | PatchStatus string "string option"
  | DelOrder string
  | GetInvoicePdf string
  | PatchPayment string "bool option"

fun orders_routes ::
  "'z app_env_scheme \<Rightarrow> storage \<Rightarrow> identity option \<Rightarrow> orders_call \<Rightarrow> order_reply response go" where
  "orders_routes E S ctx (GetOrders q) = order_list E ctx q"
| "orders_routes E S ctx (GetPending q) = listPending E ctx q"
| "orders_routes E S ctx (PostOrder body) = order_create E S ctx body"
| "orders_routes E S ctx (GetOrder i) = order_get E S ctx i"
| "orders_routes E S ctx (PutOrder i body) = order_update E ctx i body"
| "orders_routes E S ctx (PatchStatus i body) = setStatus E ctx i body"
| "orders_routes E S ctx (DelOrder i) = order_delete E ctx i"
| "orders_routes E S ctx (GetInvoicePdf i) = invoicePDF E S ctx i"
| "orders_routes E S ctx (PatchPayment i body) = verifyPayment E ctx i body"

text \<open>\<open>customers\<close> and \<open>coupons\<close>.\<close>

datatype customers_call =
    GetCustomers "string \<Rightarrow> string"
  | PostCustomer "customer_input option"
  | GetCustomer string
  | PutCustomer string "customer_input option"
  | DelCustomer string
  | GetByLoyaltyCode string

fun customers_routes :: "'z env_scheme \<Rightarrow> identity option \<Rightarrow> customers_call \<Rightarrow> customer_reply response go" where
  "customers_routes E ctx (GetCustomers q) = customer_list E ctx q"
| "customers_routes E ctx (PostCustomer body) = customer_create E ctx body"
| "customers_routes E ctx (GetCustomer i) = customer_get E ctx i"
| "customers_routes E ctx (PutCustomer i body) = customer_update E ctx i body"
| "customers_routes E ctx (DelCustomer i) = customer_delete E ctx i"
| "customers_routes E ctx (GetByLoyaltyCode c) = byLoyalty ctx c"

datatype coupons_call =
    GetCoupons "string \<Rightarrow> string"
  | PostCoupon "coupon_input option"
  | GetCoupon string
  | PutCoupon string "coupon_input option"
  | DelCoupon string

fun coupons_routes :: "'z env_scheme \<Rightarrow> identity option \<Rightarrow> coupons_call \<Rightarrow> coupon_reply response go" where
  "coupons_routes E ctx (GetCoupons q) = coupon_list E ctx q"
| "coupons_routes E ctx (PostCoupon body) = coupon_create E ctx body"
| "coupons_routes E ctx (GetCoupon i) = coupon_get E ctx i"
| "coupons_routes E ctx (PutCoupon i body) = coupon_update E ctx i body"
| "coupons_routes E ctx (DelCoupon i) = coupon_delete E ctx i"

text \<open>\<open>enhancements\<close>: the routes of the seller except \<open>POST /copilot/interpret\<close>, and the two public ones.\<close>

datatype enh_call =
    PostExecute "proposed_action option"
  | PostContent "(string \<times> string list \<times> string) option"
  | GetInsights
  | GetRecommendations "string \<Rightarrow> string"
  | PostCharge string "string \<Rightarrow> string"
  | GetCurrencies
  | GetCandidates "string \<Rightarrow> string"
  | PostTrack "string option"
  | PostSend "notification option"

fun enh_authed ::
  "'z enh_env_scheme \<Rightarrow> storage \<Rightarrow> string \<Rightarrow> identity option \<Rightarrow> enh_call \<Rightarrow> enh_reply response go" where
  "enh_authed E S base ctx (PostExecute body) = copilotExecute E S ctx body"
| "enh_authed E S base ctx (PostContent body) = generateContent body"
| "enh_authed E S base ctx GetInsights = analyticsInsights E ctx"
| "enh_authed E S base ctx (GetRecommendations q) = recommendations E ctx q"
| "enh_authed E S base ctx (PostCharge i q) = charge E S base ctx i q"
| "enh_authed E S base ctx GetCurrencies = currencies"
| "enh_authed E S base ctx (GetCandidates q) = chaseCandidates E ctx q"
| "enh_authed E S base ctx (PostTrack body) = track body"
| "enh_authed E S base ctx (PostSend body) = sendNotification E body"

datatype enh_public_call =
    PostWebhook string "webhook_input option"
  | GetMockPage string "string \<Rightarrow> string"

fun enh_public :: "'z enh_env_scheme \<Rightarrow> enh_public_call \<Rightarrow> enh_reply response go" where
  "enh_public E (PostWebhook signature body) = paymentWebhook E signature body"
| "enh_public E (GetMockPage ref q) = mockHostedPage ref q"

text \<open>\<open>storefront\<close>, and the public invoice and payment proof, which \<open>Mount\<close> adds to its group.\<close>

datatype store_call =
    GetLanding string
  | GetSearch string "string \<Rightarrow> string"
  | GetDetail string string
  | PostCheckout string "admin_input option"
  | GetSkuAlias string "string \<Rightarrow> string"

fun store_routes ::
  "'z env_scheme \<Rightarrow> fts \<Rightarrow> storage \<Rightarrow> store_call \<Rightarrow> store_reply response go" where
  "store_routes E F S (GetLanding u) = landing E S u"
| "store_routes E F S (GetSearch u q) = store_search E F S u q"
| "store_routes E F S (GetDetail u i) = productDetail E S u i"
| "store_routes E F S (PostCheckout u body) = checkout E S u body"
| "store_routes E F S (GetSkuAlias u q) = productBySKU E S u q"

section \<open>The tree of groups\<close>

text \<open>Everything behind the bearer token.\<close>

datatype authed_call =
    Account account_call
  | Catalog_call catalog_call
  | Orders_call orders_call
  | Customers_call customers_call
  | Coupons_call coupons_call
  | Get_counts
  | Assistant_search "string option"
  | Interpret "string option"
  | Enh_call enh_call

fun authed_routes ::
  "'z server_env_scheme \<Rightarrow> app \<Rightarrow> string option \<Rightarrow> authed_call \<Rightarrow> identity option \<Rightarrow> api_reply response go" where
  "authed_routes E a rid (Account c) ctx = via R_auth (auth_authed E ctx c)"
| "authed_routes E a rid (Catalog_call c) ctx = via R_catalog (catalog_routes E (ap_store a) ctx c)"
| "authed_routes E a rid (Orders_call c) ctx = via R_orders (orders_routes E (ap_store a) ctx c)"
| "authed_routes E a rid (Customers_call c) ctx = via R_customers (customers_routes E ctx c)"
| "authed_routes E a rid (Coupons_call c) ctx = via R_coupons (coupons_routes E ctx c)"
| "authed_routes E a rid Get_counts ctx = via R_counts (dashboard_counts ctx)"
| "authed_routes E a rid (Assistant_search body) ctx =
     via R_assistant (adminSearch E (e_rag E) (ap_rag_base a) rid ctx body)"
| "authed_routes E a rid (Interpret body) ctx = via R_interpret (copilotInterpret (e_letnum E) (e_to_lower E) ctx body)"
| "authed_routes E a rid (Enh_call c) ctx = via R_enh (enh_authed E (ap_store a) (ap_public_base a) ctx c)"

text \<open>The operator's count of tenants; an error of the query is ignored and leaves 0.\<close>

definition tenants_count :: "identity option \<Rightarrow> api_reply response go" where
  "tenants_count ctx =
     bind_act (attempt (sel (\<lambda>d. int (length (tenants d))))) (\<lambda>r.
     ret (JSON 200 (R_tenants (case r of Inl _ \<Rightarrow> 0 | Inr n \<Rightarrow> n))))"

text \<open>The group of the storefront.\<close>

datatype limited_call =
    Store_call store_call
  | Ask string "string option"
  | Invoice_page string "string \<Rightarrow> string"
  | Payment_upload string "upload option"

fun limited_routes ::
  "'z server_env_scheme \<Rightarrow> app \<Rightarrow> string option \<Rightarrow> limited_call \<Rightarrow> api_reply response go" where
  "limited_routes E a rid (Store_call c) = via R_store (store_routes E (e_fts E) (ap_store a) c)"
| "limited_routes E a rid (Ask u body) =
     via R_assistant (storefrontAsk E (e_rag E) (ap_rag_base a) rid u body)"
| "limited_routes E a rid (Invoice_page i q) = via R_orders (PublicInvoice E (ap_store a) i q)"
| "limited_routes E a rid (Payment_upload i up) = via R_orders (PublicUploadPayment E (ap_store a) i up)"

text \<open>The limiter counts requests per address, in the library; its verdict comes with the request.\<close>

definition RateLimiter :: "bool \<Rightarrow> 'r go \<Rightarrow> 'r go" where
  "RateLimiter allowed next_handler =
     (if allowed then next_handler else raise (ErrHttp 429 (Some ''rate limit exceeded'')))"

datatype request =
    Public auth_call
  | Authed string authed_call
  | Operator string
  | Limited bool limited_call
  | Enh_public enh_public_call
  | File string "string \<Rightarrow> string"
  | Healthz
  | Readyz

definition serve_file :: "'z app_env_scheme \<Rightarrow> app \<Rightarrow> string \<Rightarrow> (string \<Rightarrow> string) \<Rightarrow> api_reply response go" where
  "serve_file E a key q =
     (case ap_local a of
        None \<Rightarrow> raise (ErrHttp 404 (Some ''Not Found''))
      | Some ls \<Rightarrow> bind_act (localFileHandler E ls key q) (\<lambda>(content, ct). ret (Blob 200 ct content)))"

definition readyz :: "api_reply response go" where
  "readyz = bind_act (or_else (sel (\<lambda>_. ())) (Internal ''database not ready'')) (\<lambda>_. ret (JSON 200 (R_health ''ready'')))"

fun serve :: "'z server_env_scheme \<Rightarrow> app \<Rightarrow> string option \<Rightarrow> request \<Rightarrow> api_reply response go" where
  "serve E a rid (Public c) = via R_auth (auth_public E (ap_tokens a) c)"
| "serve E a rid (Authed authz c) = Authenticated E (ap_tokens a) authz (authed_routes E a rid c)"
| "serve E a rid (Operator authz) =
     Authenticated E (ap_tokens a) authz (\<lambda>ctx. RequireRole ''operator'' ctx tenants_count)"
| "serve E a rid (Limited allowed c) = RateLimiter allowed (limited_routes E a rid c)"
| "serve E a rid (Enh_public c) = via R_enh (enh_public E c)"
| "serve E a rid (File key q) = serve_file E a key q"
| "serve E a rid Healthz = ret (JSON 200 (R_health ''ok''))"
| "serve E a rid Readyz = readyz"

text \<open>\<open>httpx.RequestContext\<close>: the request id is that of the header, or a fresh one.\<close>

definition RequestContext :: "'z env_scheme \<Rightarrow> string \<Rightarrow> (string \<Rightarrow> 'r go) \<Rightarrow> (string \<times> 'r) go" where
  "RequestContext E header next_handler =
     bind_act (if header = '''' then uuid_string E else ret header) (\<lambda>rid.
     bind_act (next_handler rid) (\<lambda>r. ret (rid, r)))"

text \<open>\<open>httpx.AccessLog\<close> hands an error to the error handler, so that the status it counts is the one
  that was sent.\<close>

datatype http_answer = Reply "api_reply response" | Failed int error_body

definition http_response :: "go_err + api_reply response \<Rightarrow> http_answer" where
  "http_response r =
     (case r of
        Inr x \<Rightarrow> Reply x
      | Inl e \<Rightarrow> (case ErrorHandler e False of Some (s, b) \<Rightarrow> Failed s b | None \<Rightarrow> Reply (NoContent 200)))"

fun answer_status :: "http_answer \<Rightarrow> int" where
  "answer_status (Reply x) = resp_status x"
| "answer_status (Failed s b) = s"

text \<open>The labels of the counter of requests: method, route and class of the status.\<close>

definition metric_labels :: "string \<Rightarrow> string \<Rightarrow> go_err + api_reply response \<Rightarrow> string \<times> string \<times> string" where
  "metric_labels meth path r =
     (meth, if path = '''' then ''unmatched'' else path, statusClass (answer_status (http_response r)))"

text \<open>The counters behind the metrics page: requests by their labels, and how many durations were observed
  by method and route. The durations themselves are left out.\<close>

record metrics =
  mt_requests :: "string \<times> string \<times> string \<Rightarrow> nat"
  mt_durations :: "string \<times> string \<Rightarrow> nat"

definition no_metrics :: metrics where
  "no_metrics = \<lparr>mt_requests = (\<lambda>_. 0), mt_durations = (\<lambda>_. 0)\<rparr>"

definition observe :: "string \<Rightarrow> string \<Rightarrow> go_err + api_reply response \<Rightarrow> metrics \<Rightarrow> metrics" where
  "observe meth path r m =
     (let l = metric_labels meth path r; d = (fst l, fst (snd l))
      in m\<lparr>mt_requests := (mt_requests m)(l := mt_requests m l + 1),
           mt_durations := (mt_durations m)(d := mt_durations m d + 1)\<rparr>)"

text \<open>Whatever was answered, every request is counted under one of the four classes.\<close>

lemma classes: "statusClass s \<in> {''2xx'', ''3xx'', ''4xx'', ''5xx''}"
  by (simp add: statusClass_def)

lemma count_class:
  assumes "finite C" and "k \<in> C"
  shows "(\<Sum>c\<in>C. (f((m', p', k) := f (m', p', k) + 1)) (m, p, c)) =
    (\<Sum>c\<in>C. f (m, p, c)) + (if m = m' \<and> p = p' then 1 else 0 :: nat)"
proof -
  have "(f((m', p', k) := f (m', p', k) + 1)) (m, p, c) = f (m, p, c) + (if c = k then if m = m' \<and> p = p' then 1 else 0 else 0)"
    for c by auto
  then show ?thesis using assms by (simp add: sum.distrib)
qed

definition balanced :: "metrics \<Rightarrow> bool" where
  "balanced m \<longleftrightarrow> (\<forall>meth route. mt_durations m (meth, route) =
     (\<Sum>c\<in>{''2xx'', ''3xx'', ''4xx'', ''5xx''}. mt_requests m (meth, route, c)))"

lemma observe_balanced:
  assumes "balanced m"
  shows "balanced (observe meth path r m)"
proof -
  obtain route where l: "metric_labels meth path r = (meth, route, statusClass (answer_status (http_response r)))"
    by (simp add: metric_labels_def)
  have "finite {''2xx'', ''3xx'', ''4xx'', ''5xx''}" by simp
  note count_class [OF this classes [of "answer_status (http_response r)"], of "mt_requests m" meth route]
  with assms show ?thesis
    unfolding balanced_def observe_def l Let_def by (simp del: sum.insert fun_upd_apply add: fun_upd_def)
qed

lemma metrics_balanced: "balanced (fold (\<lambda>(meth, path, r). observe meth path r) rs no_metrics)"
proof (induction rs rule: rev_induct)
  case Nil
  then show ?case by (simp add: balanced_def no_metrics_def)
next
  case (snoc x rs)
  then show ?case by (cases x) (simp add: observe_balanced)
qed

text \<open>The groups that write the access log of the shop; the entry has no tenant, because their
  requests carry no identity.\<close>

fun visits_logged :: "request \<Rightarrow> bool" where
  "visits_logged (Public c) = True"
| "visits_logged (Limited b c) = True"
| "visits_logged (Enh_public c) = True"
| "visits_logged r = False"

section \<open>The background loop\<close>

datatype background = Off | Every int | Panics

definition StartBackground :: "'z enh_env_scheme \<Rightarrow> background" where
  "StartBackground E =
     (if \<not> Enabled (e_getenv E) FlagFulfillment then Off
      else
        (let v = e_getenv E ''MH_EH2_CHASE_INTERVAL'';
             interval = (if v \<noteq> '''' then (case ParseDuration v of Some d \<Rightarrow> d | None \<Rightarrow> Hour) else Hour)
         in if interval \<le> 0 then Panics else Every interval))"

section \<open>The commands\<close>

text \<open>\<open>cmd/server\<close> until it listens, and \<open>cmd/migratecheck\<close>: the exit code.\<close>

definition connect :: "'z server_env_scheme \<Rightarrow> string \<Rightarrow> ('d, unit) mig" where
  "connect E url = check (e_connect E url) (ErrMsg ''connect db'')"

definition boot ::
  "'z server_env_scheme \<Rightarrow> environment \<Rightarrow> (string \<Rightarrow> 'd \<Rightarrow> 'd option) \<Rightarrow> (string \<times> string) list \<Rightarrow> ('d, app option) mig" where
  "boot E ev run files =
     bind_act (lift (Load ev)) (\<lambda>cfg.
     bind_act (connect E (cf_database_url cfg)) (\<lambda>_.
     bind_act (Migrate run files) (\<lambda>_. ret (Mount E cfg))))"

definition migratecheck ::
  "'z server_env_scheme \<Rightarrow> environment \<Rightarrow> (string \<Rightarrow> 'd \<Rightarrow> 'd option) \<Rightarrow> (string \<times> string) list \<Rightarrow> 'd schema \<Rightarrow> 'd schema \<times> int" where
  "migratecheck E ev run files s =
     (case bind_act (lift (Load ev)) (\<lambda>cfg.
           bind_act (connect E (cf_database_url cfg)) (\<lambda>_. Migrate run files)) s of
        (s', Inl _) \<Rightarrow> (s', 1)
      | (s', Inr ()) \<Rightarrow> (s', 0))"

text \<open>\<open>cmd/server\<close>: an error of the settings panics; the listener ends with an error, or by a signal.\<close>

definition server_main ::
  "'z server_env_scheme \<Rightarrow> environment \<Rightarrow> (string \<Rightarrow> 'd \<Rightarrow> 'd option) \<Rightarrow> (string \<times> string) list \<Rightarrow> (string \<Rightarrow> bool) \<Rightarrow>
     'd schema \<Rightarrow> 'd schema \<times> int" where
  "server_main E ev run files listens s =
     (case boot E ev run files s of
        (s', Inl _) \<Rightarrow> (s', if isl (Load ev) then 2 else 1)
      | (s', Inr _) \<Rightarrow>
          (s', case Load ev of Inl _ \<Rightarrow> 2 | Inr cfg \<Rightarrow> if listens (cf_http_addr cfg) then 0 else 1))"

text \<open>A server whose listener works ends well exactly when the migration check would, with the same tables.\<close>

lemma server_main_migratecheck:
  "fst (server_main E ev run files listens s) = fst (migratecheck E ev run files s)"
  "snd (server_main E ev run files (\<lambda>_. True) s) = 0 \<longleftrightarrow> snd (migratecheck E ev run files s) = 0"
proof -
  define steps where "steps = (\<lambda>cfg :: config. bind_act (connect E (cf_database_url cfg)) (\<lambda>_. Migrate run files) s)"
  have split: "boot E ev run files s = (case Load ev of Inl e \<Rightarrow> (s, Inl e)
      | Inr cfg \<Rightarrow> (fst (steps cfg), case snd (steps cfg) of Inl e \<Rightarrow> Inl e | Inr _ \<Rightarrow> Inr (Mount E cfg)))"
    "migratecheck E ev run files s = (case Load ev of Inl e \<Rightarrow> (s, 1)
      | Inr cfg \<Rightarrow> (fst (steps cfg), case snd (steps cfg) of Inl e \<Rightarrow> 1 | Inr _ \<Rightarrow> 0))"
    by (simp_all add: boot_def migratecheck_def steps_def bind_act_def lift_def case_unit_Unity
        split: prod.splits sum.splits unit.splits)
  show "fst (server_main E ev run files listens s) = fst (migratecheck E ev run files s)"
    "snd (server_main E ev run files (\<lambda>_. True) s) = 0 \<longleftrightarrow> snd (migratecheck E ev run files s) = 0"
    by (simp_all add: server_main_def split split: sum.splits)
qed

section \<open>Isolation of tenants\<close>

lemma via_run: "via f m w = (case m w of (w', Inl e) \<Rightarrow> (w', Inl e) | (w', Inr x) \<Rightarrow> (w', Inr (map_response f x)))"
  by (simp add: via_def bind_act_def split: prod.splits sum.splits)

lemma fst_via [simp]: "fst (via f m w) = fst (m w)"
  by (simp add: via_run split: prod.splits sum.splits)

lemma keeps_via: "keeps R m \<Longrightarrow> keeps R (via f m)"
  by (simp add: keeps_def)

text \<open>The deletes whose foreign keys set the references in other rows to null.\<close>

fun clears_refs :: "authed_call \<Rightarrow> bool" where
  "clears_refs (Catalog_call (DelCategory i)) = True"
| "clears_refs (Catalog_call (DelProduct i)) = True"
| "clears_refs (Customers_call (DelCustomer i)) = True"
| "clears_refs c = False"

definition own_refs :: "uuid \<Rightarrow> db \<Rightarrow> bool" where
  "own_refs t d \<longleftrightarrow> own_category_refs t d \<and> own_product_refs t d \<and> own_customer_refs t d"

lemma iso_account_routes: "keeps (isolates (tid ctx)) (auth_authed E ctx c)"
  by (cases c) (simp_all add: iso_account_handlers)

lemma scoped_customers_routes:
  "\<not> clears_refs (Customers_call c) \<Longrightarrow> keeps (scoped (tid ctx)) (customers_routes E ctx c)"
  by (cases c) (simp_all add: scoped_customer_handlers)

lemma scoped_coupons_routes: "keeps (scoped (tid ctx)) (coupons_routes E ctx c)"
  by (cases c) (simp_all add: scoped_coupon_handlers)

context object_store
begin

lemma scoped_catalog_routes:
  "\<not> clears_refs (Catalog_call c) \<Longrightarrow> keeps (scoped (tid ctx)) (catalog_routes E S ctx c)"
  by (cases c) (simp_all add: scoped_catalog_handlers scoped_catalog_handlers_plain)

lemma scoped_orders_routes: "keeps (scoped (tid ctx)) (orders_routes E S ctx c)"
  by (cases c) (simp_all add: scoped_order_handlers scoped_order_store_handlers)

lemma scoped_enh_routes: "keeps (scoped (tid ctx)) (enh_authed E S base ctx c)"
  by (cases c) (simp_all add: scoped_copilotExecute scoped_charge reads_module_pages [THEN scoped_reads])

end

text \<open>A delete with references of the tenant's own rows only.\<close>

lemma customer_Delete_scoped:
  assumes "own_customer_refs t (w_db w)"
  shows "scoped t w (fst (map_err g (customer_Delete t i) w))"
proof -
  have "view (\<lambda>u. u \<noteq> t) (drop_customers (own_customer t i) (w_db w)) = view (\<lambda>u. u \<noteq> t) (w_db w)"
    by (rule view_drop_customers) (use assms in \<open>auto simp: own_customer_def\<close>)
  then show ?thesis
    unfolding customer_Delete_def
    by (intro scoped_at_affecting) (auto simp: scoped_def drop_customers_def Let_def intro!: on_db_sql
        elim!: scoped_commit [rotated 3])
qed

lemma after_parseID:
  assumes "\<And>i. scoped t w (fst (f i w))"
  shows "scoped t w (fst (bind_act (parseID E p) (\<lambda>i. bind_act (f i) (\<lambda>_. ret x)) w))"
proof (cases "e_uuid_parse E p")
  case None
  then show ?thesis by (simp add: parseID_def bind_act_def sc.stay)
next
  case (Some i)
  then show ?thesis using assms [of i]
    by (cases "f i w"; cases "snd (f i w)") (simp_all add: parseID_def bind_act_def)
qed

lemma delete_routes_scoped:
  assumes "own_refs (tid ctx) (w_db w)"
  shows "scoped (tid ctx) w (fst (deleteCategory E ctx p w))" "scoped (tid ctx) w (fst (deleteProduct E ctx p w))"
    "scoped (tid ctx) w (fst (customer_delete E ctx p w))"
proof -
  have own: "own_category_refs (tid ctx) (w_db w)" "own_product_refs (tid ctx) (w_db w)"
    "own_customer_refs (tid ctx) (w_db w)" using assms by (simp_all add: own_refs_def)
  show "scoped (tid ctx) w (fst (deleteCategory E ctx p w))"
    unfolding deleteCategory_def by (rule after_parseID) (rule DeleteCategory_scoped [OF own(1)])
  show "scoped (tid ctx) w (fst (deleteProduct E ctx p w))"
    unfolding deleteProduct_def by (rule after_parseID) (rule DeleteProduct_scoped [OF own(2)])
  show "scoped (tid ctx) w (fst (customer_delete E ctx p w))"
    unfolding customer_delete_def by (rule after_parseID) (rule customer_Delete_scoped [OF own(3)])
qed

lemma authed_isolates:
  assumes "object_store (ap_store a)" and "clears_refs c \<Longrightarrow> own_refs (tid ctx) (w_db w)"
  shows "isolates (tid ctx) w (fst (authed_routes E a rid c ctx w))"
proof (cases "clears_refs c")
  case True
  then show ?thesis
    by (cases c rule: clears_refs.cases)
      (simp_all add: delete_routes_scoped [OF assms(2) [OF True], unfolded scoped_iff])
next
  case False
  have "keeps (isolates (tid ctx)) (authed_routes E a rid c ctx)"
  proof (cases c)
    case (Account x)
    then show ?thesis by (simp add: keeps_via iso_account_routes)
  next
    case (Catalog_call x)
    with False show ?thesis
      by (simp add: keeps_via scoped_iso object_store.scoped_catalog_routes [OF assms(1)])
  next
    case (Orders_call x)
    then show ?thesis by (simp add: keeps_via scoped_iso object_store.scoped_orders_routes [OF assms(1)])
  next
    case (Customers_call x)
    with False show ?thesis by (simp add: keeps_via scoped_iso scoped_customers_routes)
  next
    case (Coupons_call x)
    then show ?thesis by (simp add: keeps_via scoped_iso scoped_coupons_routes)
  next
    case (Enh_call x)
    then show ?thesis by (simp add: keeps_via scoped_iso object_store.scoped_enh_routes [OF assms(1)])
  next
    case (Interpret x)
    then show ?thesis
      by (simp add: keeps_via keeps_def copilotInterpret_def Bind_def bind_act_def Let_def iso.stay split: option.splits)
  qed (simp_all add: keeps_via iso_reads reads_dashboard reads_assistant)
  then show ?thesis by (simp add: keeps_def)
qed

end
