(* ===== verification/Service.thy ===== *)
theory Service
  imports Server
begin

text \<open>
  What the composed server promises: a request behind the bearer token touches the rows of the
  token's tenant only (\<open>tenant_isolation\<close>), with the exception of deletes that clear the
  references of other tenants (\<open>category_delete_crosses_tenants\<close>). Runs of many requests are in theory Runs.
\<close>

section \<open>Who calls\<close>

definition caller :: "'z auth_env_scheme \<Rightarrow> token_manager \<Rightarrow> string \<Rightarrow> time \<Rightarrow> identity option" where
  "caller E m authz n =
     (if \<not> HasPrefix authz ''Bearer '' then None
      else (case e_jwt_parse E (keyfunc m) n (TrimPrefix authz ''Bearer '') of
              None \<Rightarrow> None
            | Some c \<Rightarrow>
                (case e_uuid_parse E (cl_tenant c) of
                   None \<Rightarrow> None
                 | Some t \<Rightarrow> Some \<lparr>idn_tenant = t, idn_role = cl_role c, idn_username = cl_username c\<rparr>)))"

lemma Authenticated_caller:
  assumes "caller E m authz (w_now w) = Some i"
  shows "Authenticated E m authz next_handler w = next_handler (Some i) w"
  using assms
  by (auto simp: caller_def Authenticated_def bind_act_def or_else_def map_err_def ParseAccess_run
      split: if_splits option.splits)

lemma Authenticated_refuses:
  assumes "caller E m authz (w_now w) = None"
  shows "\<exists>msg. Authenticated E m authz next_handler w = (w, Inl (Unauthorized msg))"
  using assms
  by (auto simp: caller_def Authenticated_def bind_act_def or_else_def map_err_def ParseAccess_run raise_def
      split: if_splits option.splits)

lemma tid_identity [simp]: "tid (Some i) = idn_tenant i"
  by (auto simp: tid_def identity_of_def From_def no_identity_def)

text \<open>C1: A request behind the bearer token changes only rows of the tenant that the token names, and
  keeps every constraint of the tables, whatever the handler does and wherever its statements
  fail; without a valid token it changes nothing and answers 401. The exception is a delete whose
  foreign keys clear references: for a category, a product and a customer the other tenants' rows are
  untouched while none of them refers to a row of this tenant, and can change otherwise
  (category_delete_crosses_tenants).\<close>

theorem tenant_isolation:
  assumes "minio_apart E" and "Mount E cfg = Some a" and "db_ok (w_db w)"
    and "\<And>i. caller E (ap_tokens a) authz (w_now w) = Some i \<Longrightarrow> clears_refs c \<Longrightarrow> own_refs (idn_tenant i) (w_db w)"
    and "serve E a rid (Authed authz c) w = (w', r)"
  shows "case caller E (ap_tokens a) authz (w_now w) of
      None \<Rightarrow> w' = w \<and> (\<exists>msg. r = Inl (Unauthorized msg))
    | Some i \<Rightarrow> db_ok (w_db w') \<and> view (\<lambda>u. u \<noteq> idn_tenant i) (w_db w') = view (\<lambda>u. u \<noteq> idn_tenant i) (w_db w)"
proof (cases "caller E (ap_tokens a) authz (w_now w)")
  case None
  then show ?thesis
    using Authenticated_refuses [OF None, of "authed_routes E a rid c"] assms(5) by auto
next
  case (Some i)
  have "isolates (tid (Some i)) w (fst (authed_routes E a rid c (Some i) w))"
    by (rule authed_isolates [OF mounted_store [OF assms(1,2)]]) (use assms(4) [OF Some] in simp)
  moreover have "authed_routes E a rid c (Some i) w = (w', r)"
    using assms(5) Authenticated_caller [OF Some, of "authed_routes E a rid c"] by simp
  ultimately show ?thesis using assms(3) by (simp add: Some isolates_iff)
qed

section \<open>A concrete server\<close>

definition sample_server :: server_env where
  "sample_server = enh_env.extend sample_enh
     (server_env.fields word_rune (\<lambda>_ _ _. Unreachable) \<lparr>fts_match = (\<lambda>_ _. False), fts_rank = (\<lambda>_ _. 0)\<rparr>
        (\<lambda>_ _ _ _. Inl (ErrMsg ''unreachable'')) (\<lambda>_. True) (\<lambda>_. True))"

definition sample_config :: config where
  "sample_config =
     \<lparr>cf_env = ''development'', cf_http_addr = '':8080'', cf_log_level = ''info'', cf_database_url = '''',
      cf_access_secret = ''key'', cf_refresh_secret = ''refresh'', cf_access_ttl = 900 * Second,
      cf_refresh_ttl = 168 * Hour, cf_s3_endpoint = ''localhost:9000'', cf_s3_access_key = '''', cf_s3_secret_key = '''',
      cf_s3_bucket = '''', cf_s3_use_ssl = False, cf_s3_public_base = '''', cf_rag_base = '''', cf_events_sink = ''log'',
      cf_airflow_url = '''', cf_smtp_sink = ''log'', cf_smtp_from = ''''\<rparr>"

definition sample_running :: app where
  "sample_running = the (Mount sample_server sample_config)"

lemma sample_server_simps [simp]:
  "e_uuid_parse sample_server = e_uuid_parse (sample_env sample_claims)"
  "e_uuid_str sample_server = e_uuid_str (sample_env sample_claims)"
  "e_jwt_parse sample_server = e_jwt_parse (sample_env sample_claims)"
  "e_getenv sample_server s = ''''" "e_mkdir sample_server s"
  by (simp_all add: sample_server_def sample_enh_def sample_app_def auth_env.defs app_env.defs enh_env.defs server_env.defs)

lemma sample_mount:
  "Mount sample_server sample_config = Some sample_running" "ap_tokens sample_running = NewTokenManager ''key'' ''refresh'' (900 * Second) (168 * Hour)"
  "ap_store sample_running = LocalStorage sample_server (the (ap_local sample_running))"
  by (simp_all add: sample_running_def Mount_def Let_def buildStorage_def NewLocal_def sample_config_def)

lemma sample_apart: "minio_apart sample_server"
  by (simp add: minio_apart_def sample_server_def enh_env.defs server_env.defs)

lemma sample_caller:
  "caller sample_server (ap_tokens sample_running) ''Bearer key'' 0 =
     Some \<lparr>idn_tenant = 7, idn_role = ''seller'', idn_username = ''ali''\<rparr>"
proof -
  have "HasPrefix ''Bearer key'' ''Bearer ''" "TrimPrefix ''Bearer key'' ''Bearer '' = ''key''"
    by (simp_all add: HasPrefix_def TrimPrefix_def)
  then show ?thesis
    by (simp add: caller_def sample_mount sample_env_def keyfunc_def NewTokenManager_def sample_claims_def Second_def
        nat_of_digits_def is_digit_def digit_val_def code_def)
qed

lemma sample_foreign_ok: "db_ok sample_foreign"
  by (simp add: db_ok_defs sample_foreign_def sample_product_def sample_db_def empty_db_def sample_tenant_def)

theorem tenant_isolation_witness:
  "view (\<lambda>u. u \<noteq> 7) (w_db (fst (serve sample_server sample_running None
      (Authed ''Bearer key'' (Catalog_call (DelProduct ''1''))) (sample_world sample_foreign)))) =
   view (\<lambda>u. u \<noteq> 7) sample_foreign"
proof -
  have caller: "caller sample_server (ap_tokens sample_running) ''Bearer key'' (w_now (sample_world sample_foreign)) =
      Some \<lparr>idn_tenant = 7, idn_role = ''seller'', idn_username = ''ali''\<rparr>"
    using sample_caller by (simp add: sample_world_def)
  have refs: "own_refs 7 sample_foreign"
    by (simp add: own_refs_def own_category_refs_def own_product_refs_def own_customer_refs_def sample_foreign_def
        sample_db_def empty_db_def)
  obtain w' r where run: "serve sample_server sample_running None (Authed ''Bearer key'' (Catalog_call (DelProduct ''1'')))
      (sample_world sample_foreign) = (w', r)" by fastforce
  from tenant_isolation [OF sample_apart sample_mount(1) _ _ run] sample_foreign_ok refs caller run show ?thesis by simp
qed

section \<open>A delete that crosses tenants\<close>

lemma map_clear_category [simp]:
  "map pr_id (clear_category ks ps) = map pr_id ps" "map (\<lambda>p. (pr_tenant p, pr_sku p)) (clear_category ks ps) = map (\<lambda>p. (pr_tenant p, pr_sku p)) ps"
  by (simp_all add: clear_category_def update_rows_def comp_def if_distrib cong: if_cong)

lemma drop_categories_ok:
  assumes "db_ok d"
  shows "db_ok (drop_categories P d)"
proof -
  let ?cs = "delete_rows P (categories d)" and ?ps = "clear_category (map ct_id (filter P (categories d))) (products d)"
  have "categories_ok (drop_categories P d)"
    using assms by (auto simp: db_ok_def categories_ok_def drop_categories_def delete_rows_def list_all_iff
        intro: distinct_map_filter)
  moreover have "products_ok (drop_categories P d)"
  proof -
    have "fk_opt (map ct_id ?cs) (pr_category q)" if "q \<in> set ?ps" for q
    proof (cases "pr_category q")
      case (Some k)
      with that have q: "q \<in> set (products d)" "k \<notin> set (map ct_id (filter P (categories d)))"
        by (auto simp: clear_category_def update_rows_def split: option.splits if_splits)
      with Some assms have "k \<in> set (map ct_id (categories d))"
        by (auto simp: db_ok_def products_ok_def list_all_iff fk_opt_def split: option.splits)
      with q(2) Some show ?thesis by (auto simp: fk_opt_def delete_rows_def)
    qed (simp add: fk_opt_def)
    moreover have "\<exists>p \<in> set (products d). pr_tenant q = pr_tenant p \<and> pr_price q = pr_price p \<and> pr_status q = pr_status p"
      if "q \<in> set ?ps" for q
      using that by (auto simp: clear_category_def update_rows_def split: if_splits)
    ultimately show ?thesis
      using assms by (fastforce simp: db_ok_def products_ok_def drop_categories_def list_all_iff)
  qed
  ultimately show ?thesis
    using assms by (simp add: db_ok_def drop_categories_def tenants_ok_def tokens_ok_def customers_ok_def coupons_ok_def
        orders_ok_def items_ok_def payments_ok_def)
qed

text \<open>C28: The foreign key of a category reaches across tenants: a product may name the category of any
  tenant, and when the owner of the category deletes it, the product of the other tenant loses its
  category. The request answers 204, and the rows of the other tenant are not what they were.\<close>

theorem category_delete_crosses_tenants:
  assumes "w_faults w = []" and "db_ok (w_db w)" and "e_uuid_parse E path = Some (ct_id c)"
    and "c \<in> set (categories (w_db w))" and "ct_tenant c = tid ctx"
    and "p \<in> set (products (w_db w))" and "pr_category p = Some (ct_id c)" and "pr_tenant p \<noteq> tid ctx"
  shows "\<exists>w'. deleteCategory E ctx path w = (w', Inr (NoContent 204)) \<and>
    p\<lparr>pr_category := None\<rparr> \<in> set (products (w_db w')) \<and>
    view (\<lambda>u. u \<noteq> tid ctx) (w_db w') \<noteq> view (\<lambda>u. u \<noteq> tid ctx) (w_db w)"
proof -
  let ?own = "own_category (tid ctx) (ct_id c)"
  let ?d = "drop_categories ?own (w_db w)"
  have own: "c \<in> set (filter ?own (categories (w_db w)))" using assms(4,5) by (simp add: own_category_def)
  then have "affected ?own (categories (w_db w)) \<noteq> 0" by (auto simp: affected_def filter_empty_conv)
  then have run: "deleteCategory E ctx path w = (w\<lparr>w_db := ?d\<rparr>, Inr (NoContent 204))"
    using assms(3) drop_categories_ok [OF assms(2)]
    by (simp add: deleteCategory_def parseID_def bind_act_def DeleteCategory_def repo_DeleteCategory_def affecting_def
        map_err_def check_def sql_ok [OF assms(1)] commit_def)
  have gone: "ct_id c \<in> set (map ct_id (filter ?own (categories (w_db w))))" using own by auto
  have new: "p\<lparr>pr_category := None\<rparr> \<in> set (products ?d)"
    using assms(6,7) gone by (force simp: drop_categories_def clear_category_def update_rows_def)
  have "p \<notin> set (products ?d)"
    using assms(7) gone by (auto simp: drop_categories_def clear_category_def update_rows_def split: option.splits if_splits)
  then have "p \<notin> set (products (view (\<lambda>u. u \<noteq> tid ctx) ?d))" by (simp add: view_def)
  moreover have "p \<in> set (products (view (\<lambda>u. u \<noteq> tid ctx) (w_db w)))" using assms(6,8) by (simp add: view_def)
  ultimately have "view (\<lambda>u. u \<noteq> tid ctx) ?d \<noteq> view (\<lambda>u. u \<noteq> tid ctx) (w_db w)" by metis
  with run new show ?thesis by (intro exI [of _ "w\<lparr>w_db := ?d\<rparr>"]) simp
qed

theorem category_delete_crosses_tenants_witness:
  "\<exists>w'. deleteCategory (sample_env sample_claims) (Some \<lparr>idn_tenant = 8, idn_role = '''', idn_username = ''''\<rparr>) ''3''
       (sample_world sample_foreign) = (w', Inr (NoContent 204)) \<and>
     sample_product\<lparr>pr_category := None\<rparr> \<in> set (products (w_db w'))"
proof -
  have "e_uuid_parse (sample_env sample_claims) ''3'' = Some (ct_id (hd (categories sample_foreign)))"
    by (simp add: sample_env_def nat_of_digits_def is_digit_def digit_val_def code_def sample_foreign_def)
  from category_delete_crosses_tenants [OF _ _ this, of "sample_world sample_foreign"
      "Some \<lparr>idn_tenant = 8, idn_role = '''', idn_username = ''''\<rparr>" "sample_product\<lparr>pr_category := Some 3\<rparr>"]
  show ?thesis using sample_foreign_ok by (auto simp: sample_foreign_def sample_product_def)
qed

end
