(* ===== verification/Runs.thy ===== *)
theory Runs
  imports Service
begin

text \<open>
  The running server: requests, each one atomic, between steps of the clock, of the connection to
  the database, of the worker of the access log and of the background sweep. Two properties of
  every run: spent tokens stay spent (\<open>spent_tokens_refused\<close>), and orders move along the table of
  statuses unless the web hook or a deletion intervenes (\<open>orders_follow_lifecycle\<close>).
\<close>

section \<open>Steps\<close>

record system =
  sy_world :: world
  sy_log :: alog

text \<open>A request comes with the header of its id and what the access log shows of it.\<close>

datatype label = Request string request_info request | Tick | Reconnect | Log_step al_event | Sweep

definition logged_as :: "request \<Rightarrow> request_info \<Rightarrow> alog \<Rightarrow> alog" where
  "logged_as req q l =
     (if visits_logged req then l\<lparr>al_ch := send_entry (entry_of q None) (al_ch l)\<rparr> else l)"

inductive step :: "'z server_env_scheme \<Rightarrow> app \<Rightarrow> system \<Rightarrow> label \<Rightarrow> system \<Rightarrow> bool" for E a where
  step_request: "RequestContext E hdr (\<lambda>rid. serve E a (Some rid) req) (sy_world s) = (w', r) \<Longrightarrow>
    step E a s (Request hdr q req) (s\<lparr>sy_world := w', sy_log := logged_as req q (sy_log s)\<rparr>)"
| step_tick: "w_now (sy_world s) \<le> n \<Longrightarrow> step E a s Tick (s\<lparr>sy_world := (sy_world s)\<lparr>w_now := n\<rparr>\<rparr>)"
| step_reconnect: "step E a s Reconnect (s\<lparr>sy_world := (sy_world s)\<lparr>w_faults := faults\<rparr>\<rparr>)"
| step_log: "al_step (sy_log s) ev l \<Longrightarrow> ev \<in> {Receive, Inserted, InsertFailed} \<Longrightarrow>
    step E a s (Log_step ev) (s\<lparr>sy_log := l\<rparr>)"
| step_sweep: "StartBackground E = Every d \<Longrightarrow> runChaseSweep E (sy_world s) = (w', r) \<Longrightarrow>
    step E a s Sweep (s\<lparr>sy_world := w'\<rparr>)"

inductive_cases stepE: "step E a s l s'"

inductive run :: "'z server_env_scheme \<Rightarrow> app \<Rightarrow> system \<Rightarrow> label list \<Rightarrow> system \<Rightarrow> bool" for E a where
  run_stop: "run E a s [] s"
| run_more: "run E a s ls t \<Longrightarrow> step E a t l u \<Longrightarrow> run E a s (ls @ [l]) u"

definition requests :: "label list \<Rightarrow> request list" where
  "requests ls = concat (map (\<lambda>l. case l of Request _ _ req \<Rightarrow> [req] | _ \<Rightarrow> []) ls)"

lemma RequestContext_keeps:
  assumes "keeps R (uuid_string E)" and "transition R" and "\<And>rid. keeps R (f rid)"
  shows "keeps R (RequestContext E hdr f)"
  unfolding RequestContext_def by (intro transition.keeps_combinators [OF assms(2)] assms(1,3))

text \<open>What every request keeps of the tables, every step keeps, and so every run.\<close>

lemma step_on_db:
  assumes "transition (on_db Q)" and "\<And>d. Q d d"
    and "\<And>rid req. req \<in> set (requests [l]) \<Longrightarrow> keeps (on_db Q) (serve E a rid req)"
    and "step E a s l s'"
  shows "Q (w_db (sy_world s)) (w_db (sy_world s'))"
  using assms(4)
proof (rule stepE)
  fix hdr req w' r q
  assume l: "l = Request hdr q req" "s' = s\<lparr>sy_world := w', sy_log := logged_as req q (sy_log s)\<rparr>"
    and run: "RequestContext E hdr (\<lambda>rid. serve E a (Some rid) req) (sy_world s) = (w', r)"
  have "keeps (on_db Q) (RequestContext E hdr (\<lambda>rid. serve E a (Some rid) req))"
    by (rule RequestContext_keeps [OF _ assms(1)])
      (use assms(2,3) l(1) in \<open>simp_all add: reads_keeps [OF reads_uuid_string] requests_def\<close>)
  from keepsD' [OF this run] show ?thesis by (simp add: l(2) on_db_def)
next
  fix d w' r assume run: "runChaseSweep E (sy_world s) = (w', r)" and s': "s' = s\<lparr>sy_world := w'\<rparr>"
  have "w_db w' = w_db (sy_world s)" using reads_module_pages(8) run by (rule reads_db')
  then show ?thesis by (simp add: s' assms(2))
qed (simp_all add: assms(2))

lemma run_on_db:
  assumes "transition (on_db Q)" and "\<And>d. Q d d"
    and "\<And>rid req. req \<in> set (requests ls) \<Longrightarrow> keeps (on_db Q) (serve E a rid req)"
    and "run E a s ls s'"
  shows "Q (w_db (sy_world s)) (w_db (sy_world s'))"
  using assms(4,3)
proof (induction rule: run.induct)
  case (run_more s ls t l u)
  have "Q (w_db (sy_world s)) (w_db (sy_world t))"
    by (rule run_more.IH) (use run_more.prems in \<open>simp add: requests_def\<close>)
  moreover have "Q (w_db (sy_world t)) (w_db (sy_world u))"
    by (rule step_on_db [OF assms(1,2) _ run_more.hyps(2)]) (use run_more.prems in \<open>simp add: requests_def\<close>)
  ultimately have "on_db Q (sy_world s) (sy_world t)" "on_db Q (sy_world t) (sy_world u)" by (simp_all add: on_db_def)
  from transition.chain [OF assms(1) this] show ?case by (simp add: on_db_def)
qed (simp add: assms(2))

section \<open>Spent tokens\<close>

lemma spent_public_routes: "keeps keeps_spent (auth_public E m c)"
  by (cases c) (simp_all add: spent_handlers)

lemma spent_account_routes: "keeps keeps_spent (auth_authed E ctx c)"
  by (cases c) (simp_all add: spent_handlers)

lemma spent_SetPaymentStatus: "keeps keeps_spent (SetPaymentStatus t i s)"
  unfolding SetPaymentStatus_def affecting_def
  by (intro spent_store spent_sql) (auto intro: spent_other_tables)

lemma spent_webhook: "keeps keeps_spent (paymentWebhook E signature body)"
  unfolding paymentWebhook_def Let_def parseUUID_def
  by (intro spent_store spent_SetPaymentStatus scoped_repo_UpdateStatus [THEN scoped_spent]
      reads_orders [THEN spent_reads] reads_module_Notify [THEN spent_reads])

lemma spent_enh_public: "keeps keeps_spent (enh_public E c)"
  by (cases c) (simp_all add: spent_webhook reads_module_pages [THEN spent_reads])

lemma spent_AddPaymentProof: "keeps keeps_spent (AddPaymentProof E i key x)"
proof (rule keepsI)
  fix w
  from scoped_AddPaymentProof [of w E i key x] obtain t where "scoped t w (fst (AddPaymentProof E i key x w))" by blast
  then show "keeps_spent w (fst (AddPaymentProof E i key x w))" by (simp add: scoped_iff)
qed

lemma spent_catalog_deletes:
  "keeps keeps_spent (deleteCategory E ctx p)" "keeps keeps_spent (deleteProduct E ctx p)"
  unfolding deleteCategory_def deleteProduct_def
  by (intro spent_store spent_deletes spent_reads [OF reads_parseID])+

context object_store
begin

lemma spent_catalog_routes: "keeps keeps_spent (catalog_routes E S ctx c)"
  by (cases "clears_refs (Catalog_call c)"; cases c)
    (simp_all add: spent_catalog_deletes scoped_catalog_handlers [THEN scoped_spent]
      scoped_catalog_handlers_plain [THEN scoped_spent])

lemma spent_store_routes: "keeps keeps_spent (store_routes E F S c)"
proof (cases c)
  case (PostCheckout u body)
  have "keeps keeps_spent (checkout E S u body)"
    unfolding checkout_def
    by (intro spent_store scoped_GuestCheckout [THEN scoped_spent] reads_resolveTenant [THEN spent_reads])
  then show ?thesis by (simp add: PostCheckout)
qed (simp_all add: reads_storefront [THEN spent_reads])

lemma spent_payment_upload: "keeps keeps_spent (PublicUploadPayment E S p up)"
  unfolding PublicUploadPayment_def checked_upload_def
  by (intro spent_store spent_AddPaymentProof reads_parseUUID [THEN spent_reads] store_reads [THEN spent_reads]
      reads_orders [THEN spent_reads])

end

lemma spent_customers_routes: "keeps keeps_spent (customers_routes E ctx c)"
  by (cases c) (simp_all add: spent_customer_delete scoped_customer_handlers [THEN scoped_spent])

lemma reads_Interpret: "reads (copilotInterpret L lower ctx body)"
  unfolding copilotInterpret_def Let_def by (intro reads_combinators)

lemma reads_serve_file: "reads (serve_file E a key q)"
  unfolding serve_file_def localFileHandler_def local_Verify_def Let_def
  by (intro reads_combinators reads_local_Open reads_now)

lemma reads_probes: "reads readyz" "reads (tenants_count ctx)"
  unfolding readyz_def tenants_count_def by (intro reads_combinators reads_sel)+

lemma keeps_Authenticated:
  assumes "transition R" and "R = on_db Q" and "\<And>d. Q d d" and "\<And>ctx. keeps R (f ctx)"
  shows "keeps R (Authenticated E m authz f)"
proof -
  have "keeps R (ParseAccess E m tok)" for tok
    unfolding assms(2) by (rule keepsI) (simp add: ParseAccess_run on_db_def assms(3))
  then show ?thesis unfolding Authenticated_def by (intro transition.keeps_combinators [OF assms(1)] assms(4))
qed

text \<open>Every request, from what the routes keep.\<close>

lemma serve_keeps:
  assumes R: "transition R" "R = on_db Q" "\<And>d. Q d d"
    and authed: "\<And>authz c ctx. req = Authed authz c \<Longrightarrow> keeps R (authed_routes E a rid c ctx)"
    and public: "\<And>c. req = Public c \<Longrightarrow> keeps R (auth_public E (ap_tokens a) c)"
    and limited: "\<And>b c. req = Limited b c \<Longrightarrow> keeps R (limited_routes E a rid c)"
    and enh: "\<And>c. req = Enh_public c \<Longrightarrow> keeps R (enh_public E c)"
  shows "keeps R (serve E a rid req)"
proof -
  have reads: "reads m \<Longrightarrow> keeps R m" for m :: "'x go"
    unfolding R(2) by (rule reads_keeps) (simp_all add: R(3))
  show ?thesis
  proof (cases req)
    case (Public c)
    then show ?thesis using public by (simp add: keeps_via)
  next
    case (Authed authz c)
    have "keeps R (authed_routes E a rid c ctx)" for ctx by (rule authed [OF Authed])
    from keeps_Authenticated [OF R this] show ?thesis by (simp add: Authed)
  next
    case (Operator authz)
    have "keeps R (RequireRole ''operator'' ctx tenants_count)" for ctx
      unfolding RequireRole_def by (intro transition.keeps_combinators [OF R(1)] reads reads_probes)
    from keeps_Authenticated [OF R this] show ?thesis by (simp add: Operator)
  next
    case (Limited b c)
    then show ?thesis using limited by (simp add: RateLimiter_def transition.keeps_raise [OF R(1)])
  next
    case (Enh_public c)
    then show ?thesis using enh by (simp add: keeps_via)
  qed (simp_all add: transition.keeps_ret [OF R(1)] reads reads_serve_file reads_probes)
qed

lemma serve_spent:
  assumes "object_store (ap_store a)"
  shows "keeps keeps_spent (serve E a rid req)"
proof (rule serve_keeps [OF spent.transition_axioms keeps_spent_def])
  fix c ctx show "keeps keeps_spent (authed_routes E a rid c ctx)"
    by (cases c) (simp_all add: keeps_via spent_account_routes object_store.spent_catalog_routes [OF assms]
        object_store.scoped_orders_routes [OF assms, THEN scoped_spent] spent_customers_routes
        scoped_coupons_routes [THEN scoped_spent] reads_dashboard [THEN spent_reads] reads_assistant [THEN spent_reads]
        reads_Interpret [THEN spent_reads] object_store.scoped_enh_routes [OF assms, THEN scoped_spent])
next
  fix c show "keeps keeps_spent (limited_routes E a rid c)"
    by (cases c) (simp_all add: keeps_via object_store.spent_store_routes [OF assms] reads_assistant [THEN spent_reads]
        object_store.reads_PublicInvoice [OF assms, THEN spent_reads] object_store.spent_payment_upload [OF assms])
qed (simp_all add: spent_public_routes spent_enh_public)

text \<open>C3: Whatever requests the server answers, in whatever order, with sweeps, failing connections and
  the clock in between: the tables keep every constraint, a refresh token that was rotated or
  revoked is refused with 401 from then on, and a mailed token that was used opens no reset and no
  verification again; none of these refusals changes a table.\<close>

theorem spent_tokens_refused:
  assumes "minio_apart E" and "Mount E cfg = Some a" and "run E a s ls s'" and "db_ok (w_db (sy_world s))"
    and "w = sy_world s'"
  shows "db_ok (w_db w) \<and>
    (refresh_spent (HashToken E tok) (w_db (sy_world s)) \<longrightarrow>
       snd (auth_Refresh E m tok w) = Inl (Unauthorized ''invalid refresh token'') \<and>
       w_db (fst (auth_Refresh E m tok w)) = w_db w) \<and>
    (auth_spent (HashToken E tok) (w_db (sy_world s)) \<longrightarrow>
       isl (snd (ResetPassword E tok pw w)) \<and> isl (snd (VerifyEmail E tok w)) \<and>
       w_db (fst (ResetPassword E tok pw w)) = w_db w \<and> w_db (fst (VerifyEmail E tok w)) = w_db w)"
proof -
  have kept: "keeps_spent_db (w_db (sy_world s)) (w_db w)"
    unfolding assms(5)
  proof (rule run_on_db [where Q = keeps_spent_db, OF _ _ _ assms(3)])
    show "transition (on_db keeps_spent_db)" using spent.transition_axioms by (simp only: keeps_spent_def)
    show "keeps (on_db keeps_spent_db) (serve E a rid req)" for rid req
      using serve_spent [OF mounted_store [OF assms(1,2)]] by (simp only: keeps_spent_def)
  qed simp
  have ok: "db_ok (w_db w)" using kept assms(4) by (simp add: keeps_spent_db_def)
  have still: "refresh_spent (HashToken E tok) (w_db (sy_world s)) \<Longrightarrow> refresh_spent (HashToken E tok) (w_db w)"
    "auth_spent (HashToken E tok) (w_db (sy_world s)) \<Longrightarrow> auth_spent (HashToken E tok) (w_db w)"
    using kept by (simp_all add: keeps_spent_db_def)
  show ?thesis
    by (intro conjI impI ok Refresh_spent [OF ok] ResetPassword_spent [OF ok] VerifyEmail_spent [OF ok])
      (erule still)+
qed

definition sample_spent :: db where
  "sample_spent = sample_db\<lparr>refresh_tokens :=
     [\<lparr>rf_tenant = 7, rf_hash = hex_encode ''t'', rf_expires = 1000, rf_revoked = Some 0\<rparr>]\<rparr>"

definition sample_system :: "db \<Rightarrow> system" where
  "sample_system d = \<lparr>sy_world = sample_world d, sy_log = al_init\<rparr>"

definition sample_visit :: request_info where
  "sample_visit = \<lparr>ri_ip = '''', ri_referrer = '''', ri_url = '''', ri_path = '''', ri_agent = ''''\<rparr>"

theorem spent_tokens_refused_witness:
  "\<exists>s'. run sample_server sample_running (sample_system sample_spent)
        [Request ''id'' sample_visit (Public (Refresh (Some ''t''))), Tick] s' \<and>
     snd (auth_Refresh sample_server sample_tm ''t'' (sy_world s')) = Inl (Unauthorized ''invalid refresh token'')"
proof -
  let ?req = "Public (Refresh (Some ''t''))" and ?s = "sample_system sample_spent"
  obtain w' r where "RequestContext sample_server ''id'' (\<lambda>rid. serve sample_server sample_running (Some rid) ?req)
      (sy_world ?s) = (w', r)" by fastforce
  from run_more [OF run_stop step_request [OF this]] obtain t where
    "run sample_server sample_running ?s [Request ''id'' sample_visit ?req] t" by fastforce
  from run_more [OF this step_tick [where n = "w_now (sy_world t)"]] obtain s' where
    run: "run sample_server sample_running ?s [Request ''id'' sample_visit ?req, Tick] s'" by fastforce
  have ok: "db_ok (w_db (sy_world ?s))"
    by (simp add: sample_system_def db_ok_defs sample_spent_def sample_db_def empty_db_def sample_tenant_def)
  have "refresh_spent (HashToken sample_server ''t'') (w_db (sy_world ?s))"
    by (simp add: refresh_spent_def sample_system_def sample_spent_def HashToken_def sample_server_def sample_enh_def
        sample_app_def auth_env.defs app_env.defs enh_env.defs server_env.defs sample_env_def)
  with spent_tokens_refused [OF sample_apart sample_mount(1) run ok refl, of "''t''" sample_tm "''''"] run show ?thesis by blast
qed

section \<open>Orders\<close>

lemma advances_quiet: "(\<And>d. orders (f d) = orders d) \<Longrightarrow> keeps advances (sql (\<lambda>d. commit (x d) (f d)))"
  by (rule advances_sql) (auto intro: advances_db_superset)

lemmas advances_basics = advances_rules reads_tenantByQuery [THEN advances_reads] reads_query_row [THEN advances_reads]
  reads_parseID [THEN advances_reads] reads_query_page [THEN advances_reads] auth_reads [THEN advances_reads]

lemma advances_auth_store:
  "keeps advances (auth_update i f)" "keeps advances (SaveRefresh t h x)" "keeps advances (SaveAuthToken t p h x)"
  "keeps advances (auth_CreateTenant E tn)" "keeps advances (RotateRefresh h)" "keeps advances (RevokeRefresh h)"
  "keeps advances (ConsumeAuthToken p h)"
  unfolding auth_update_def SaveRefresh_def SaveAuthToken_def auth_CreateTenant_def RotateRefresh_def
    RevokeRefresh_def ConsumeAuthToken_def
  by (intro advances_basics advances_sql; auto intro!: advances_db_superset split: option.splits if_splits)+

lemma advances_token_helpers: "keeps advances (issuePair E m t)" "keeps advances (sendToken E t p ttl s)"
  unfolding issuePair_def sendToken_def by (intro advances_basics advances_auth_store)+

lemma advances_auth_service:
  "keeps advances (auth_Register E r)" "keeps advances (auth_Login E m u p)" "keeps advances (auth_Refresh E m tok)"
  "keeps advances (auth_Logout E tok)" "keeps advances (ChangePassword E t x y)" "keeps advances (ForgotPassword E e)"
  "keeps advances (ResetPassword E tok p)" "keeps advances (VerifyEmail E tok)"
  "keeps advances (service_UpdateProfile t x y z)" "keeps advances (Me t)"
  unfolding auth_Register_def auth_Login_def auth_Refresh_def auth_Logout_def ChangePassword_def ForgotPassword_def
    ResetPassword_def VerifyEmail_def service_UpdateProfile_def Me_def TenantByUsername_def TenantByEmail_def
    TenantByID_def UpdatePassword_def MarkEmailVerified_def store_UpdateProfile_def
  by (intro advances_basics advances_auth_store advances_token_helpers)+

lemma advances_auth_routes: "keeps advances (auth_public E m c)" "keeps advances (auth_authed F ctx k)"
proof -
  show "keeps advances (auth_public E m c)"
    by (cases c; simp; unfold h_register_def h_login_def h_refresh_def h_logout_def h_forgot_def h_reset_def h_verify_def;
        intro advances_basics advances_auth_service)
  show "keeps advances (auth_authed F ctx k)"
    by (cases k; simp; unfold h_me_def h_updateProfile_def h_changePassword_def;
        intro advances_basics advances_auth_service)
qed

lemma advances_catalog_repo:
  "keeps advances (repo_CreateCategory E t n s)" "keeps advances (repo_UpdateCategory t i n s)"
  "keeps advances (repo_DeleteCategory t i)" "keeps advances (repo_CreateProduct E p)"
  "keeps advances (repo_UpdateProduct E p)" "keeps advances (SetProductImage t i key)" "keeps advances (repo_DeleteProduct t i)"
  unfolding repo_CreateCategory_def repo_UpdateCategory_def repo_DeleteCategory_def repo_CreateProduct_def
    repo_UpdateProduct_def SetProductImage_def repo_DeleteProduct_def affecting_def drop_categories_def drop_products_def Let_def
  by (intro advances_basics advances_sql; auto intro!: advances_db_superset split: option.splits if_splits)+

lemmas catalog_advances = advances_basics advances_catalog_repo reads_repo_catalog [THEN advances_reads]

lemma advances_products: "keeps advances (CreateProduct E t i)" "keeps advances (UpdateProduct E t k i)"
  unfolding CreateProduct_def UpdateProduct_def validateProduct_def toUUID_def Let_def by (intro catalog_advances)+

lemma advances_categories:
  "keeps advances (CreateCategory E t n s)" "keeps advances (UpdateCategory t i n s)" "keeps advances (DeleteCategory t i)"
  "keeps advances (ListCategories t)" "keeps advances (DeleteProduct t i)"
  unfolding CreateCategory_def UpdateCategory_def DeleteCategory_def ListCategories_def DeleteProduct_def
  by (intro catalog_advances)+

context object_store
begin

lemma advances_catalog_routes: "keeps advances (catalog_routes E S ctx c)"
  by (cases c; simp; unfold listCategories_def createCategory_def updateCategory_def deleteCategory_def listProducts_def
        createProduct_def getProduct_def updateProduct_def deleteProduct_def uploadImage_def checked_upload_def
        getProductBySKU_def legacyCategories_def Let_def;
      intro advances_basics advances_products advances_categories advances_catalog_repo catalog_reads [THEN advances_reads])

lemma advances_enh_routes: "keeps advances (enh_authed E S base ctx c)"
proof (cases c)
  case (PostExecute body)
  have "keeps advances (execCreateProduct E t act)" for t act
    unfolding execCreateProduct_def resolveOrCreateCategory_def Let_def
    by (intro advances_basics advances_products advances_categories reads_module_helpers [THEN advances_reads])
  moreover have "keeps advances (execUpdatePrice E S t act)" for t act
    unfolding execUpdatePrice_def
    by (intro advances_basics advances_products reads_GetProductBySKU [THEN advances_reads])
  ultimately have "keeps advances (copilotExecute E S ctx body)"
    unfolding copilotExecute_def Let_def
    by (intro advances_basics advances_module_helpers reads_module_pages [THEN advances_reads])
  then show ?thesis by (simp add: PostExecute)
next
  case (PostCharge i q)
  have "keeps advances (charge E S base ctx i q)"
    unfolding charge_def Let_def
    by (intro advances_basics advances_insert reads_order_Get [THEN advances_reads] reads_module_helpers [THEN advances_reads])
  then show ?thesis by (simp add: PostCharge)
qed (simp_all add: reads_module_pages [THEN advances_reads])

lemma advances_store_routes: "keeps advances (store_routes E F S c)"
  by (cases c) (simp_all add: advances_checkout reads_storefront [THEN advances_reads])

lemma advances_orders_routes: "\<forall>i. c \<noteq> DelOrder i \<Longrightarrow> keeps advances (orders_routes E S ctx c)"
  by (cases c) (simp_all add: advances_order_handlers advances_store_handlers)

end

lemma advances_drop_customers:
  "db_ok (drop_customers P d) \<Longrightarrow> advances_db d (drop_customers P d)"
proof -
  let ?hit = "\<lambda>r. case or_customer r of None \<Rightarrow> False | Some i \<Rightarrow> i \<in> set (map cu_id (filter P (customers d)))"
  let ?f = "\<lambda>r. if ?hit r then r\<lparr>or_customer := None\<rparr> else r"
  assume ok: "db_ok (drop_customers P d)"
  show ?thesis
    unfolding advances_db_def
  proof (intro impI conjI ballI ok)
    fix r assume r: "r \<in> set (orders d)"
    have "orders (drop_customers P d) = map ?f (orders d)" by (simp add: drop_customers_def Let_def update_rows_def)
    with r have "?f r \<in> set (orders (drop_customers P d))" by (simp only: set_map) (rule imageI)
    moreover have "or_id (?f r) = or_id r \<and> or_tenant (?f r) = or_tenant r \<and> reaches (or_status r) (or_status (?f r))"
      by simp
    ultimately show "\<exists>q \<in> set (orders (drop_customers P d)).
        or_id q = or_id r \<and> or_tenant q = or_tenant r \<and> reaches (or_status r) (or_status q)"
      by (rule bexI [rotated])
  qed
qed

lemma advances_customers_routes: "keeps advances (customers_routes E ctx c)"
proof (cases c)
  case (DelCustomer i)
  have "keeps advances (customer_delete E ctx i)"
    unfolding customer_delete_def customer_Delete_def affecting_def
    by (intro advances_basics advances_sql) (auto intro: advances_drop_customers)
  then show ?thesis by (simp add: DelCustomer)
qed (simp; unfold customer_list_def customer_create_def customer_get_def byLoyalty_def customer_update_def
    customer_Create_def customer_Update_def affecting_def Let_def;
    intro advances_basics advances_quiet reads_customers [THEN advances_reads]; simp)+

lemma advances_coupons_routes: "keeps advances (coupons_routes E ctx c)"
  by (cases c; simp; unfold coupon_list_def coupon_create_def coupon_get_def coupon_update_def coupon_delete_def
        coupon_Create_def coupon_Update_def coupon_Delete_def affecting_def Let_def;
      intro advances_basics advances_quiet reads_coupons [THEN advances_reads]; simp)

text \<open>The requests that may take an order back or away.\<close>

fun leaves_orders :: "request \<Rightarrow> bool" where
  "leaves_orders (Authed authz (Orders_call (DelOrder i))) = False"
| "leaves_orders (Enh_public (PostWebhook signature body)) = False"
| "leaves_orders r = True"

lemma serve_advances:
  assumes "object_store (ap_store a)" and "leaves_orders req"
  shows "keeps advances (serve E a rid req)"
proof (rule serve_keeps [OF adv.transition_axioms advances_def])
  fix authz c ctx assume req: "req = Authed authz c"
  then have "\<forall>i. c \<noteq> Orders_call (DelOrder i)" using assms(2) by auto
  then show "keeps advances (authed_routes E a rid c ctx)"
    by (cases c) (simp_all add: keeps_via advances_auth_routes object_store.advances_catalog_routes [OF assms(1)]
        object_store.advances_orders_routes [OF assms(1)] advances_customers_routes advances_coupons_routes
        reads_dashboard [THEN advances_reads] reads_assistant [THEN advances_reads] reads_Interpret [THEN advances_reads]
        object_store.advances_enh_routes [OF assms(1)])
next
  fix c show "keeps advances (limited_routes E a rid c)"
    by (cases c) (simp_all add: keeps_via object_store.advances_store_routes [OF assms(1)]
        reads_assistant [THEN advances_reads] object_store.advances_store_handlers [OF assms(1)])
next
  fix c assume "req = Enh_public c"
  with assms(2) show "keeps advances (enh_public E c)"
    by (cases c) (simp_all add: reads_module_pages [THEN advances_reads])
qed (simp_all add: advances_auth_routes)

text \<open>C5: When requests are served one after the other (each is one step here; changes of status whose statements
  interleave do get past the table, status_race), then over every such run without a call of the
  web hook and without the deletion of an
  order, whatever sellers, buyers and the background sweep do and wherever statements fail, no
  order disappears or changes hands, its status only moves along the table of transitions, and a
  shipped, cancelled or expired order keeps its status.\<close>

theorem orders_follow_lifecycle:
  assumes "minio_apart E" and "Mount E cfg = Some a" and "run E a s ls s'" and "db_ok (w_db (sy_world s))"
    and "list_all leaves_orders (requests ls)" and "r \<in> set (orders (w_db (sy_world s)))"
  shows "\<exists>q \<in> set (orders (w_db (sy_world s'))). or_id q = or_id r \<and> or_tenant q = or_tenant r \<and>
    CanTransition\<^sup>*\<^sup>* (or_status r) (or_status q) \<and>
    (or_status r \<in> {''shipped'', ''cancelled'', ''expired''} \<longrightarrow> or_status q = or_status r)"
proof -
  have "advances_db (w_db (sy_world s)) (w_db (sy_world s'))"
  proof (rule run_on_db [where Q = advances_db, OF _ _ _ assms(3)])
    show "transition (on_db advances_db)" using adv.transition_axioms by (simp only: advances_def)
    show "keeps (on_db advances_db) (serve E a rid req)" if "req \<in> set (requests ls)" for rid req
      using serve_advances [OF mounted_store [OF assms(1,2)], of req E rid] assms(5) that by (simp add: advances_def list_all_iff)
  qed simp
  then obtain q where q: "q \<in> set (orders (w_db (sy_world s')))" "or_id q = or_id r" "or_tenant q = or_tenant r"
    "reaches (or_status r) (or_status q)"
    using assms(4,6) by (auto simp: advances_db_def)
  moreover have "or_status q = or_status r" if "or_status r \<in> {''shipped'', ''cancelled'', ''expired''}"
    using reaches_terminal [OF q(4)] that by (auto simp: transitions_def)
  ultimately show ?thesis by (auto simp: reaches_def)
qed

theorem orders_follow_lifecycle_witness:
  "\<exists>s' q. run sample_server sample_running (sample_system sample_orders)
        [Request '''' sample_visit (Authed ''Bearer key'' (Orders_call (PatchStatus ''9'' (Some ''shipped'')))), Reconnect] s' \<and>
     q \<in> set (orders (w_db (sy_world s'))) \<and> or_id q = 9 \<and> CanTransition\<^sup>*\<^sup>* ''pending'' (or_status q)"
proof -
  let ?req = "Authed ''Bearer key'' (Orders_call (PatchStatus ''9'' (Some ''shipped'')))" and ?s = "sample_system sample_orders"
  obtain w' r where "RequestContext sample_server '''' (\<lambda>rid. serve sample_server sample_running (Some rid) ?req)
      (sy_world ?s) = (w', r)" by fastforce
  from run_more [OF run_stop step_request [OF this]] obtain t where
    "run sample_server sample_running ?s [Request '''' sample_visit ?req] t" by fastforce
  from run_more [OF this step_reconnect [where faults = "[True]"]] obtain s' where
    run: "run sample_server sample_running ?s [Request '''' sample_visit ?req, Reconnect] s'" by fastforce
  have start: "db_ok (w_db (sy_world ?s))" "sample_order \<in> set (orders (w_db (sy_world ?s)))"
    using sample_orders_ok by (simp_all add: sample_system_def sample_orders_def)
  have "list_all leaves_orders (requests [Request '''' sample_visit ?req, Reconnect])" by (simp add: requests_def)
  from orders_follow_lifecycle [OF sample_apart sample_mount(1) run start(1) this start(2)] run show ?thesis
    by (auto simp: sample_order_def)
qed

end
