(* ===== verification/Seed.thy ===== *)
theory Seed
  imports Server
begin

text \<open>
  The command that fills a database with the demo accounts and stores (\<open>api/cmd/seed/main.go\<close>).
  \<open>seed_command\<close> is \<open>main\<close>: the settings, the connection and the migrations as in the server, then
  \<open>seed_data\<close> on the tables. The error that \<open>must\<close> exits with is the error of the action. A second
  run changes nothing but the password hashes of the demo accounts (\<open>seed_idempotent\<close>).
\<close>

section \<open>Accounts\<close>

definition upsertTenant ::
  "'z auth_env_scheme \<Rightarrow> string \<Rightarrow> string \<Rightarrow> string \<Rightarrow> string \<Rightarrow> string \<Rightarrow> uuid go" where
  "upsertTenant E username email password role store =
     bind_act (HashPassword E password) (\<lambda>hash.
     bind_act (new_uuid E) (\<lambda>i. bind_act now (\<lambda>n.
       sql (\<lambda>d.
         case find (\<lambda>t. tn_username t = username) (tenants d) of
           None \<Rightarrow> commit i (d\<lparr>tenants := tenants d @
             [\<lparr>tn_id = i, tn_username = username, tn_email = email, tn_password_hash = hash, tn_role = role,
               tn_full_name = '''', tn_store_name = store, tn_phone = '''', tn_email_verified = True,
               tn_created = n\<rparr>]\<rparr>)
         | Some t \<Rightarrow> commit (tn_id t) (d\<lparr>tenants := update_rows (\<lambda>t. tn_username t = username)
             (\<lambda>t. t\<lparr>tn_email := email, tn_password_hash := hash, tn_role := role, tn_store_name := store,
                     tn_email_verified := True\<rparr>) (tenants d)\<rparr>)))))"

text \<open>The error of the count is dropped, and the count is then zero.\<close>

definition hasProducts :: "uuid \<Rightarrow> bool go" where
  "hasProducts tenantID =
     bind_act (attempt (sel (\<lambda>d. length (filter (\<lambda>p. pr_tenant p = tenantID) (products d))))) (\<lambda>r.
       ret (case r of Inl _ \<Rightarrow> False | Inr n \<Rightarrow> n > 0))"

section \<open>Stores\<close>

definition seed_product :: "uuid \<Rightarrow> uuid \<Rightarrow> string \<Rightarrow> string \<Rightarrow> string \<Rightarrow> rat \<Rightarrow> string \<Rightarrow> string \<Rightarrow> product" where
  "seed_product tenantID cat sku name desc price status slug =
     \<lparr>pd_id = uuid_Nil, pd_tenant = tenantID, pd_category = Some cat, pd_category_name = '''', pd_sku = sku,
      pd_name = name, pd_desc = desc, pd_price = fl price, pd_slug = slug, pd_image = '''', pd_image_url = '''',
      pd_status = status, pd_created = time_zero\<rparr>"

definition seed_customer ::
  "uuid \<Rightarrow> string \<Rightarrow> string \<Rightarrow> string \<Rightarrow> string \<Rightarrow> string \<Rightarrow> string \<Rightarrow> string \<Rightarrow> string \<Rightarrow> customer" where
  "seed_customer tenantID name email contact city state postcode loyalty type =
     \<lparr>cu_id = uuid_Nil, cu_tenant = tenantID, cu_full_name = name, cu_ic_no = '''', cu_dob = None,
      cu_email = email, cu_contact_no = contact, cu_mailing_addr = '''', cu_city = city, cu_postcode = postcode,
      cu_state = state, cu_loyalty = loyalty, cu_type = type, cu_created = time_zero\<rparr>"

definition seed_item :: "string \<Rightarrow> string \<Rightarrow> int \<Rightarrow> rat \<Rightarrow> order_item" where
  "seed_item sku name quantity price =
     \<lparr>oi_id = uuid_Nil, oi_product = None, oi_sku = sku, oi_name = name, oi_quantity = quantity,
      oi_price = fl price, oi_line = Fin 0\<rparr>"

definition seed_order :: "uuid \<Rightarrow> string \<Rightarrow> customer \<Rightarrow> shipping_address \<Rightarrow> order_item \<Rightarrow> order" where
  "seed_order tenantID status c shipping item =
     \<lparr>od_id = uuid_Nil, od_tenant = tenantID, od_customer = Some (cu_id c), od_status = status,
      od_full_name = cu_full_name c, od_email = cu_email c, od_contact = cu_contact_no c,
      od_shipping = shipping, od_notes = '''', od_total = Fin 0, od_expired = time_zero,
      od_created = time_zero, od_items = [item], od_payments = []\<rparr>"

definition ali_products :: "uuid \<Rightarrow> uuid \<Rightarrow> uuid \<Rightarrow> product list" where
  "ali_products tenantID makanan minuman =
     [seed_product tenantID makanan ''KL01'' ''Kuih Lapis'' ''Kuih lapis tradisional berlapis-lapis'' 12.50
        ''active'' ''kuih-lapis'',
      seed_product tenantID makanan ''KR01'' ''Karipap Pusing'' ''Karipap rangup inti kentang'' 0.80
        ''active'' ''karipap-pusing'',
      seed_product tenantID minuman ''TT01'' ''Teh Tarik'' ''Teh tarik panas'' 3 ''active'' ''teh-tarik'',
      seed_product tenantID minuman ''KO01'' ''Kopi O Panas'' ''Kopi hitam pekat'' 2.50 ''active'' ''kopi-o-panas'',
      seed_product tenantID makanan ''RAYA01'' ''Hamper Raya Premium'' ''Set hamper raya (draf, belum aktif)'' 159
        ''inactive'' ''hamper-raya-premium'']"

definition ali_customers :: "uuid \<Rightarrow> customer list" where
  "ali_customers tenantID =
     [seed_customer tenantID ''Aminah binti Razak'' ''aminah@example.com'' ''0191234567'' ''Kuala Lumpur'' ''WP''
        ''50000'' ''ALI-0001'' ''regular'',
      seed_customer tenantID ''Hafiz bin Omar'' ''hafiz@example.com'' ''0137654321'' ''Shah Alam'' ''Selangor''
        ''40000'' ''ALI-0002'' ''vip'']"

definition aminah_order :: "uuid \<Rightarrow> customer \<Rightarrow> order" where
  "aminah_order tenantID c =
     seed_order tenantID ''pending'' c
       \<lparr>sa_mailing_addr = ''No 1, Jln Mawar'', sa_mailing_addr2 = '''', sa_city = ''Kuala Lumpur'',
        sa_postcode = ''50000'', sa_state = ''WP''\<rparr>
       (seed_item ''KL01'' ''Kuih Lapis'' 2 12.50)"

definition hafiz_order :: "uuid \<Rightarrow> customer \<Rightarrow> order" where
  "hafiz_order tenantID c =
     seed_order tenantID ''shipped'' c
       \<lparr>sa_mailing_addr = ''12, Jln Melati'', sa_mailing_addr2 = '''', sa_city = ''Shah Alam'',
        sa_postcode = ''40000'', sa_state = ''Selangor''\<rparr>
       (seed_item ''TT01'' ''Teh Tarik'' 3 3)"

definition seedKedaiAli :: "'z env_scheme \<Rightarrow> uuid \<Rightarrow> unit go" where
  "seedKedaiAli E tenantID =
     bind_act (hasProducts tenantID) (\<lambda>stocked. if stocked then ret () else
     bind_act (repo_CreateCategory E tenantID ''Makanan'' ''Makanan & snek'') (\<lambda>makanan.
     bind_act (repo_CreateCategory E tenantID ''Minuman'' ''Minuman panas & sejuk'') (\<lambda>minuman.
     bind_act (for_each (ali_products tenantID (ct_id makanan) (ct_id minuman)) (repo_CreateProduct E)) (\<lambda>prods.
     bind_act (for_each (ali_customers tenantID) (customer_Create E)) (\<lambda>cust.
     bind_act now (\<lambda>n.
     bind_act (coupon_Create E
       \<lparr>co_id = uuid_Nil, co_tenant = tenantID, co_product = Some (pd_id (prods ! 0)), co_campaign = ''RAYA2026'',
        co_desc = ''Diskaun Raya 10%'', co_expired_date = Some (n + 30 * 24 * Hour), co_created = time_zero,
        co_expired = False\<rparr>) (\<lambda>_.
     bind_act (repo_Create E (aminah_order tenantID (cust ! 0))) (\<lambda>_.
     bind_act (repo_Create E (hafiz_order tenantID (cust ! 1))) (\<lambda>shipped.
     bind_act (AddPayment E (od_id shipped) '''' (Fin 9)) (\<lambda>pay.
     SetPaymentStatus tenantID (py_id pay) ''verified''))))))))))"

definition seedButikSiti :: "'z env_scheme \<Rightarrow> uuid \<Rightarrow> unit go" where
  "seedButikSiti E tenantID =
     bind_act (hasProducts tenantID) (\<lambda>stocked. if stocked then ret () else
     bind_act (repo_CreateCategory E tenantID ''Pakaian'' ''Pakaian muslimah'') (\<lambda>pakaian.
     bind_act (for_each
       [seed_product tenantID (ct_id pakaian) ''TDG01'' ''Tudung Bawal Premium'' ''Cotton voile 45 inci'' 29.90
          ''active'' ''tudung-bawal-premium'',
        seed_product tenantID (ct_id pakaian) ''BJ01'' ''Baju Kurung Moden'' ''Baju kurung pesak gantung'' 89
          ''active'' ''baju-kurung-moden'']
       (repo_CreateProduct E)) (\<lambda>_. ret ())))"

definition seed_data :: "'z auth_env_scheme \<Rightarrow> unit go" where
  "seed_data E =
     bind_act (upsertTenant E ''superadmin'' ''superadmin@mudahurus.my'' ''superadmin123'' ''operator'' ''MUDAHURUS HQ'') (\<lambda>_.
     bind_act (upsertTenant E ''kedaiali'' ''ali@mudahurus.my'' ''kedaiali123'' ''seller'' ''Kedai Ali Online'') (\<lambda>ali.
     bind_act (seedKedaiAli E ali) (\<lambda>_.
     bind_act (upsertTenant E ''butiksiti'' ''siti@mudahurus.my'' ''butiksiti123'' ''seller'' ''Butik Siti'') (\<lambda>siti.
     seedButikSiti E siti))))"

text \<open>The whole command: the schema and the tables after it, and its exit code.\<close>

definition seed_command ::
  "'z server_env_scheme \<Rightarrow> environment \<Rightarrow> (string \<Rightarrow> 'd \<Rightarrow> 'd option) \<Rightarrow> (string \<times> string) list \<Rightarrow>
   'd schema \<Rightarrow> world \<Rightarrow> ('d schema \<times> world) \<times> int" where
  "seed_command E ev run files s w =
     (case migratecheck E ev run files s of
        (s', ec) \<Rightarrow>
          if ec \<noteq> 0 then ((s', w), 1)
          else (case seed_data E w of
                  (w', Inl _) \<Rightarrow> ((s', w'), 1)
                | (w', Inr ()) \<Rightarrow> ((s', w'), 0)))"

section \<open>What a run leaves\<close>

text \<open>The stores are filled by appending rows: no account changes and no product goes away.\<close>

definition fills_db :: "db \<Rightarrow> db \<Rightarrow> bool" where
  "fills_db d d' \<longleftrightarrow>
     (db_ok d \<longrightarrow> db_ok d') \<and> tenants d' = tenants d \<and> set (products d) \<subseteq> set (products d')"

definition fills :: "world \<Rightarrow> world \<Rightarrow> bool" where
  "fills = on_db fills_db"

lemma fills_db_refl [simp]: "fills_db d d"
  by (simp add: fills_db_def)

interpretation fill: transition fills
  by unfold_locales (auto simp: fills_def on_db_def fills_db_def)

lemma fills_reads: "reads m \<Longrightarrow> keeps fills m"
  unfolding fills_def by (rule reads_keeps) simp_all

lemma fills_sql: "(\<And>d x d'. q d = Inr (x, d') \<Longrightarrow> fills_db d d') \<Longrightarrow> keeps fills (sql q)"
  unfolding fills_def by (rule keeps_sql) simp_all

lemma fills_transact: "keeps fills m \<Longrightarrow> keeps fills (transact m)"
  unfolding fills_def by (rule keeps_transact) simp_all

lemma reads_hasProducts: "reads (hasProducts t)"
  unfolding hasProducts_def by (intro reads_combinators reads_sel)

lemmas fills_rules = fill.keeps_combinators reads_now [THEN fills_reads] reads_new_uuid [THEN fills_reads]
  reads_num_arg [THEN fills_reads] reads_hasProducts [THEN fills_reads]

lemma fills_repositories:
  "keeps fills (repo_CreateCategory E t name desc)" "keeps fills (repo_CreateProduct E p)"
  "keeps fills (customer_Create E c)" "keeps fills (coupon_Create E k)" "keeps fills (insert_order E o1)"
  "keeps fills (insert_item E i it)" "keeps fills (AddPayment E i key x)" "keeps fills (SetPaymentStatus t i s)"
  unfolding repo_CreateCategory_def repo_CreateProduct_def customer_Create_def coupon_Create_def
    insert_order_def insert_item_def AddPayment_def SetPaymentStatus_def affecting_def Let_def
  by (intro fills_rules fills_sql; auto simp: fills_db_def)+

lemma fills_repo_Create: "keeps fills (repo_Create E o1)"
  unfolding repo_Create_def by (intro fills_transact fills_rules fills_repositories)

lemma fills_stores: "keeps fills (seedKedaiAli E t)" "keeps fills (seedButikSiti E t)"
  unfolding seedKedaiAli_def seedButikSiti_def
  by (intro fills_rules fills_repositories fills_repo_Create)+

text \<open>A store that was seeded has products.\<close>

definition stocked :: "uuid \<Rightarrow> db \<Rightarrow> bool" where
  "stocked t d \<longleftrightarrow> list_ex (\<lambda>p. pr_tenant p = t) (products d)"

lemma stocked_fills: "stocked t d \<Longrightarrow> fills_db d d' \<Longrightarrow> stocked t d'"
  by (auto simp: stocked_def fills_db_def list_ex_iff)

definition stocks :: "uuid \<Rightarrow> 'a go \<Rightarrow> bool" where
  "stocks t m \<longleftrightarrow> (\<forall>w w' x. m w = (w', Inr x) \<longrightarrow> stocked t (w_db w'))"

lemma stocksD: "stocks t m \<Longrightarrow> m w = (w', Inr x) \<Longrightarrow> stocked t (w_db w')"
  unfolding stocks_def by blast

lemma stocks_later: "(\<And>x. stocks t (f x)) \<Longrightarrow> stocks t (bind_act m f)"
  by (auto simp: stocks_def bind_Inr_iff)

lemma stocks_now:
  assumes "stocks t m" and "\<And>x. keeps fills (f x)"
  shows "stocks t (bind_act m f)"
  unfolding stocks_def bind_Inr_iff
proof (intro allI impI, elim exE conjE)
  fix w w' x y v assume first: "m w = (v, Inr y)" and run: "f y v = (w', Inr x)"
  have "stocked t (w_db v)" by (rule stocksD [OF assms(1) first])
  moreover have "fills_db (w_db v) (w_db w')" using keepsD' [OF assms(2) run] by (simp add: fills_def on_db_def)
  ultimately show "stocked t (w_db w')" by (rule stocked_fills)
qed

lemma stocks_product: "pd_tenant p = t \<Longrightarrow> stocks t (repo_CreateProduct E p)"
  unfolding stocks_def repo_CreateProduct_def Let_def
  by (auto simp: bind_Inr_iff stocked_def elim!: sql_InrE)

lemma stocks_products: "pd_tenant p = t \<Longrightarrow> stocks t (for_each (p # ps) (repo_CreateProduct E))"
  unfolding for_each.simps
  by (rule stocks_now [OF stocks_product]) (assumption, intro fill.keeps_combinators fills_repositories)

lemma hasProducts_stocked: "hasProducts t w = (v, Inr True) \<Longrightarrow> stocked t (w_db w)"
  unfolding hasProducts_def bind_attempt
  by (cases "sel (\<lambda>d. length (filter (\<lambda>p. pr_tenant p = t) (products d))) w")
    (auto simp: ret_def stocked_def list_ex_iff filter_empty_conv dest: sel_InrD split: sum.splits)

lemma stocks_unless:
  assumes "stocks t m"
  shows "stocks t (bind_act (hasProducts t) (\<lambda>b. if b then ret () else m))"
  unfolding stocks_def bind_Inr_iff
proof (intro allI impI, elim exE conjE)
  fix w w' x b v
  assume count: "hasProducts t w = (v, Inr b)" and run: "(if b then ret () else m) v = (w', Inr x)"
  show "stocked t (w_db w')"
  proof (cases b)
    case True
    have "w_db v = w_db w" using reads_hasProducts count by (rule reads_db')
    with count True run show ?thesis by (simp add: hasProducts_stocked)
  next
    case False
    with run stocksD [OF assms, of v w' x] show ?thesis by simp
  qed
qed

lemma stores_stocked: "stocks t (seedKedaiAli E t)" "stocks t (seedButikSiti E t)"
proof -
  show "stocks t (seedKedaiAli E t)"
    unfolding seedKedaiAli_def ali_products_def
    by (intro stocks_unless stocks_later [where m = "repo_CreateCategory _ _ _ _"] stocks_now [OF stocks_products]
        fills_rules fills_repositories fills_repo_Create) (simp add: seed_product_def)
  show "stocks t (seedButikSiti E t)"
    unfolding seedButikSiti_def
    by (intro stocks_unless stocks_later [where m = "repo_CreateCategory _ _ _ _"] stocks_now [OF stocks_products]
        fills_rules) (simp add: seed_product_def)
qed

section \<open>Accounts and their passwords\<close>

definition account ::
  "'z auth_env_scheme \<Rightarrow> string \<Rightarrow> string \<Rightarrow> string \<Rightarrow> string \<Rightarrow> string \<Rightarrow> uuid \<Rightarrow> db \<Rightarrow> bool" where
  "account E username email password role store i d \<longleftrightarrow>
     (\<exists>t \<in> set (tenants d). tn_id t = i \<and> tn_username t = username \<and> tn_email t = email \<and> tn_role t = role \<and>
        tn_store_name t = store \<and> tn_email_verified t \<and> VerifyPassword E password (tn_password_hash t) = Inr True)"

definition rehash :: "string \<Rightarrow> string \<Rightarrow> tenant \<Rightarrow> tenant" where
  "rehash username h t = (if tn_username t = username then t\<lparr>tn_password_hash := h\<rparr> else t)"

lemma upsert_run:
  assumes "upsertTenant E u e p r s w = (w', Inr i)" and "argon2_len E"
  obtains h n where "VerifyPassword E p h = Inr True"
    and "(case find (\<lambda>t. tn_username t = u) (tenants (w_db w)) of
           None \<Rightarrow> w_db w' = (w_db w)\<lparr>tenants := tenants (w_db w) @
             [\<lparr>tn_id = i, tn_username = u, tn_email = e, tn_password_hash = h, tn_role = r, tn_full_name = '''',
               tn_store_name = s, tn_phone = '''', tn_email_verified = True, tn_created = n\<rparr>]\<rparr>
         | Some t \<Rightarrow> i = tn_id t \<and> w_db w' = (w_db w)\<lparr>tenants := update_rows (\<lambda>t. tn_username t = u)
             (\<lambda>t. t\<lparr>tn_email := e, tn_password_hash := h, tn_role := r, tn_store_name := s,
                     tn_email_verified := True\<rparr>) (tenants (w_db w))\<rparr>)"
    and "db_ok (w_db w')"
proof -
  from assms(1) obtain h v where hash: "HashPassword E p w = (v, Inr h)"
    and run: "bind_act (new_uuid E) (\<lambda>i. bind_act now (\<lambda>n. sql (\<lambda>d.
         case find (\<lambda>t. tn_username t = u) (tenants d) of
           None \<Rightarrow> commit i (d\<lparr>tenants := tenants d @
             [\<lparr>tn_id = i, tn_username = u, tn_email = e, tn_password_hash = h, tn_role = r, tn_full_name = '''',
               tn_store_name = s, tn_phone = '''', tn_email_verified = True, tn_created = n\<rparr>]\<rparr>)
         | Some t \<Rightarrow> commit (tn_id t) (d\<lparr>tenants := update_rows (\<lambda>t. tn_username t = u)
             (\<lambda>t. t\<lparr>tn_email := e, tn_password_hash := h, tn_role := r, tn_store_name := s,
                     tn_email_verified := True\<rparr>) (tenants d)\<rparr>)))) v = (w', Inr i)"
    unfolding upsertTenant_def by (rule bind_InrE)
  have "w_db v = w_db w" using reads_HashPassword hash by (rule reads_db')
  with run show thesis
    by (intro that [OF HashPassword_verifies [OF assms(2) hash], where n = "w_now v"])
      (auto simp: bind_act_def new_uuid_run now_run elim!: sql_InrE split: option.splits)
qed

lemma upsert_account:
  assumes "upsertTenant E u e p r s w = (w', Inr i)" and "argon2_len E"
  shows "account E u e p r s i (w_db w') \<and> products (w_db w') = products (w_db w) \<and> db_ok (w_db w')"
proof (rule upsert_run [OF assms], goal_cases)
  case (1 h n)
  show ?case
  proof (cases "find (\<lambda>t. tn_username t = u) (tenants (w_db w))")
    case None
    with 1 show ?thesis by (simp add: account_def)
  next
    case (Some t)
    from find_Some_iff' [OF Some] have "tn_username t = u" and "t \<in> set (tenants (w_db w))" by auto
    with 1 Some show ?thesis
      unfolding account_def update_rows_def
      by (auto intro!: bexI [where x = "t\<lparr>tn_email := e, tn_password_hash := h, tn_role := r,
            tn_store_name := s, tn_email_verified := True\<rparr>"])
  qed
qed

lemma upsert_others:
  assumes "upsertTenant E u e p r s w = (w', Inr i)" and "argon2_len E"
    and "account E v e' p' r' s' j (w_db w)" and "v \<noteq> u"
  shows "account E v e' p' r' s' j (w_db w')"
  by (rule upsert_run [OF assms(1,2)])
    (use assms(3,4) in \<open>fastforce simp: account_def update_rows_def split: option.splits\<close>)

text \<open>Over an account that is already there the upsert writes the new hash and nothing else.\<close>

lemma upsert_again:
  assumes "upsertTenant E u e p r s w = (w', Inr i)" and "argon2_len E"
    and "account E u e p' r s j (w_db w)" and "db_ok (w_db w)"
  shows "\<exists>h. i = j \<and> w_db w' = (w_db w)\<lparr>tenants := map (rehash u h) (tenants (w_db w))\<rparr>"
proof -
  from assms(3) obtain t where t: "t \<in> set (tenants (w_db w))" "tn_id t = j" "tn_username t = u" "tn_email t = e"
      "tn_role t = r" "tn_store_name t = s" "tn_email_verified t"
    unfolding account_def by blast
  have uniq: "distinct (map tn_username (tenants (w_db w)))" using assms(4) by (simp add: db_ok_def tenants_ok_def)
  have found: "find (\<lambda>t. tn_username t = u) (tenants (w_db w)) = Some t"
    by (rule find_unique [OF uniq t(1)]) (simp_all add: t(3))
  obtain h where "i = tn_id t"
    and "w_db w' = (w_db w)\<lparr>tenants := update_rows (\<lambda>t. tn_username t = u)
             (\<lambda>t. t\<lparr>tn_email := e, tn_password_hash := h, tn_role := r, tn_store_name := s,
                     tn_email_verified := True\<rparr>) (tenants (w_db w))\<rparr>"
    by (rule upsert_run [OF assms(1,2)]) (simp add: found)
  moreover have "update_rows (\<lambda>t. tn_username t = u)
      (\<lambda>t. t\<lparr>tn_email := e, tn_password_hash := h, tn_role := r, tn_store_name := s, tn_email_verified := True\<rparr>)
      (tenants (w_db w)) = map (rehash u h) (tenants (w_db w))"
    unfolding update_rows_def
  proof (rule map_cong [OF refl])
    fix q assume q: "q \<in> set (tenants (w_db w))"
    have "q = t" if "tn_username q = u" using distinct_map_unique [OF uniq q t(1)] that t(3) by simp
    then show "(if tn_username q = u then q\<lparr>tn_email := e, tn_password_hash := h, tn_role := r, tn_store_name := s,
        tn_email_verified := True\<rparr> else q) = rehash u h q"
      using t by (auto simp: rehash_def)
  qed
  ultimately show ?thesis using t(2) by auto
qed

section \<open>Running the command again\<close>

lemma seed_run:
  assumes "argon2_len E" and "seed_data E w = (w', Inr x)"
  obtains a b c where
    "account E ''superadmin'' ''superadmin@mudahurus.my'' ''superadmin123'' ''operator'' ''MUDAHURUS HQ'' a (w_db w')"
    and "account E ''kedaiali'' ''ali@mudahurus.my'' ''kedaiali123'' ''seller'' ''Kedai Ali Online'' b (w_db w')"
    and "account E ''butiksiti'' ''siti@mudahurus.my'' ''butiksiti123'' ''seller'' ''Butik Siti'' c (w_db w')"
    and "stocked b (w_db w')" and "stocked c (w_db w')" and "db_ok (w_db w')"
proof -
  from assms(2) obtain w1 w2 w3 w4 a b c y where
    one: "upsertTenant E ''superadmin'' ''superadmin@mudahurus.my'' ''superadmin123'' ''operator'' ''MUDAHURUS HQ'' w = (w1, Inr a)"
    and two: "upsertTenant E ''kedaiali'' ''ali@mudahurus.my'' ''kedaiali123'' ''seller'' ''Kedai Ali Online'' w1 = (w2, Inr b)"
    and ali: "seedKedaiAli E b w2 = (w3, Inr y)"
    and three: "upsertTenant E ''butiksiti'' ''siti@mudahurus.my'' ''butiksiti123'' ''seller'' ''Butik Siti'' w3 = (w4, Inr c)"
    and siti: "seedButikSiti E c w4 = (w', Inr x)"
    unfolding seed_data_def by (elim bind_InrE)
  note upserts = upsert_account [OF one assms(1)] upsert_account [OF two assms(1)] upsert_account [OF three assms(1)]
  have fill: "fills_db (w_db w2) (w_db w3)" "fills_db (w_db w4) (w_db w')"
    using keepsD' [OF fills_stores(1) ali] keepsD' [OF fills_stores(2) siti] by (simp_all add: fills_def on_db_def)
  have same: "account E u e p r s i (w_db w3) = account E u e p r s i (w_db w2)"
    "account E u e p r s i (w_db w') = account E u e p r s i (w_db w4)" for u e p r s i
    using fill by (simp_all add: account_def fills_db_def)
  have later: "account E v e p r s j (w_db w1) \<Longrightarrow> v \<noteq> ''kedaiali'' \<Longrightarrow> account E v e p r s j (w_db w3)"
    "account E v e p r s j (w_db w3) \<Longrightarrow> v \<noteq> ''butiksiti'' \<Longrightarrow> account E v e p r s j (w_db w')" for v e p r s j
    unfolding same(2) by (simp only: same(1), rule upsert_others [OF two assms(1)]; assumption)
      (rule upsert_others [OF three assms(1)]; assumption)
  have accounts:
    "account E ''superadmin'' ''superadmin@mudahurus.my'' ''superadmin123'' ''operator'' ''MUDAHURUS HQ'' a (w_db w')"
    "account E ''kedaiali'' ''ali@mudahurus.my'' ''kedaiali123'' ''seller'' ''Kedai Ali Online'' b (w_db w')"
    "account E ''butiksiti'' ''siti@mudahurus.my'' ''butiksiti123'' ''seller'' ''Butik Siti'' c (w_db w')"
    by (rule later(2) [OF later(1)], use upserts in simp_all)
      (rule later(2), use upserts same in simp_all)+
  show thesis
  proof (rule that [of a b c, OF accounts])
    show "stocked b (w_db w')"
    proof (rule stocked_fills [OF _ fill(2)])
      have "stocked b (w_db w3)" by (rule stocksD [OF stores_stocked(1) ali])
      then show "stocked b (w_db w4)" using upserts by (simp add: stocked_def)
    qed
    show "stocked c (w_db w')" by (rule stocksD [OF stores_stocked(2) siti])
    show "db_ok (w_db w')" using upserts fill by (simp add: fills_db_def)
  qed
qed

text \<open>A connection that does not fail keeps not failing.\<close>

lemma calm_upsert:
  assumes "upsertTenant E u e p r s w = (w', x)" and "w_faults w = []"
  shows "w_faults w' = []"
  using assms unfolding upsertTenant_def HashPassword_def Let_def
  by (auto simp: bind_act_def rand_bytes_def new_uuid_run now_run sql_ok split: option.splits prod.splits sum.splits)

lemma stocked_skips:
  assumes "w_faults w = []" and "stocked t (w_db w)"
  shows "seedKedaiAli E t w = (w, Inr ())" and "seedButikSiti E t w = (w, Inr ())"
  using assms
  by (auto simp: seedKedaiAli_def seedButikSiti_def bind_act_def hasProducts_def attempt_def sel_ok ret_def
      stocked_def list_ex_iff filter_empty_conv)

definition demo_accounts :: "(string \<times> string) list" where
  "demo_accounts = [(''superadmin'', ''superadmin123''), (''kedaiali'', ''kedaiali123''), (''butiksiti'', ''butiksiti123'')]"


text \<open>The second run, step by step: each account gets a new hash, each store is skipped.\<close>

lemma seed_again:
  assumes "argon2_len E" and "seed_data E w = (w', Inr x)" and "w_db v = w_db w'" and "w_faults v = []"
    and "seed_data E v = (v', Inr y)"
  shows "\<exists>h1 h2 h3. w_db v' = (w_db w')\<lparr>tenants :=
    map (rehash ''butiksiti'' h3 \<circ> (rehash ''kedaiali'' h2 \<circ> rehash ''superadmin'' h1)) (tenants (w_db w'))\<rparr>"
proof (rule seed_run [OF assms(1,2)])
  fix a b c
  assume accounts:
    "account E ''superadmin'' ''superadmin@mudahurus.my'' ''superadmin123'' ''operator'' ''MUDAHURUS HQ'' a (w_db w')"
    "account E ''kedaiali'' ''ali@mudahurus.my'' ''kedaiali123'' ''seller'' ''Kedai Ali Online'' b (w_db w')"
    "account E ''butiksiti'' ''siti@mudahurus.my'' ''butiksiti123'' ''seller'' ''Butik Siti'' c (w_db w')"
    and full: "stocked b (w_db w')" "stocked c (w_db w')" and ok: "db_ok (w_db w')"
  from assms(5) obtain v1 v2 v3 v4 i j k z where
    one: "upsertTenant E ''superadmin'' ''superadmin@mudahurus.my'' ''superadmin123'' ''operator'' ''MUDAHURUS HQ'' v = (v1, Inr i)"
    and two: "upsertTenant E ''kedaiali'' ''ali@mudahurus.my'' ''kedaiali123'' ''seller'' ''Kedai Ali Online'' v1 = (v2, Inr j)"
    and ali: "seedKedaiAli E j v2 = (v3, Inr z)"
    and three: "upsertTenant E ''butiksiti'' ''siti@mudahurus.my'' ''butiksiti123'' ''seller'' ''Butik Siti'' v3 = (v4, Inr k)"
    and siti: "seedButikSiti E k v4 = (v', Inr y)"
    unfolding seed_data_def by (elim bind_InrE)
  obtain h1 where db1: "w_db v1 = (w_db w')\<lparr>tenants := map (rehash ''superadmin'' h1) (tenants (w_db w'))\<rparr>"
    using upsert_again [OF one assms(1), unfolded assms(3), OF accounts(1) ok] by blast
  have ok1: "db_ok (w_db v1)" using upsert_account [OF one assms(1)] by simp
  have "account E ''kedaiali'' ''ali@mudahurus.my'' ''kedaiali123'' ''seller'' ''Kedai Ali Online'' b (w_db v1)"
    by (rule upsert_others [OF one assms(1)]) (simp_all add: assms(3) accounts(2))
  from upsert_again [OF two assms(1) this ok1] obtain h2 where j: "j = b"
    and db2: "w_db v2 = (w_db v1)\<lparr>tenants := map (rehash ''kedaiali'' h2) (tenants (w_db v1))\<rparr>" by blast
  have calm: "w_faults v2 = []" using calm_upsert [OF two calm_upsert [OF one assms(4)]] .
  have "stocked j (w_db v2)" using full(1) by (simp add: stocked_def db1 db2 j)
  then have v3: "v3 = v2" using stocked_skips(1) [OF calm, of j E] ali by simp
  have ok3: "db_ok (w_db v3)" using upsert_account [OF two assms(1)] v3 by simp
  have "account E ''butiksiti'' ''siti@mudahurus.my'' ''butiksiti123'' ''seller'' ''Butik Siti'' c (w_db v1)"
    by (rule upsert_others [OF one assms(1)]) (simp_all add: assms(3) accounts(3))
  then have "account E ''butiksiti'' ''siti@mudahurus.my'' ''butiksiti123'' ''seller'' ''Butik Siti'' c (w_db v3)"
    unfolding v3 by (rule upsert_others [OF two assms(1)]) simp
  from upsert_again [OF three assms(1) this ok3] obtain h3 where k: "k = c"
    and db4: "w_db v4 = (w_db v3)\<lparr>tenants := map (rehash ''butiksiti'' h3) (tenants (w_db v3))\<rparr>" by blast
  have "stocked k (w_db v4)" using full(2) by (simp add: stocked_def db1 db2 db4 v3 k)
  then have "v' = v4" using stocked_skips(2) [OF calm_upsert [OF three], of k E] calm v3 siti by simp
  then show ?thesis by (auto simp: db1 db2 db4 v3)
qed

text \<open>C21: Running the command again, over a connection that does not fail and on the tables that the first run
  left, changes nothing but the password hashes of the three demo accounts, and the published
  passwords of the accounts still log in.\<close>

theorem seed_idempotent:
  assumes "argon2_len E" and "seed_data E w = (w', Inr x)" and "w_db v = w_db w'" and "w_faults v = []"
    and "seed_data E v = (v', Inr y)"
  shows "\<exists>f. w_db v' = (w_db w')\<lparr>tenants := map f (tenants (w_db w'))\<rparr> \<and>
      (\<forall>t. \<exists>h. f t = t\<lparr>tn_password_hash := h\<rparr>) \<and>
      (\<forall>t. tn_username t \<notin> set (map fst demo_accounts) \<longrightarrow> f t = t) \<and>
      (\<forall>(u, p) \<in> set demo_accounts. \<exists>t \<in> set (tenants (w_db v')).
         tn_username t = u \<and> VerifyPassword E p (tn_password_hash t) = Inr True)"
proof -
  from seed_again [OF assms] obtain h1 h2 h3 where db: "w_db v' = (w_db w')\<lparr>tenants :=
      map (rehash ''butiksiti'' h3 \<circ> (rehash ''kedaiali'' h2 \<circ> rehash ''superadmin'' h1)) (tenants (w_db w'))\<rparr>" by blast
  let ?f = "rehash ''butiksiti'' h3 \<circ> (rehash ''kedaiali'' h2 \<circ> rehash ''superadmin'' h1)"
  have "\<exists>h. ?f t = t\<lparr>tn_password_hash := h\<rparr>" for t
    by (rule exI [of _ "tn_password_hash (?f t)"]) (simp add: rehash_def)
  moreover have "?f t = t" if "tn_username t \<notin> set (map fst demo_accounts)" for t
    using that by (simp add: rehash_def demo_accounts_def)
  moreover have "\<forall>(u, p) \<in> set demo_accounts. \<exists>t \<in> set (tenants (w_db v')).
      tn_username t = u \<and> VerifyPassword E p (tn_password_hash t) = Inr True"
    by (rule seed_run [OF assms(1,5)]) (force simp: demo_accounts_def account_def)
  ultimately show ?thesis using db by blast
qed


definition demo_row :: "uuid \<Rightarrow> string \<Rightarrow> tenant" where
  "demo_row i name = \<lparr>tn_id = i, tn_username = name, tn_email = name, tn_password_hash = '''', tn_role = ''seller'',
     tn_full_name = '''', tn_store_name = '''', tn_phone = '''', tn_email_verified = False, tn_created = 0\<rparr>"

definition demo_goods :: "uuid \<Rightarrow> product_row" where
  "demo_goods i = \<lparr>pr_id = i, pr_tenant = i, pr_category = None, pr_sku = ''A1'', pr_name = '''', pr_desc = '''',
     pr_price = 100, pr_slug = '''', pr_image = '''', pr_status = ''active'', pr_created = 0\<rparr>"

definition demo_db :: db where
  "demo_db = empty_db\<lparr>tenants := [demo_row 1 ''kedaiali'', demo_row 2 ''butiksiti''],
     products := [demo_goods 1, demo_goods 2]\<rparr>"


lemma sample_seeded:
  "\<exists>w. seed_data (sample_env sample_claims) (sample_world demo_db) = (w, Inr ()) \<and> w_faults w = [] \<and>
    (\<exists>v. seed_data (sample_env sample_claims) w = (v, Inr ()))"
  by (simp add: seed_data_def upsertTenant_def HashPassword_def Let_def bind_act_def rand_bytes_def new_uuid_run now_run
      sql_ok commit_def sample_world_def sample_env_def demo_db_def empty_db_def demo_row_def demo_goods_def update_rows_def
      stocked_skips stocked_def db_ok_defs defaultParams_def)

theorem seed_idempotent_witness:
  "\<exists>w v f. seed_data (sample_env sample_claims) (sample_world demo_db) = (w, Inr ()) \<and>
     seed_data (sample_env sample_claims) w = (v, Inr ()) \<and>
     w_db v = (w_db w)\<lparr>tenants := map f (tenants (w_db w))\<rparr>"
proof -
  from sample_seeded obtain w v where run: "seed_data (sample_env sample_claims) (sample_world demo_db) = (w, Inr ())"
      "w_faults w = []" "seed_data (sample_env sample_claims) w = (v, Inr ())" by blast
  from seed_idempotent [OF sample_argon2_len run(1) refl run(2,3)] run show ?thesis by blast
qed

end
