(* ===== verification/Threads.thy ===== *)
theory Threads
  imports Prelude
begin

text \<open>
  Requests that run at the same time. A \<open>thread\<close> is an action cut into its statements: each step
  is one statement of the database together with the code up to the next one, and between two steps
  of a thread other threads may run. \<open>alone\<close> runs a thread without interruption, which gives back
  the action of the sequential model; \<open>schedule\<close> runs a pool of threads in the order of a list of
  their numbers, so a property of all interleavings is a property of all such lists.

  \<open>one_shot\<close> is the contract of a statement that claims something once: of all threads that start
  with the claim, at most one gets past it, whatever the schedule.
\<close>

section \<open>Threads\<close>

datatype ('s, 'e, 'a) thread = Done "'e + 'a" | Stmt "'s \<Rightarrow> 's \<times> ('s, 'e, 'a) thread"

lemma thread_induct [case_names Done Stmt]:
  assumes "\<And>r. P (Done r)" and "\<And>f. (\<And>s s' t. f s = (s', t) \<Longrightarrow> P t) \<Longrightarrow> P (Stmt f)"
  shows "P t"
proof (induction t)
  case (Stmt f)
  show ?case
  proof (rule assms(2))
    fix s s' t assume "f s = (s', t)"
    then show "P t" using Stmt.IH [OF rangeI, of t s] by (simp add: prod_set_simps)
  qed
qed (rule assms(1))

primrec alone :: "('s, 'e, 'a) thread \<Rightarrow> ('s, 'e, 'a) act" where
  "alone (Done r) = lift r"
| "alone (Stmt f) = (\<lambda>s. case map_prod id alone (f s) of (s', m) \<Rightarrow> m s')"

definition atomic :: "('s, 'e, 'a) act \<Rightarrow> ('s, 'e, 'a) thread" where
  "atomic m = Stmt (\<lambda>s. case m s of (s', r) \<Rightarrow> (s', Done r))"

primrec then_do :: "('s, 'e, 'a) thread \<Rightarrow> ('a \<Rightarrow> ('s, 'e, 'b) thread) \<Rightarrow> ('s, 'e, 'b) thread" where
  "then_do (Done r) k = (case r of Inl e \<Rightarrow> Done (Inl e) | Inr x \<Rightarrow> k x)"
| "then_do (Stmt f) k = Stmt (\<lambda>s. map_prod id (\<lambda>t. then_do t k) (f s))"

primrec err_map :: "('e \<Rightarrow> 'f) \<Rightarrow> ('s, 'e, 'a) thread \<Rightarrow> ('s, 'f, 'a) thread" where
  "err_map g (Done r) = Done (case r of Inl e \<Rightarrow> Inl (g e) | Inr x \<Rightarrow> Inr x)"
| "err_map g (Stmt f) = Stmt (\<lambda>s. map_prod id (err_map g) (f s))"

lemma lift_result [simp]: "lift (Inr x) = ret x" "lift (Inl e) = raise e"
  by (rule ext, simp)+

lemma alone_atomic [simp]: "alone (atomic m) = m"
  by (rule ext) (simp add: atomic_def lift_def split: prod.splits)

lemma alone_then_do [simp]: "alone (then_do t k) = bind_act (alone t) (\<lambda>x. alone (k x))"
proof (induction t rule: thread_induct)
  case (Done r)
  show ?case by (rule ext) (cases r; simp add: bind_act_def)
next
  case (Stmt f)
  show ?case
  proof (rule ext)
    fix s obtain s' t where f: "f s = (s', t)" by fastforce
    show "alone (then_do (Stmt f) k) s = bind_act (alone (Stmt f)) (\<lambda>x. alone (k x)) s"
      by (simp add: bind_act_def f Stmt.IH [OF f])
  qed
qed

lemma alone_err_map [simp]: "alone (err_map g t) = map_err g (alone t)"
proof (induction t rule: thread_induct)
  case (Done r)
  show ?case by (rule ext) (cases r; simp add: map_err_def)
next
  case (Stmt f)
  show ?case
  proof (rule ext)
    fix s obtain s' t where f: "f s = (s', t)" by fastforce
    show "alone (err_map g (Stmt f)) s = map_err g (alone (Stmt f)) s"
      by (simp add: map_err_def f Stmt.IH [OF f])
  qed
qed

section \<open>Schedules\<close>

definition step_thread :: "nat \<Rightarrow> 's \<times> ('s, 'e, 'a) thread list \<Rightarrow> 's \<times> ('s, 'e, 'a) thread list" where
  "step_thread k c =
     (if k < length (snd c)
      then (case snd c ! k of
              Done r \<Rightarrow> c
            | Stmt f \<Rightarrow> (case f (fst c) of (s', t) \<Rightarrow> (s', (snd c)[k := t])))
      else c)"

definition schedule :: "nat list \<Rightarrow> 's \<times> ('s, 'e, 'a) thread list \<Rightarrow> 's \<times> ('s, 'e, 'a) thread list" where
  "schedule ks c = fold step_thread ks c"

lemma schedule_simps [simp]:
  "schedule [] c = c" "schedule (k # ks) c = schedule ks (step_thread k c)"
  "schedule (ks @ js) c = schedule js (schedule ks c)"
  by (simp_all add: schedule_def)

lemma step_thread_Stmt:
  "k < length p \<Longrightarrow> p ! k = Stmt f \<Longrightarrow> f s = (s', t) \<Longrightarrow> step_thread k (s, p) = (s', p[k := t])"
  by (simp add: step_thread_def)

lemma done_stays: "p ! k = Done r \<Longrightarrow> schedule ks (s, p) = (s', q) \<Longrightarrow> q ! k = Done r"
proof (induction ks arbitrary: s p)
  case (Cons j ks)
  obtain v r' where step: "step_thread j (s, p) = (v, r')" by fastforce
  then have "r' ! k = Done r"
    using Cons.prems(1) by (cases "j = k") (auto simp: step_thread_def split: if_splits thread.splits prod.splits)
  with Cons.IH [of r' v] Cons.prems(2) step show ?case by simp
qed simp

lemma step_atomic:
  "k < length p \<Longrightarrow> p ! k = atomic m \<Longrightarrow> m s = (s', r) \<Longrightarrow> step_thread k (s, p) = (s', p[k := Done r])"
  by (simp add: step_thread_def atomic_def)

lemma step_then_do:
  "k < length p \<Longrightarrow> p ! k = then_do (atomic m) f \<Longrightarrow> m s = (s', Inr x) \<Longrightarrow> step_thread k (s, p) = (s', p[k := f x])"
  by (simp add: step_thread_def atomic_def)

text \<open>A thread that is left alone for long enough finishes as the sequential action does.\<close>

lemma serial_schedule:
  assumes "k < length p" and "p ! k = t"
  shows "\<exists>ks. schedule ks (s, p) = (fst (alone t s), p[k := Done (snd (alone t s))])"
  using assms
proof (induction t arbitrary: s p rule: thread_induct)
  case (Done r)
  then have "p[k := Done r] = p" by (metis list_update_id)
  then show ?case by (intro exI [of _ "[]"]) simp
next
  case (Stmt f)
  obtain s' t where f: "f s = (s', t)" by fastforce
  have "\<exists>ks. schedule ks (s', p[k := t]) = (fst (alone t s'), p[k := t, k := Done (snd (alone t s'))])"
    by (rule Stmt.IH [OF f]) (use Stmt.prems in simp_all)
  then obtain ks where "schedule ks (s', p[k := t]) = (fst (alone t s'), p[k := Done (snd (alone t s'))])" by auto
  then show ?case
    by (intro exI [of _ "k # ks"]) (simp add: step_thread_Stmt [OF Stmt.prems f] f)
qed

text \<open>The first part of a thread can be run and the thread then held.\<close>

lemma first_part_schedule:
  assumes "k < length p" and "p ! k = then_do t f" and "alone t s = (s', Inr x)"
  shows "\<exists>ks. schedule ks (s, p) = (s', p[k := f x])"
  using assms
proof (induction t arbitrary: s p rule: thread_induct)
  case (Done r)
  then show ?case by (intro exI [of _ "[]"]) (simp, metis list_update_id)
next
  case (Stmt g)
  obtain v t where g: "g s = (v, t)" by fastforce
  have "\<exists>ks. schedule ks (v, p[k := then_do t f]) = (s', p[k := then_do t f, k := f x])"
    by (rule Stmt.IH [OF g]) (use Stmt.prems g in simp_all)
  then obtain ks where "schedule ks (v, p[k := then_do t f]) = (s', p[k := f x])" by auto
  then show ?case
    using Stmt.prems(1,2) g by (intro exI [of _ "k # ks"]) (simp add: step_thread_def)
qed

section \<open>What every interleaving keeps\<close>

primrec keeps_thread :: "('s \<Rightarrow> 's \<Rightarrow> bool) \<Rightarrow> ('s, 'e, 'a) thread \<Rightarrow> bool" where
  "keeps_thread R (Done r) = True"
| "keeps_thread R (Stmt f) = (\<forall>s. R s (fst (f s)) \<and> snd (map_prod id (keeps_thread R) (f s)))"

lemma keeps_threadD:
  "keeps_thread R (Stmt f) \<Longrightarrow> f s = (s', t) \<Longrightarrow> R s s' \<and> keeps_thread R t"
  by (drule iffD1 [OF keeps_thread.simps(2)], drule spec [of _ s]) simp

lemma keeps_thread_atomic: "keeps R m \<Longrightarrow> keeps_thread R (atomic m)"
  by (simp add: atomic_def keeps_def split: prod.splits) (metis fst_conv)

lemma keeps_thread_then_do:
  "keeps_thread R t \<Longrightarrow> (\<And>x. keeps_thread R (k x)) \<Longrightarrow> keeps_thread R (then_do t k)"
proof (induction t rule: thread_induct)
  case (Stmt f)
  have "R s (fst (f s)) \<and> keeps_thread R (then_do (snd (f s)) k)" for s
    using keeps_threadD [OF Stmt.prems(1), of s] Stmt.IH [of s] Stmt.prems(2) by (cases "f s") simp
  then show ?case by simp
qed (simp split: sum.split)

lemma keeps_thread_err_map: "keeps_thread R t \<Longrightarrow> keeps_thread R (err_map g t)"
proof (induction t rule: thread_induct)
  case (Stmt f)
  have "R s (fst (f s)) \<and> keeps_thread R (err_map g (snd (f s)))" for s
    using keeps_threadD [OF Stmt.prems, of s] Stmt.IH [of s] by (cases "f s") simp
  then show ?case by simp
qed simp

lemmas keeps_thread_rules = keeps_thread_then_do keeps_thread_err_map keeps_thread_atomic

definition all_keep :: "('s \<Rightarrow> 's \<Rightarrow> bool) \<Rightarrow> ('s, 'e, 'a) thread list \<Rightarrow> bool" where
  "all_keep R p = list_all (keeps_thread R) p"

lemma step_thread_cases:
  assumes "step_thread k (s, p) = (s', q)"
  obtains "s' = s" and "q = p"
  | f t where "k < length p" and "p ! k = Stmt f" and "f s = (s', t)" and "q = p[k := t]"
  using assms by (cases "p ! k") (auto simp: step_thread_def split: if_splits prod.splits)

lemma step_thread_keeps:
  assumes "all_keep R p" and "\<And>s. R s s" and "step_thread k (s, p) = (s', q)"
  shows "R s s' \<and> all_keep R q \<and> length q = length p"
  using assms(3)
proof (cases rule: step_thread_cases)
  case (2 f t)
  have "keeps_thread R (Stmt f)" using assms(1) 2(1,2) by (metis all_keep_def list_all_length)
  from keeps_threadD [OF this 2(3)] have "R s s' \<and> keeps_thread R t" .
  with 2(4) assms(1) show ?thesis
    using set_update_subset_insert [of p k t] by (auto simp: all_keep_def list_all_iff)
qed (use assms in simp_all)

context transition
begin

lemma schedule_keeps: "all_keep R p \<Longrightarrow> schedule ks (s, p) = (s', q) \<Longrightarrow> R s s'"
proof (induction ks arbitrary: s p)
  case (Cons k ks)
  obtain v r where step: "step_thread k (s, p) = (v, r)" by fastforce
  have "R s v" "all_keep R r" using step_thread_keeps [OF Cons.prems(1) stay step] by simp_all
  with Cons.IH [of r v] Cons.prems(2) step chain show ?case by simp
qed (simp add: stay)

end

section \<open>Statements that claim something once\<close>

definition contends :: "('s, 'e, 'a) act \<Rightarrow> ('s, 'e, 'b) thread \<Rightarrow> bool" where
  "contends m t \<longleftrightarrow> (\<exists>k. t = then_do (atomic m) k)"

definition won :: "('s, 'e, 'a) thread \<Rightarrow> bool" where
  "won t = (case t of Done r \<Rightarrow> \<not> isl r | Stmt f \<Rightarrow> False)"

locale one_shot = transition R for R :: "'s \<Rightarrow> 's \<Rightarrow> bool" +
  fixes m :: "('s, 'e, 'a) act"
    and spent :: "'s \<Rightarrow> bool"
  assumes claimed: "m s = (s', Inr x) \<Longrightarrow> spent s'"
    and refused: "spent s \<Longrightarrow> isl (snd (m s))"
    and spent_kept: "R s s' \<Longrightarrow> spent s \<Longrightarrow> spent s'"
begin

text \<open>The invariant of a schedule that starts with the pool \<open>p\<close>: who contends is still at the claim,
  was refused, or is the one that got past it, and then the claim is spent.\<close>

lemma one_winner_step:
  assumes keep: "all_keep R q" and len: "length q = length p"
    and state: "\<And>i. i < length p \<Longrightarrow> contends m (p ! i) \<Longrightarrow> q ! i = p ! i \<or> (\<exists>e. q ! i = Done (Inl e)) \<or> w = Some i"
    and win: "w \<noteq> None \<Longrightarrow> spent s"
    and step: "step_thread k (s, q) = (s', q')"
  shows "\<exists>w'. (\<forall>i < length p. contends m (p ! i) \<longrightarrow> q' ! i = p ! i \<or> (\<exists>e. q' ! i = Done (Inl e)) \<or> w' = Some i) \<and>
     (w' \<noteq> None \<longrightarrow> spent s')"
  using step
proof (cases rule: step_thread_cases)
  case 1
  then show ?thesis using state win by (intro exI [of _ w]) simp
next
  case (2 f t)
  have kept: "w \<noteq> None \<Longrightarrow> spent s'" using win spent_kept step_thread_keeps [OF keep stay step] by blast
  have others: "i \<noteq> k \<Longrightarrow> q' ! i = q ! i" for i using 2 by simp
  have mine: "q' ! k = t" using 2 by simp
  show ?thesis
  proof (cases "contends m (p ! k) \<and> w \<noteq> Some k")
    case False
    then show ?thesis using state kept others by (intro exI [of _ w]) metis
  next
    case True
    with state [of k] 2 len have "q ! k = p ! k" by auto
    with True 2 obtain g where f: "f = (\<lambda>s. map_prod id (\<lambda>t. then_do t g) (case m s of (s', r) \<Rightarrow> (s', Done r)))"
      by (auto simp: contends_def atomic_def)
    obtain r where m: "m s = (s', r)" and t: "t = then_do (Done r) g"
      using 2(3) by (cases "m s") (auto simp: f)
    show ?thesis
    proof (cases r)
      case (Inl e)
      then have "q' ! k = Done (Inl e)" using mine t by simp
      then show ?thesis using state kept others by (intro exI [of _ w]) metis
    next
      case (Inr x)
      then have "w = None" using refused [of s] win m by (cases w) auto
      moreover have "spent s'" using claimed m Inr by simp
      ultimately show ?thesis using state others by (intro exI [of _ "Some k"]) (metis option.distinct(1))
    qed
  qed
qed

lemma one_winner:
  assumes "all_keep R q" and "length q = length p"
    and "\<And>i. i < length p \<Longrightarrow> contends m (p ! i) \<Longrightarrow> q ! i = p ! i \<or> (\<exists>e. q ! i = Done (Inl e)) \<or> w = Some i"
    and "w \<noteq> None \<Longrightarrow> spent s"
    and "schedule ks (s, q) = (s', q')"
  shows "\<exists>w'. \<forall>i < length p. contends m (p ! i) \<longrightarrow> q' ! i = p ! i \<or> (\<exists>e. q' ! i = Done (Inl e)) \<or> w' = Some i"
  using assms
proof (induction ks arbitrary: s q w)
  case (Cons k ks)
  obtain v r where step: "step_thread k (s, q) = (v, r)" by fastforce
  from one_winner_step [OF Cons.prems(1-4) step] obtain w' where later:
    "\<forall>i < length p. contends m (p ! i) \<longrightarrow> r ! i = p ! i \<or> (\<exists>e. r ! i = Done (Inl e)) \<or> w' = Some i"
    "w' \<noteq> None \<longrightarrow> spent v" by blast
  have "all_keep R r" "length r = length p"
    using step_thread_keeps [OF Cons.prems(1) stay step] Cons.prems(2) by simp_all
  moreover have "schedule ks (v, r) = (s', q')" using Cons.prems(5) step by simp
  ultimately show ?case
    by (intro Cons.IH [of r w' v]) (use later in blast)+
next
  case Nil
  then have "q' = q" by simp
  then show ?case using Nil.prems(3) by blast
qed

lemma at_most_once:
  assumes "all_keep R p" and "schedule ks (s, p) = (s', q)"
    and "i < length p" and "contends m (p ! i)" and "won (q ! i)"
    and "j < length p" and "contends m (p ! j)" and "won (q ! j)"
  shows "i = j"
proof -
  from one_winner [OF assms(1) refl, where w = None, OF _ _ assms(2)] obtain w where
    w: "\<And>i. i < length p \<Longrightarrow> contends m (p ! i) \<Longrightarrow> q ! i = p ! i \<or> (\<exists>e. q ! i = Done (Inl e)) \<or> w = Some i" by auto
  have lost: "\<not> won t" if "contends m t" for t :: "('s, 'e, 'b) thread"
    using that by (auto simp: contends_def atomic_def won_def)
  have "w = Some i" using w [OF assms(3,4)] assms(5) lost [OF assms(4)] by (auto simp: won_def)
  moreover have "w = Some j" using w [OF assms(6,7)] assms(8) lost [OF assms(7)] by (auto simp: won_def)
  ultimately show ?thesis by simp
qed

end

end
