(* ===== verification/Races.thy ===== *)
theory Races
  imports Threads OrderLife
begin

text \<open>
  Requests whose statements interleave. The threads here are the functions of the services cut at
  their statements, one \<open>atomic\<close> each, and \<open>alone\<close> gives back the sequential definition. Rotating a
  refresh token and consuming a mailed token are single UPDATE statements, so of all requests with
  one token at most one succeeds (\<open>refresh_at_most_once\<close>). The check and the write of a status change
  are two statements without a transaction, so the table of transitions can be passed by
  (\<open>status_race\<close>), and so are the look-up of an SKU and the insert of a product (\<open>sku_race\<close>).
\<close>

section \<open>Tokens\<close>

definition Refresh_thread ::
  "'z auth_env_scheme \<Rightarrow> token_manager \<Rightarrow> string \<Rightarrow> (world, go_err, token_pair) thread" where
  "Refresh_thread E m refreshToken =
     then_do (atomic (or_else (RotateRefresh (HashToken E refreshToken)) (Unauthorized ''invalid refresh token''))) (\<lambda>i.
     then_do (atomic (or_else (TenantByID i) (Unauthorized ''invalid refresh token''))) (\<lambda>t.
     atomic (issuePair E m t)))"

definition Reset_thread :: "'z auth_env_scheme \<Rightarrow> string \<Rightarrow> string \<Rightarrow> (world, go_err, unit) thread" where
  "Reset_thread E token newPw =
     (if 8 \<le> length newPw
      then then_do (atomic (or_else (ConsumeAuthToken ''reset_password'' (HashToken E token))
                    (BadRequest ''invalid or expired reset token''))) (\<lambda>tenantID.
           atomic (bind_act (HashPassword E newPw) (\<lambda>hash. UpdatePassword tenantID hash)))
      else Done (Inl (Validation [(''password'', ''must be at least 8 characters'')])))"

lemma alone_Refresh: "alone (Refresh_thread E m tok) = auth_Refresh E m tok"
  by (simp add: Refresh_thread_def auth_Refresh_def)

lemma alone_Reset: "alone (Reset_thread E tok pw) = ResetPassword E tok pw"
  by (rule ext) (simp add: Reset_thread_def ResetPassword_def bind_check)

lemma spent_token_threads:
  "keeps_thread keeps_spent (Refresh_thread E m tok)" "keeps_thread keeps_spent (Reset_thread E tok pw)"
proof -
  show "keeps_thread keeps_spent (Refresh_thread E m tok)"
    unfolding Refresh_thread_def TenantByID_def by (intro keeps_thread_rules spent_store spent_issuePair)
  have "keeps keeps_spent (bind_act (HashPassword E pw) (\<lambda>hash. UpdatePassword i hash))" for i
    unfolding UpdatePassword_def by (intro spent_store)
  then show "keeps_thread keeps_spent (Reset_thread E tok pw)"
    unfolding Reset_thread_def
    by (simp add: keeps_thread_then_do keeps_thread_atomic spent_store)
qed

lemma contends_Refresh:
  "contends (or_else (RotateRefresh (HashToken E tok)) (Unauthorized ''invalid refresh token'')) (Refresh_thread E m tok)"
  by (auto simp: contends_def Refresh_thread_def)

lemma contends_Reset:
  "8 \<le> length pw \<Longrightarrow>
   contends (or_else (ConsumeAuthToken ''reset_password'' (HashToken E tok)) (BadRequest ''invalid or expired reset token''))
     (Reset_thread E tok pw)"
  by (auto simp: contends_def Reset_thread_def)

lemma reset_contends:
  assumes "p ! k = Reset_thread E tok pw" and "won (snd (schedule ks (w, p)) ! k)"
  shows "contends (or_else (ConsumeAuthToken ''reset_password'' (HashToken E tok))
    (BadRequest ''invalid or expired reset token'')) (p ! k)"
proof -
  have "8 \<le> length pw"
  proof (rule ccontr)
    assume "\<not> 8 \<le> length pw"
    with assms(1) obtain e where "p ! k = Done (Inl e)" by (simp add: Reset_thread_def)
    from done_stays [OF this prod.collapse [symmetric]] assms(2) show False by (auto simp: won_def)
  qed
  then show ?thesis unfolding assms(1) by (rule contends_Reset)
qed

lemma card_at_most_one: "(\<And>i j. P i \<Longrightarrow> P j \<Longrightarrow> i = j) \<Longrightarrow> card {i. P i} \<le> 1"
  by (cases "finite {i. P i}") (auto simp: card_le_Suc0_iff_eq)

lemma or_else_isl: "isl (snd (or_else a e s)) = isl (snd (a s))"
  by (cases "a s"; cases "snd (a s)") (auto simp: or_else_def map_err_def)

interpretation refresh_claim: one_shot keeps_spent
  "or_else (RotateRefresh h) e" "\<lambda>w. db_ok (w_db w) \<and> refresh_spent h (w_db w)" for h e
proof unfold_locales
  show "db_ok (w_db w') \<and> refresh_spent h (w_db w')" if "or_else (RotateRefresh h) e w = (w', Inr x)" for w w' x
  proof -
    from that have run: "RotateRefresh h w = (w', Inr x)" by simp
    then have "db_ok (w_db w')"
      unfolding RotateRefresh_def by (auto simp: bind_Inr_iff now_run split: option.splits elim!: sql_InrE)
    with RotateRefresh_spends(1) [OF run] show ?thesis by simp
  qed
qed (auto simp: or_else_isl RotateRefresh_spent keeps_spent_def on_db_def keeps_spent_db_def)

interpretation reset_claim: one_shot keeps_spent
  "or_else (ConsumeAuthToken p h) e" "\<lambda>w. db_ok (w_db w) \<and> auth_spent h (w_db w)" for p h e
proof unfold_locales
  show "db_ok (w_db w') \<and> auth_spent h (w_db w')" if "or_else (ConsumeAuthToken p h) e w = (w', Inr x)" for w w' x
  proof -
    from that have run: "ConsumeAuthToken p h w = (w', Inr x)" by simp
    then have "db_ok (w_db w')"
      unfolding ConsumeAuthToken_def by (auto simp: bind_Inr_iff now_run split: option.splits elim!: sql_InrE)
    with ConsumeAuthToken_spends(1) [OF run] show ?thesis by simp
  qed
qed (auto simp: or_else_isl ConsumeAuthToken_spent keeps_spent_def on_db_def keeps_spent_db_def)

text \<open>C4: However the statements of concurrent requests interleave, and whatever other requests run that keep
  spent tokens spent, of all the requests that present the same refresh token at most one gets a
  new pair, and of all the requests that present the same reset token at most one sets a password.\<close>

theorem tokens_at_most_once:
  assumes "all_keep keeps_spent p" and "all_keep keeps_spent p'"
  shows "card {i. i < length p \<and> p ! i = Refresh_thread E m tok \<and> won (snd (schedule ks (w, p)) ! i)} \<le> 1 \<and>
     card {i. i < length p' \<and> (\<exists>pw. p' ! i = Reset_thread E tok pw) \<and> won (snd (schedule ks (w, p')) ! i)} \<le> 1"
proof (intro conjI card_at_most_one)
  fix i j assume "i < length p \<and> p ! i = Refresh_thread E m tok \<and> won (snd (schedule ks (w, p)) ! i)"
    "j < length p \<and> p ! j = Refresh_thread E m tok \<and> won (snd (schedule ks (w, p)) ! j)"
  then show "i = j"
    using refresh_claim.at_most_once [OF assms(1) prod.collapse [symmetric], of i _ _ ks w j] contends_Refresh by metis
next
  fix i j assume "i < length p' \<and> (\<exists>pw. p' ! i = Reset_thread E tok pw) \<and> won (snd (schedule ks (w, p')) ! i)"
    "j < length p' \<and> (\<exists>pw. p' ! j = Reset_thread E tok pw) \<and> won (snd (schedule ks (w, p')) ! j)"
  then show "i = j"
    using reset_claim.at_most_once [OF assms(2) prod.collapse [symmetric], of i _ _ _ ks w j] reset_contends
    by metis
qed

theorem tokens_at_most_once_witness:
  "let E = sample_env sample_claims;
       p = replicate 3 (Refresh_thread E sample_tm ''tok'');
       p' = [Reset_thread E ''tok'' ''password'', Reset_thread E ''tok'' ''other pass''];
       ks = [2, 0, 1, 0, 2, 1, 0, 1, 2]; w = sample_world sample_db
   in card {i. i < length p \<and> p ! i = Refresh_thread E sample_tm ''tok'' \<and> won (snd (schedule ks (w, p)) ! i)} \<le> 1 \<and>
      card {i. i < length p' \<and> (\<exists>pw. p' ! i = Reset_thread E ''tok'' pw) \<and> won (snd (schedule ks (w, p')) ! i)} \<le> 1"
  unfolding Let_def
  by (rule tokens_at_most_once) (simp_all add: all_keep_def spent_token_threads list_all_iff)

section \<open>Changes of status\<close>

definition loadChildren_thread :: "'z env_scheme \<Rightarrow> order \<Rightarrow> (world, go_err, order) thread" where
  "loadChildren_thread E o1 =
     then_do (atomic (sel (\<lambda>d. map (item_of_row E)
       (sort_key it_id (filter (\<lambda>r. it_order r = od_id o1) (order_items d)))))) (\<lambda>items.
     then_do (atomic (sel (\<lambda>d. map (payment_of_row E)
       (order_desc pm_created (filter (\<lambda>r. pm_order r = od_id o1) (payments d)))))) (\<lambda>pays.
     Done (Inr (o1\<lparr>od_items := items, od_payments := pays\<rparr>))))"

definition Get_thread :: "'z env_scheme \<Rightarrow> uuid \<Rightarrow> uuid \<Rightarrow> (world, go_err, order) thread" where
  "Get_thread E tenantID i =
     then_do (atomic (query_row POrders (\<lambda>d. map_option (order_of_row E) (find (own_order tenantID i) (orders d)))))
       (loadChildren_thread E)"

definition write_status_thread :: "'z env_scheme \<Rightarrow> uuid \<Rightarrow> uuid \<Rightarrow> string \<Rightarrow> (world, go_err, order) thread" where
  "write_status_thread E tenantID i to =
     then_do (atomic (map_err ordersErr (repo_UpdateStatus tenantID i to))) (\<lambda>_. Get_thread E tenantID i)"

definition UpdateStatus_thread :: "'z env_scheme \<Rightarrow> uuid \<Rightarrow> uuid \<Rightarrow> string \<Rightarrow> (world, go_err, order) thread" where
  "UpdateStatus_thread E tenantID i to =
     then_do (err_map ordersErr (Get_thread E tenantID i)) (\<lambda>o1.
     if od_status o1 = to then Done (Inr o1)
     else if \<not> CanTransition (od_status o1) to then
       Done (Inl (BadRequest (''invalid status transition: '' @ od_status o1 @ '' -> '' @ to)))
     else
       write_status_thread E tenantID i to)"

lemma alone_Get: "alone (Get_thread E t i) = repo_Get E t i"
proof -
  have "alone (loadChildren_thread E o1) = loadChildren E o1" for o1
    unfolding loadChildren_thread_def loadChildren_def by (intro ext) (simp add: bind_act_def)
  then show ?thesis by (simp add: Get_thread_def repo_Get_def)
qed

lemma alone_UpdateStatus: "alone (UpdateStatus_thread E t i to) = UpdateStatus E t i to"
  by (rule ext) (auto simp: UpdateStatus_thread_def write_status_thread_def UpdateStatus_def alone_Get bind_act_def
      split: prod.splits sum.splits)

text \<open>The thread up to the check, and from the write on.\<close>

lemma status_checked:
  assumes "w_faults w = []" and "find (own_order t i) (orders (w_db w)) = Some r" and "to \<in> set (transitions (or_status r))"
    and "k < length p" and "p ! k = UpdateStatus_thread E t i to"
  shows "\<exists>ks. schedule ks (w, p) = (w, p[k := write_status_thread E t i to])"
proof -
  have can: "CanTransition (or_status r) to" using assms(3) by (simp add: CanTransition_def list_ex_iff)
  then have "or_status r \<noteq> to" by (auto simp: CanTransition_iff)
  moreover have "alone (err_map ordersErr (Get_thread E t i)) w = (w, Inr (full_order E (w_db w) r))"
    using assms(1,2) by (simp add: alone_Get map_err_def repo_Get_ok)
  ultimately show ?thesis
    using first_part_schedule [OF assms(4) assms(5) [unfolded UpdateStatus_thread_def]] can by fastforce
qed

lemma status_written:
  assumes "w_faults w = []" and "db_ok (w_db w)" and "find (own_order t i) (orders (w_db w)) = Some r"
    and "to \<in> set order_statuses" and "k < length p" and "p ! k = write_status_thread E t i to"
  shows "\<exists>ks o1. schedule ks (w, p) = (with_status t i to w, p[k := Done (Inr o1)]) \<and> od_status o1 = to"
proof -
  let ?w = "with_status t i to w"
  have "alone (write_status_thread E t i to) w = (?w, Inr (full_order E (w_db ?w) (r\<lparr>or_status := to\<rparr>)))"
    using repo_UpdateStatus_ok [OF assms(1-4)] assms(1,3)
    by (simp add: write_status_thread_def alone_Get bind_act_def map_err_def repo_Get_ok find_with_status)
  with serial_schedule [OF assms(5,6), of w] show ?thesis by fastforce
qed


text \<open>C6: Two changes of status that both start from the present status of an order can both be answered with
  success, the second one from a status that does not allow it: the check and the write are two
  statements without a transaction. So a sale that was cancelled comes back as paid.\<close>

theorem status_race:
  assumes "w_faults w = []" and "db_ok (w_db w)" and "find (own_order t i) (orders (w_db w)) = Some r"
    and "a \<in> set (transitions (or_status r))" and "b \<in> set (transitions (or_status r))"
  shows "\<exists>ks1 ks2 o1 o2 w1 w2 u.
      schedule ks1 (w, [UpdateStatus_thread E t i a, UpdateStatus_thread E t i b]) = (w1, [Done (Inr o1), u]) \<and>
      schedule ks2 (w1, [Done (Inr o1), u]) = (w2, [Done (Inr o1), Done (Inr o2)]) \<and>
      w1 = with_status t i a w \<and> od_status o1 = a \<and> w2 = with_status t i b w1 \<and> od_status o2 = b"
proof -
  let ?A = "UpdateStatus_thread E t i a" and ?B = "UpdateStatus_thread E t i b"
  let ?a = "write_status_thread E t i a" and ?b = "write_status_thread E t i b"
  let ?w1 = "with_status t i a w"
  have status: "a \<in> set order_statuses" "b \<in> set order_statuses"
    using assms(4,5) by (simp_all add: CanTransition_status CanTransition_def list_ex_iff)
  obtain js where js: "schedule js (w, [?A, ?B]) = (w, [?A, ?b])"
    using status_checked [OF assms(1,3,5), of 1 "[?A, ?B]" E] by auto
  obtain ks where ks: "schedule ks (w, [?A, ?b]) = (w, [?a, ?b])"
    using status_checked [OF assms(1,3,4), of 0 "[?A, ?b]" E] by auto
  obtain ls o1 where ls: "schedule ls (w, [?a, ?b]) = (?w1, [Done (Inr o1), ?b])" "od_status o1 = a"
    using status_written [OF assms(1-3) status(1), of 0 "[?a, ?b]" E] by auto
  have "find (own_order t i) (orders (w_db ?w1)) = Some (r\<lparr>or_status := a\<rparr>)"
    using assms(3) by (simp add: find_with_status)
  from status_written [OF _ db_ok_with_status [OF assms(2) status(1)] this status(2), of 1 "[Done (Inr o1), ?b]" E]
  obtain ms o2 where ms: "schedule ms (?w1, [Done (Inr o1), ?b]) = (with_status t i b ?w1, [Done (Inr o1), Done (Inr o2)])"
      "od_status o2 = b" using assms(1) by auto
  have "schedule (js @ ks @ ls) (w, [?A, ?B]) = (?w1, [Done (Inr o1), ?b])" using js ks ls by simp
  with ls(2) ms show ?thesis by blast
qed

theorem status_race_witness:
  "\<exists>ks w2 o1 o2. schedule ks (sample_world sample_orders,
       [UpdateStatus_thread (sample_env sample_claims) 7 9 ''cancelled'',
        UpdateStatus_thread (sample_env sample_claims) 7 9 ''payment_received'']) =
     (w2, [Done (Inr o1), Done (Inr o2)]) \<and>
     od_status o1 = ''cancelled'' \<and> od_status o2 = ''payment_received'' \<and> \<not> CanTransition (od_status o1) (od_status o2)"
proof -
  have race: "''cancelled'' \<in> set (transitions (or_status sample_order))"
    "''payment_received'' \<in> set (transitions (or_status sample_order))"
    by (simp_all add: sample_order_def transitions_def)
  have "\<not> CanTransition ''cancelled'' ''payment_received''" by (simp add: CanTransition_iff)
  with status_race [OF sample_world_simps(1) _ sample_orders_find race, of "sample_env sample_claims"] sample_orders_ok
  show ?thesis by (metis schedule_simps(3) sample_world_simps(2))
qed


section \<open>Products with one SKU\<close>

definition insert_product :: "'z env_scheme \<Rightarrow> uuid \<Rightarrow> product_input \<Rightarrow> product go" where
  "insert_product E tenantID i =
     bind_act (toUUID E (pi_category i)) (\<lambda>cat.
     (let status = (if pi_status i = '''' then ''active'' else pi_status i);
          slug = (if pi_slug i = '''' then slugify (pi_name i) else pi_slug i)
      in bind_act (repo_CreateProduct E
           \<lparr>pd_id = uuid_Nil, pd_tenant = tenantID, pd_category = cat, pd_category_name = '''', pd_sku = pi_sku i,
            pd_name = pi_name i, pd_desc = pi_desc i, pd_price = pi_price i, pd_slug = slug, pd_image = '''',
            pd_image_url = '''', pd_status = status, pd_created = 0\<rparr>) (\<lambda>p.
         bind_act now (\<lambda>n.
         bind_act (Emit (ProductCreated E tenantID (pd_id p) n)) (\<lambda>_. ret p)))))"

definition CreateProduct_thread :: "'z env_scheme \<Rightarrow> uuid \<Rightarrow> product_input \<Rightarrow> (world, go_err, product) thread" where
  "CreateProduct_thread E tenantID i =
     then_do (atomic (bind_act (validateProduct i) (\<lambda>_.
       bind_act (attempt (repo_GetProductBySKU E tenantID (pi_sku i))) (\<lambda>r.
       check (isl r) (Conflict ''a product with this SKU already exists''))))) (\<lambda>_.
     atomic (insert_product E tenantID i))"

lemma alone_CreateProduct: "alone (CreateProduct_thread E t i) = CreateProduct E t i"
  by (simp add: CreateProduct_thread_def CreateProduct_def insert_product_def bind_assoc)

definition sample_input :: "string \<Rightarrow> product_input" where
  "sample_input sku =
     \<lparr>pi_category = '''', pi_sku = sku, pi_name = ''Kopi'', pi_desc = '''', pi_price = Fin 5, pi_slug = ''kopi'',
      pi_status = ''''\<rparr>"

lemma sample_trimmed:
  "TrimSpace ''Kopi'' = ''Kopi''" "TrimSpace ''KL01'' = ''KL01''" "TrimSpace ''kl01'' = ''kl01''"
  by code_simp+

lemma sample_nothing: "TrimSpace '''' = ''''"
  by code_simp

lemma sample_same_sku: "ToLower ''KL01'' = ToLower ''kl01''"
  by code_simp

lemma sample_checked:
  assumes "sku \<noteq> ''''" and "TrimSpace sku = sku" and "k < length p" and "p ! k = CreateProduct_thread (sample_env C) 7 (sample_input sku)"
  shows "step_thread k (sample_world sample_db, p) =
    (sample_world sample_db, p[k := atomic (insert_product (sample_env C) 7 (sample_input sku))])"
proof (rule step_then_do [OF assms(3) assms(4) [unfolded CreateProduct_thread_def]])
  show "bind_act (validateProduct (sample_input sku)) (\<lambda>_.
      bind_act (attempt (repo_GetProductBySKU (sample_env C) 7 (pi_sku (sample_input sku)))) (\<lambda>r.
      check (isl r) (Conflict ''a product with this SKU already exists''))) (sample_world sample_db) =
    (sample_world sample_db, Inr ())"
    using assms(1,2)
    by (simp add: validateProduct_def product_fields_def sample_input_def bind_valid_or bind_act_def attempt_run
        repo_GetProductBySKU_def query_row_ok sample_db_def empty_db_def sample_trimmed)
qed

definition sample_row :: "nat \<Rightarrow> string \<Rightarrow> product_row" where
  "sample_row n sku =
     \<lparr>pr_id = of_nat (n + 1000), pr_tenant = 7, pr_category = None, pr_sku = sku, pr_name = ''Kopi'', pr_desc = '''',
      pr_price = 500, pr_slug = ''kopi'', pr_image = '''', pr_status = ''active'', pr_created = 0\<rparr>"

lemma sample_inserted:
  assumes "w_faults w = []" and "w_now w = 0" and "db_ok ((w_db w)\<lparr>products := products (w_db w) @ [sample_row (w_seed w) sku]\<rparr>)"
  shows "\<exists>w' p. insert_product (sample_env C) 7 (sample_input sku) w = (w', Inr p) \<and> w_faults w' = [] \<and> w_now w' = 0 \<and>
    w_seed w' = Suc (w_seed w) \<and> w_db w' = (w_db w)\<lparr>products := products (w_db w) @ [sample_row (w_seed w) sku]\<rparr>"
  using assms
  by (simp add: insert_product_def toUUID_def sample_input_def sample_nothing Let_def bind_act_def repo_CreateProduct_def
      num_arg_run new_uuid_run now_run sql_ok commit_def Emit_run sample_env_def sample_row_def)

text \<open>Both look-ups find nothing, both inserts succeed: two products of one seller have SKUs that differ in
  case only, which either request alone would have refused.\<close>

lemma sku_race:
  "\<exists>w' p q. schedule [0, 1, 0, 1] (sample_world sample_db,
       [CreateProduct_thread (sample_env C) 7 (sample_input ''KL01''),
        CreateProduct_thread (sample_env C) 7 (sample_input ''kl01'')]) =
     (w', [Done (Inr p), Done (Inr q)]) \<and> db_ok (w_db w') \<and> \<not> sku_unique (sample_env C) (w_db w')"
proof -
  let ?in = "\<lambda>sku. atomic (insert_product (sample_env C) 7 (sample_input sku))"
  obtain v p where one: "insert_product (sample_env C) 7 (sample_input ''KL01'') (sample_world sample_db) = (v, Inr p)"
    and v: "w_faults v = []" "w_now v = 0" "w_seed v = 1" "w_db v = sample_db\<lparr>products := [sample_row 0 ''KL01'']\<rparr>"
    using sample_inserted [of "sample_world sample_db" "''KL01''" C]
    by (auto simp: sample_world_def sample_db_def empty_db_def db_ok_defs sample_row_def sample_tenant_def)
  have ok: "db_ok (sample_db\<lparr>products := [sample_row 0 ''KL01'', sample_row 1 ''kl01'']\<rparr>)"
    by (simp add: sample_db_def empty_db_def db_ok_defs sample_row_def sample_tenant_def)
  obtain w q where two: "insert_product (sample_env C) 7 (sample_input ''kl01'') v = (w, Inr q)"
    and w: "w_db w = sample_db\<lparr>products := [sample_row 0 ''KL01'', sample_row 1 ''kl01'']\<rparr>"
    using sample_inserted [OF v(1,2), of "''kl01''" C] ok by (auto simp: v)
  have "\<not> sku_unique (sample_env C) (w_db w)"
    by (simp add: w sku_unique_def sample_row_def sample_env_def sample_same_sku)
  moreover have "schedule [0, 1, 0, 1] (sample_world sample_db,
       [CreateProduct_thread (sample_env C) 7 (sample_input ''KL01''),
        CreateProduct_thread (sample_env C) 7 (sample_input ''kl01'')]) = (w, [Done (Inr p), Done (Inr q)])"
    by (simp add: sample_checked [of "''KL01''" _ _ C] sample_checked [of "''kl01''" _ _ C] sample_trimmed step_atomic [where m = "insert_product (sample_env C) 7 (sample_input ''KL01'')", OF _ _ one]
        step_atomic [where m = "insert_product (sample_env C) 7 (sample_input ''kl01'')", OF _ _ two])
  ultimately show ?thesis using ok w by auto
qed

end
