(* ===== verification/Routes.thy ===== *)
theory Routes
  imports Service
begin

text \<open>
  The table of routes: what \<open>main\<close> and \<open>App.Mount\<close> register with the router, group by group, and how
  the requests of \<open>serve\<close> relate to it. A group has a prefix and the middlewares its routes inherit; the
  \<open>Routes\<close> function of a package lists method, pattern and handler. The handlers are looked up by
  name and take the request as it came: parameters of the path by name, query and body. \<open>requests_follow_routes\<close>:
  \<open>serve\<close> answers every request as its route says, handler and guards. \<open>route_guards_determined\<close>: whatever
  the router makes of its patterns, a method and a path meet the same guards.
  The catch-all routes that the router adds to a group with middlewares answer 404 and are left out.
\<close>

section \<open>Groups\<close>

datatype guard = Visit | Bearer | Role string | Limit

datatype package = Main | Server | Auth | Catalog | Orders | Customers | Coupons | Dashboard | Assistant |
  Storefront | Enhancements

record group =
  gr_prefix :: string
  gr_guards :: "guard list"

record route =
  rt_method :: string
  rt_path :: string
  rt_guards :: "guard list"
  rt_package :: package
  rt_handler :: string

definition Group :: "group \<Rightarrow> string \<Rightarrow> group" where
  "Group g p = g\<lparr>gr_prefix := gr_prefix g @ p\<rparr>"

definition Use :: "group \<Rightarrow> guard list \<Rightarrow> group" where
  "Use g guards = g\<lparr>gr_guards := gr_guards g @ guards\<rparr>"

type_synonym entry = "string \<times> string \<times> string"

definition register :: "group \<Rightarrow> package \<Rightarrow> entry list \<Rightarrow> route list" where
  "register g k es =
     map (\<lambda>(meth, pattern, handler). \<lparr>rt_method = meth, rt_path = gr_prefix g @ pattern, rt_guards = gr_guards g,
       rt_package = k, rt_handler = handler\<rparr>) es"

section \<open>The request as a handler gets it\<close>

text \<open>A body binds to the structures of one shape; to any other it does not bind (None).\<close>

datatype body =
    No_body
  | B_register "register_input option"
  | B_triple "(string \<times> string \<times> string) option"
  | B_pair "(string \<times> string) option"
  | B_string "string option"
  | B_bool "bool option"
  | B_product "product_input option"
  | B_upload "upload option"
  | B_order "admin_input option"
  | B_customer "customer_input option"
  | B_coupon "coupon_input option"
  | B_action "proposed_action option"
  | B_content "(string \<times> string list \<times> string) option"
  | B_notification "notification option"
  | B_webhook "webhook_input option"

fun as_register where "as_register (B_register x) = x" | "as_register _ = None"
fun as_triple where "as_triple (B_triple x) = x" | "as_triple _ = None"
fun as_pair where "as_pair (B_pair x) = x" | "as_pair _ = None"
fun as_string where "as_string (B_string x) = x" | "as_string _ = None"
fun as_bool where "as_bool (B_bool x) = x" | "as_bool _ = None"
fun as_product where "as_product (B_product x) = x" | "as_product _ = None"
fun as_upload where "as_upload (B_upload x) = x" | "as_upload _ = None"
fun as_order where "as_order (B_order x) = x" | "as_order _ = None"
fun as_customer where "as_customer (B_customer x) = x" | "as_customer _ = None"
fun as_coupon where "as_coupon (B_coupon x) = x" | "as_coupon _ = None"
fun as_action where "as_action (B_action x) = x" | "as_action _ = None"
fun as_content where "as_content (B_content x) = x" | "as_content _ = None"
fun as_notification where "as_notification (B_notification x) = x" | "as_notification _ = None"
fun as_webhook where "as_webhook (B_webhook x) = x" | "as_webhook _ = None"

record http =
  ht_method :: string
  ht_path :: string
  ht_params :: "(string \<times> string) list"
  ht_query :: "string \<Rightarrow> string"
  ht_body :: body
  ht_signature :: string

definition Param :: "http \<Rightarrow> string \<Rightarrow> string" where
  "Param h name = (case map_of (ht_params h) name of None \<Rightarrow> '''' | Some v \<Rightarrow> v)"

section \<open>The handlers of the packages by name\<close>

type_synonym 'r endpoint = "http \<Rightarrow> identity option \<Rightarrow> 'r response go"

definition call :: "(string \<times> 'r endpoint) list \<Rightarrow> string \<Rightarrow> 'r endpoint" where
  "call ms name = (case map_of ms name of None \<Rightarrow> (\<lambda>h ctx. raise (ErrHttp 404 None)) | Some m \<Rightarrow> m)"

definition auth_methods :: "'z auth_env_scheme \<Rightarrow> token_manager \<Rightarrow> (string \<times> auth_reply endpoint) list" where
  "auth_methods E m =
     [(''register'', \<lambda>h ctx. h_register E (as_register (ht_body h))),
      (''login'', \<lambda>h ctx. h_login E m (as_triple (ht_body h))),
      (''refresh'', \<lambda>h ctx. h_refresh E m (as_string (ht_body h))),
      (''logout'', \<lambda>h ctx. h_logout E (as_string (ht_body h))),
      (''forgot'', \<lambda>h ctx. h_forgot E (as_string (ht_body h))),
      (''reset'', \<lambda>h ctx. h_reset E (as_pair (ht_body h))),
      (''verify'', \<lambda>h ctx. h_verify E (as_string (ht_body h))),
      (''me'', \<lambda>h ctx. h_me ctx),
      (''updateProfile'', \<lambda>h ctx. h_updateProfile ctx (as_triple (ht_body h))),
      (''changePassword'', \<lambda>h ctx. h_changePassword E ctx (as_pair (ht_body h)))]"

definition catalog_methods :: "'z env_scheme \<Rightarrow> storage \<Rightarrow> (string \<times> catalog_reply endpoint) list" where
  "catalog_methods E S =
     [(''listCategories'', \<lambda>h ctx. listCategories ctx),
      (''createCategory'', \<lambda>h ctx. createCategory E ctx (as_pair (ht_body h))),
      (''updateCategory'', \<lambda>h ctx. updateCategory E ctx (Param h ''id'') (as_pair (ht_body h))),
      (''deleteCategory'', \<lambda>h ctx. deleteCategory E ctx (Param h ''id'')),
      (''listProducts'', \<lambda>h ctx. listProducts E S ctx (ht_query h)),
      (''createProduct'', \<lambda>h ctx. createProduct E ctx (as_product (ht_body h))),
      (''getProduct'', \<lambda>h ctx. getProduct E S ctx (Param h ''id'')),
      (''updateProduct'', \<lambda>h ctx. updateProduct E ctx (Param h ''id'') (as_product (ht_body h))),
      (''deleteProduct'', \<lambda>h ctx. deleteProduct E ctx (Param h ''id'')),
      (''uploadImage'', \<lambda>h ctx. uploadImage E S ctx (Param h ''id'') (as_upload (ht_body h))),
      (''getProductBySKU'', \<lambda>h ctx. getProductBySKU E S ctx (Param h ''sku'')),
      (''legacyCategories'', \<lambda>h ctx. legacyCategories ctx)]"

definition orders_methods :: "'z app_env_scheme \<Rightarrow> storage \<Rightarrow> (string \<times> order_reply endpoint) list" where
  "orders_methods E S =
     [(''list'', \<lambda>h ctx. order_list E ctx (ht_query h)),
      (''listPending'', \<lambda>h ctx. listPending E ctx (ht_query h)),
      (''create'', \<lambda>h ctx. order_create E S ctx (as_order (ht_body h))),
      (''get'', \<lambda>h ctx. order_get E S ctx (Param h ''id'')),
      (''update'', \<lambda>h ctx. order_update E ctx (Param h ''id'') (as_order (ht_body h))),
      (''setStatus'', \<lambda>h ctx. setStatus E ctx (Param h ''id'') (as_string (ht_body h))),
      (''delete'', \<lambda>h ctx. order_delete E ctx (Param h ''id'')),
      (''invoicePDF'', \<lambda>h ctx. invoicePDF E S ctx (Param h ''id'')),
      (''verifyPayment'', \<lambda>h ctx. verifyPayment E ctx (Param h ''pid'') (as_bool (ht_body h))),
      (''PublicInvoice'', \<lambda>h ctx. PublicInvoice E S (Param h ''id'') (ht_query h)),
      (''PublicUploadPayment'', \<lambda>h ctx. PublicUploadPayment E S (Param h ''id'') (as_upload (ht_body h)))]"

definition customers_methods :: "'z env_scheme \<Rightarrow> (string \<times> customer_reply endpoint) list" where
  "customers_methods E =
     [(''list'', \<lambda>h ctx. customer_list E ctx (ht_query h)),
      (''create'', \<lambda>h ctx. customer_create E ctx (as_customer (ht_body h))),
      (''get'', \<lambda>h ctx. customer_get E ctx (Param h ''id'')),
      (''update'', \<lambda>h ctx. customer_update E ctx (Param h ''id'') (as_customer (ht_body h))),
      (''delete'', \<lambda>h ctx. customer_delete E ctx (Param h ''id'')),
      (''byLoyalty'', \<lambda>h ctx. byLoyalty ctx (Param h ''code''))]"

definition coupons_methods :: "'z env_scheme \<Rightarrow> (string \<times> coupon_reply endpoint) list" where
  "coupons_methods E =
     [(''list'', \<lambda>h ctx. coupon_list E ctx (ht_query h)),
      (''create'', \<lambda>h ctx. coupon_create E ctx (as_coupon (ht_body h))),
      (''get'', \<lambda>h ctx. coupon_get E ctx (Param h ''id'')),
      (''update'', \<lambda>h ctx. coupon_update E ctx (Param h ''id'') (as_coupon (ht_body h))),
      (''delete'', \<lambda>h ctx. coupon_delete E ctx (Param h ''id''))]"

definition storefront_methods :: "'z env_scheme \<Rightarrow> fts \<Rightarrow> storage \<Rightarrow> (string \<times> store_reply endpoint) list" where
  "storefront_methods E F S =
     [(''landing'', \<lambda>h ctx. landing E S (Param h ''username'')),
      (''search'', \<lambda>h ctx. store_search E F S (Param h ''username'') (ht_query h)),
      (''productDetail'', \<lambda>h ctx. productDetail E S (Param h ''username'') (Param h ''id'')),
      (''checkout'', \<lambda>h ctx. checkout E S (Param h ''username'') (as_order (ht_body h))),
      (''productBySKU'', \<lambda>h ctx. productBySKU E S (Param h ''username'') (ht_query h))]"

definition enh_methods :: "'z enh_env_scheme \<Rightarrow> storage \<Rightarrow> string \<Rightarrow> (string \<times> enh_reply endpoint) list" where
  "enh_methods E S base =
     [(''copilotExecute'', \<lambda>h ctx. copilotExecute E S ctx (as_action (ht_body h))),
      (''generateContent'', \<lambda>h ctx. generateContent (as_content (ht_body h))),
      (''analyticsInsights'', \<lambda>h ctx. analyticsInsights E ctx),
      (''recommendations'', \<lambda>h ctx. recommendations E ctx (ht_query h)),
      (''charge'', \<lambda>h ctx. charge E S base ctx (Param h ''id'') (ht_query h)),
      (''currencies'', \<lambda>h ctx. currencies),
      (''chaseCandidates'', \<lambda>h ctx. chaseCandidates E ctx (ht_query h)),
      (''track'', \<lambda>h ctx. track (as_string (ht_body h))),
      (''sendNotification'', \<lambda>h ctx. sendNotification E (as_notification (ht_body h))),
      (''paymentWebhook'', \<lambda>h ctx. paymentWebhook E (ht_signature h) (as_webhook (ht_body h))),
      (''mockHostedPage'', \<lambda>h ctx. mockHostedPage (Param h ''ref'') (ht_query h))]"

definition assistant_methods ::
  "'z server_env_scheme \<Rightarrow> app \<Rightarrow> string option \<Rightarrow> (string \<times> refusal endpoint) list" where
  "assistant_methods E a rid =
     [(''adminSearch'', \<lambda>h ctx. adminSearch E (e_rag E) (ap_rag_base a) rid ctx (as_string (ht_body h))),
      (''storefrontAsk'', \<lambda>h ctx. storefrontAsk E (e_rag E) (ap_rag_base a) rid (Param h ''username'') (as_string (ht_body h)))]"

definition enh_replies :: "'z server_env_scheme \<Rightarrow> app \<Rightarrow> (string \<times> api_reply endpoint) list" where
  "enh_replies E a =
     (''copilotInterpret'', \<lambda>h ctx.
        via R_interpret (copilotInterpret (e_letnum E) (e_to_lower E) ctx (as_string (ht_body h)))) #
     map (\<lambda>(name, m). (name, \<lambda>h ctx. via R_enh (m h ctx))) (enh_methods E (ap_store a) (ap_public_base a))"

text \<open>\<open>Mount\<close> gives each package its \<open>Handler\<close>; the methods of the server itself and of \<open>main\<close> are functions.\<close>

fun method_of ::
  "'z server_env_scheme \<Rightarrow> app \<Rightarrow> string option \<Rightarrow> package \<Rightarrow> string \<Rightarrow> api_reply endpoint" where
  "method_of E a rid Main name h ctx =
     call [(''healthz'', \<lambda>h ctx. ret (JSON 200 (R_health ''ok''))), (''readyz'', \<lambda>h ctx. readyz)] name h ctx"
| "method_of E a rid Server name h ctx =
     call [(''tenants_count'', \<lambda>h ctx. tenants_count ctx),
       (''localFileHandler'', \<lambda>h ctx. serve_file E a (Param h ''*'') (ht_query h))] name h ctx"
| "method_of E a rid Auth name h ctx = via R_auth (call (auth_methods E (ap_tokens a)) name h ctx)"
| "method_of E a rid Catalog name h ctx = via R_catalog (call (catalog_methods E (ap_store a)) name h ctx)"
| "method_of E a rid Orders name h ctx = via R_orders (call (orders_methods E (ap_store a)) name h ctx)"
| "method_of E a rid Customers name h ctx = via R_customers (call (customers_methods E) name h ctx)"
| "method_of E a rid Coupons name h ctx = via R_coupons (call (coupons_methods E) name h ctx)"
| "method_of E a rid Dashboard name h ctx = via R_counts (call [(''counts'', \<lambda>h ctx. dashboard_counts ctx)] name h ctx)"
| "method_of E a rid Assistant name h ctx = via R_assistant (call (assistant_methods E a rid) name h ctx)"
| "method_of E a rid Storefront name h ctx =
     via R_store (call (storefront_methods E (e_fts E) (ap_store a)) name h ctx)"
| "method_of E a rid Enhancements name h ctx = call (enh_replies E a) name h ctx"

section \<open>The routes of the packages\<close>

definition auth_public_table :: "entry list" where
  "auth_public_table =
     [(''POST'', ''/auth/register'', ''register''), (''POST'', ''/auth/login'', ''login''),
      (''POST'', ''/auth/refresh'', ''refresh''), (''POST'', ''/auth/logout'', ''logout''),
      (''POST'', ''/auth/forgot-password'', ''forgot''), (''POST'', ''/auth/reset-password'', ''reset''),
      (''POST'', ''/auth/verify-email'', ''verify'')]"

definition account_table :: "entry list" where
  "account_table =
     [(''GET'', ''/me'', ''me''), (''PUT'', ''/me'', ''updateProfile''),
      (''POST'', ''/auth/change-password'', ''changePassword'')]"

definition catalog_table :: "entry list" where
  "catalog_table =
     [(''GET'', ''/categories'', ''listCategories''), (''POST'', ''/categories'', ''createCategory''),
      (''PUT'', ''/categories/:id'', ''updateCategory''), (''DELETE'', ''/categories/:id'', ''deleteCategory''),
      (''GET'', ''/products'', ''listProducts''), (''POST'', ''/products'', ''createProduct''),
      (''GET'', ''/products/:id'', ''getProduct''), (''PUT'', ''/products/:id'', ''updateProduct''),
      (''DELETE'', ''/products/:id'', ''deleteProduct''), (''POST'', ''/products/:id/image'', ''uploadImage''),
      (''GET'', ''/products/by-sku/:sku'', ''getProductBySKU''),
      (''GET'', ''/api/products'', ''listProducts''), (''GET'', ''/api/category'', ''legacyCategories'')]"

definition orders_table :: "entry list" where
  "orders_table =
     [(''GET'', ''/orders'', ''list''), (''GET'', ''/pending_orders'', ''listPending''),
      (''POST'', ''/orders'', ''create''), (''GET'', ''/orders/:id'', ''get''), (''PUT'', ''/orders/:id'', ''update''),
      (''PATCH'', ''/orders/:id/status'', ''setStatus''), (''DELETE'', ''/orders/:id'', ''delete''),
      (''GET'', ''/orders/:id/invoice.pdf'', ''invoicePDF''), (''PATCH'', ''/payments/:pid/verify'', ''verifyPayment'')]"

definition customers_table :: "entry list" where
  "customers_table =
     [(''GET'', ''/customers'', ''list''), (''POST'', ''/customers'', ''create''), (''GET'', ''/customers/:id'', ''get''),
      (''PUT'', ''/customers/:id'', ''update''), (''DELETE'', ''/customers/:id'', ''delete''),
      (''GET'', ''/customers/by-loyalty/:code'', ''byLoyalty'')]"

definition coupons_table :: "entry list" where
  "coupons_table =
     [(''GET'', ''/coupons'', ''list''), (''POST'', ''/coupons'', ''create''), (''GET'', ''/coupons/:id'', ''get''),
      (''PUT'', ''/coupons/:id'', ''update''), (''DELETE'', ''/coupons/:id'', ''delete'')]"

definition dashboard_table :: "entry list" where
  "dashboard_table = [(''GET'', ''/dashboard/counts'', ''counts'')]"

definition assistant_admin_table :: "entry list" where
  "assistant_admin_table = [(''POST'', ''/assistant/search'', ''adminSearch'')]"

definition assistant_public_table :: "entry list" where
  "assistant_public_table = [(''POST'', ''/store/:username/ask'', ''storefrontAsk'')]"

definition storefront_table :: "entry list" where
  "storefront_table =
     [(''GET'', ''/store/:username'', ''landing''), (''GET'', ''/store/:username/search'', ''search''),
      (''GET'', ''/store/:username/products/:id'', ''productDetail''),
      (''POST'', ''/store/:username/checkout'', ''checkout''),
      (''GET'', ''/store/:username/get_product_by_sku'', ''productBySKU'')]"

definition enh_authed_table :: "entry list" where
  "enh_authed_table =
     [(''POST'', ''/copilot/interpret'', ''copilotInterpret''), (''POST'', ''/copilot/execute'', ''copilotExecute''),
      (''POST'', ''/copilot/generate-content'', ''generateContent''),
      (''GET'', ''/analytics/insights'', ''analyticsInsights''), (''GET'', ''/recommendations'', ''recommendations''),
      (''POST'', ''/orders/:id/charge'', ''charge''), (''GET'', ''/currencies'', ''currencies''),
      (''GET'', ''/fulfillment/chase-candidates'', ''chaseCandidates''), (''POST'', ''/fulfillment/track'', ''track''),
      (''POST'', ''/notifications/send'', ''sendNotification'')]"

definition enh_public_table :: "entry list" where
  "enh_public_table =
     [(''POST'', ''/payments/webhook'', ''paymentWebhook''), (''GET'', ''/pay/mock/:ref'', ''mockHostedPage'')]"


section \<open>What is mounted\<close>

definition root_group :: group where
  "root_group = \<lparr>gr_prefix = '''', gr_guards = []\<rparr>"

definition probes :: "route list" where
  "probes = register root_group Main [(''GET'', ''/healthz'', ''healthz''), (''GET'', ''/readyz'', ''readyz''),
     (''GET'', ''/metrics'', ''promhttp'')]"

definition mounted :: "bool \<Rightarrow> route list" where
  "mounted isLocal =
     (let apiRoot = Group root_group ''/api'';
          public = Use (Group apiRoot '''') [Visit];
          authed = Use (Group apiRoot '''') [Bearer];
          operator = Use (Group apiRoot ''/operator'') [Bearer, Role ''operator''];
          storeGroup = Use (Use (Group apiRoot '''') [Visit]) [Limit];
          ehPublic = Use (Group apiRoot '''') [Visit]
      in probes @ register public Auth auth_public_table @ register authed Auth account_table @
         register authed Catalog catalog_table @ register authed Orders orders_table @
         register authed Customers customers_table @ register authed Coupons coupons_table @
         register authed Dashboard dashboard_table @ register authed Assistant assistant_admin_table @
         register operator Server [(''GET'', ''/tenants/count'', ''tenants_count'')] @
         register storeGroup Storefront storefront_table @ register storeGroup Assistant assistant_public_table @
         register storeGroup Orders [(''GET'', ''/invoice/:id'', ''PublicInvoice''),
           (''POST'', ''/orders/:id/payment'', ''PublicUploadPayment'')] @
         register authed Enhancements enh_authed_table @ register ehPublic Enhancements enh_public_table @
         (if isLocal then register root_group Server [(''GET'', ''/api/files/*'', ''localFileHandler'')] else []))"

section \<open>Matching\<close>

text \<open>A pattern read strictly matches a path segment by segment: a parameter takes one segment, \<open>*\<close> takes the
  rest. A router may take more: it may give a parameter that ends its pattern the whole rest of the path,
  slashes included (Echo does where nothing follows the parameter in its tree), and which of several matching
  patterns it prefers is its own. \<open>may_match\<close> allows all of that.\<close>

fun takes :: "string list \<Rightarrow> string list \<Rightarrow> bool" where
  "takes [] xs = (xs = [])"
| "takes (p # ps) xs =
     (p = ''*'' \<or> (case xs of [] \<Rightarrow> False | x # ys \<Rightarrow> (HasPrefix p '':'' \<or> p = x) \<and> takes ps ys))"

definition matches_path :: "string \<Rightarrow> string \<Rightarrow> bool" where
  "matches_path pattern path = takes (Split pattern (CHR ''/'')) (Split path (CHR ''/''))"

fun may_take :: "string list \<Rightarrow> string list \<Rightarrow> bool" where
  "may_take [] xs = (xs = [])"
| "may_take (p # ps) xs =
     (p = ''*'' \<or> (case xs of [] \<Rightarrow> False
                  | x # ys \<Rightarrow> (HasPrefix p '':'' \<and> ps = []) \<or> ((HasPrefix p '':'' \<or> p = x) \<and> may_take ps ys)))"

definition may_match :: "string \<Rightarrow> string \<Rightarrow> bool" where
  "may_match pattern path = may_take (Split pattern (CHR ''/'')) (Split path (CHR ''/''))"

lemma takes_may_take: "takes ps xs \<Longrightarrow> may_take ps xs"
  by (induction ps xs rule: takes.induct) (auto split: list.splits)

fun overlap :: "string list \<Rightarrow> string list \<Rightarrow> bool" where
  "overlap [] qs = (qs = [] \<or> hd qs = ''*'')"
| "overlap (p # ps) [] = (p = ''*'')"
| "overlap (p # ps) (q # qs) =
     (if p = ''*'' \<or> q = ''*'' then True
      else if HasPrefix p '':'' \<or> HasPrefix q '':'' \<or> p = q then overlap ps qs else False)"

lemma takes_overlap: "takes ps xs \<Longrightarrow> takes qs xs \<Longrightarrow> overlap ps qs"
proof (induction ps qs arbitrary: xs rule: overlap.induct)
  case (1 qs)
  then show ?case by (cases qs) auto
qed (auto split: list.splits)

fun clash :: "string list \<Rightarrow> string list \<Rightarrow> bool" where
  "clash [] qs = (qs = [] \<or> hd qs = ''*'')"
| "clash (p # ps) [] = (p = ''*'')"
| "clash (p # ps) (q # qs) =
     (if p = ''*'' \<or> q = ''*'' then True
      else if HasPrefix p '':'' \<and> ps = [] \<or> HasPrefix q '':'' \<and> qs = [] then True
      else if HasPrefix p '':'' \<or> HasPrefix q '':'' \<or> p = q then clash ps qs else False)"

lemma may_take_clash: "may_take ps xs \<Longrightarrow> may_take qs xs \<Longrightarrow> clash ps qs"
proof (induction ps qs arbitrary: xs rule: clash.induct)
  case (1 qs)
  then show ?case by (cases qs) auto
qed (auto split: list.splits)

fun pairwise :: "('a \<Rightarrow> 'a \<Rightarrow> bool) \<Rightarrow> 'a list \<Rightarrow> bool" where
  "pairwise P [] = True"
| "pairwise P (x # xs) = (list_all (P x) xs \<and> pairwise P xs)"

lemma pairwise_map:
  assumes "pairwise P (map f xs)" and "x \<in> set xs" and "y \<in> set xs"
  shows "x = y \<or> P (f x) (f y) \<or> P (f y) (f x)"
  using assms by (induction xs) (auto simp: list_all_iff)

type_synonym shape = "string \<times> string list \<times> guard list"

definition shape :: "route \<Rightarrow> shape" where
  "shape r = (rt_method r, Split (rt_path r) (CHR ''/''), rt_guards r)"

definition apart :: "shape \<Rightarrow> shape \<Rightarrow> bool" where
  "apart = (\<lambda>(m, p, g) (n, q, h). if m = n then \<not> overlap p q else True)"

definition agree :: "shape \<Rightarrow> shape \<Rightarrow> bool" where
  "agree = (\<lambda>(m, p, g) (n, q, h). if m = n then if clash p q then g = h else True else True)"

lemma apart_mounted: "pairwise apart (map shape (mounted True))"
  by code_simp

lemma agree_mounted: "pairwise agree (map shape (mounted True))"
  by code_simp

lemma mounted_subset: "set (mounted b) \<subseteq> set (mounted True)"
  by (auto simp: mounted_def Let_def)

lemma same_route:
  assumes "r \<in> set (mounted b)" and "s \<in> set (mounted b)" and "rt_method r = rt_method s"
    and "overlap (Split (rt_path r) (CHR ''/'')) (Split (rt_path s) (CHR ''/''))"
    and "overlap (Split (rt_path s) (CHR ''/'')) (Split (rt_path r) (CHR ''/''))"
  shows "r = s"
proof -
  have "r \<in> set (mounted True)" "s \<in> set (mounted True)" using assms(1,2) mounted_subset by blast+
  then show ?thesis
    using pairwise_map [OF apart_mounted, of r s] assms(3-5) by (auto simp: apart_def shape_def)
qed

lemma same_guards:
  assumes "r \<in> set (mounted b)" and "s \<in> set (mounted b)" and "rt_method r = rt_method s"
    and "may_match (rt_path r) path" and "may_match (rt_path s) path"
  shows "rt_guards r = rt_guards s"
proof -
  have "clash (Split (rt_path r) (CHR ''/'')) (Split (rt_path s) (CHR ''/''))"
    "clash (Split (rt_path s) (CHR ''/'')) (Split (rt_path r) (CHR ''/''))"
    using assms(4,5) by (auto simp: may_match_def intro: may_take_clash)
  moreover have "r \<in> set (mounted True)" "s \<in> set (mounted True)" using assms(1,2) mounted_subset by blast+
  ultimately show ?thesis
    using pairwise_map [OF agree_mounted, of r s] assms(3) by (auto simp: agree_def shape_def)
qed

text \<open>The routes that anybody may call.\<close>

definition open_routes :: "(string \<times> string) list" where
  "open_routes =
     [(''GET'', ''/healthz''), (''GET'', ''/readyz''), (''GET'', ''/metrics''),
      (''POST'', ''/api/auth/register''), (''POST'', ''/api/auth/login''), (''POST'', ''/api/auth/refresh''),
      (''POST'', ''/api/auth/logout''), (''POST'', ''/api/auth/forgot-password''),
      (''POST'', ''/api/auth/reset-password''), (''POST'', ''/api/auth/verify-email''),
      (''GET'', ''/api/store/:username''), (''GET'', ''/api/store/:username/search''),
      (''GET'', ''/api/store/:username/products/:id''), (''POST'', ''/api/store/:username/checkout''),
      (''GET'', ''/api/store/:username/get_product_by_sku''), (''POST'', ''/api/store/:username/ask''),
      (''GET'', ''/api/invoice/:id''), (''POST'', ''/api/orders/:id/payment''),
      (''POST'', ''/api/payments/webhook''), (''GET'', ''/api/pay/mock/:ref''), (''GET'', ''/api/files/*'')]"

definition guarded_or_open :: "route \<Rightarrow> bool" where
  "guarded_or_open r \<longleftrightarrow> Bearer \<in> set (rt_guards r) \<or> (rt_method r, rt_path r) \<in> set open_routes"

lemma guarded_mounted: "list_all guarded_or_open (mounted True)"
  by code_simp

text \<open>C7: Whichever of the registered routes the router chooses for a method and a path, the guards are the
  same: a path that a route behind the bearer token may match never reaches a handler without that guard. The
  router is any that matches at most what may_match allows, so it may give a parameter at the end of a pattern
  the rest of the path and prefer the patterns in any order. Read strictly, segment by segment, a method and a
  path have one route at most. Every route is behind the bearer token or one of the listed open ones.\<close>

theorem route_guards_determined:
  assumes "r \<in> set (mounted b)" and "s \<in> set (mounted b)" and "rt_method r = rt_method s"
    and "\<And>pattern p. router pattern p \<Longrightarrow> may_match pattern p"
    and "router (rt_path r) path" and "router (rt_path s) path"
  shows "rt_guards r = rt_guards s
    \<and> (matches_path (rt_path r) path \<longrightarrow> matches_path (rt_path s) path \<longrightarrow> r = s)
    \<and> (Bearer \<in> set (rt_guards r) \<or> (rt_method r, rt_path r) \<in> set open_routes)"
proof (intro conjI impI)
  show "rt_guards r = rt_guards s"
    using same_guards [OF assms(1-3)] assms(4) [OF assms(5)] assms(4) [OF assms(6)] by blast
  show "r = s" if "matches_path (rt_path r) path" and "matches_path (rt_path s) path"
    using that by (auto simp: matches_path_def intro!: same_route [OF assms(1-3)] elim: takes_overlap)
  show "Bearer \<in> set (rt_guards r) \<or> (rt_method r, rt_path r) \<in> set open_routes"
    using guarded_mounted subsetD [OF mounted_subset assms(1)] by (simp add: list_all_iff guarded_or_open_def)
qed

definition customer_route :: "string \<Rightarrow> string \<Rightarrow> route" where
  "customer_route path name = \<lparr>rt_method = ''GET'', rt_path = path, rt_guards = [Bearer], rt_package = Customers, rt_handler = name\<rparr>"

lemma customer_routes_mounted:
  "customer_route ''/api/customers/:id'' ''get'' \<in> set (mounted False)"
  "customer_route ''/api/customers/by-loyalty/:code'' ''byLoyalty'' \<in> set (mounted False)"
  by (simp_all add: customer_route_def mounted_def Let_def register_def customers_table_def root_group_def Group_def Use_def)

lemma loyalty_path:
  "may_match ''/api/customers/:id'' ''/api/customers/by-loyalty/17''"
  "may_match ''/api/customers/by-loyalty/:code'' ''/api/customers/by-loyalty/17''"
  by code_simp+

theorem route_guards_determined_witness:
  "\<exists>r s. r \<noteq> s \<and> may_match (rt_path r) ''/api/customers/by-loyalty/17'' \<and> may_match (rt_path s) ''/api/customers/by-loyalty/17''
    \<and> r \<in> set (mounted False) \<and> s \<in> set (mounted False) \<and> rt_guards r = rt_guards s
    \<and> (Bearer \<in> set (rt_guards r) \<or> (rt_method r, rt_path r) \<in> set open_routes)"
  using route_guards_determined [OF customer_routes_mounted, of may_match "''/api/customers/by-loyalty/17''"]
    customer_routes_mounted loyalty_path
  by (intro exI [of _ "customer_route ''/api/customers/:id'' ''get''"]
      exI [of _ "customer_route ''/api/customers/by-loyalty/:code'' ''byLoyalty''"]) (simp add: customer_route_def)


section \<open>Requests as they arrive\<close>

text \<open>The request of the model as the client sends it, with the pattern of the path, the parameters it takes there, the
  query, the body and the signature of the payment gateway.\<close>

definition plain :: "string \<Rightarrow> string \<Rightarrow> http" where
  "plain m p = \<lparr>ht_method = m, ht_path = p, ht_params = [], ht_query = (\<lambda>_. ''''), ht_body = No_body, ht_signature = ''''\<rparr>"

abbreviation at_path :: "string \<Rightarrow> string \<Rightarrow> (string \<times> string) list \<Rightarrow> http" where
  "at_path m p ps \<equiv> (plain m p)\<lparr>ht_params := ps\<rparr>"

fun auth_http :: "auth_call \<Rightarrow> http" where
  "auth_http (Register body) = (plain ''POST'' ''/auth/register'')\<lparr>ht_body := B_register body\<rparr>"
| "auth_http (Login body) = (plain ''POST'' ''/auth/login'')\<lparr>ht_body := B_triple body\<rparr>"
| "auth_http (Refresh body) = (plain ''POST'' ''/auth/refresh'')\<lparr>ht_body := B_string body\<rparr>"
| "auth_http (Logout body) = (plain ''POST'' ''/auth/logout'')\<lparr>ht_body := B_string body\<rparr>"
| "auth_http (Forgot body) = (plain ''POST'' ''/auth/forgot-password'')\<lparr>ht_body := B_string body\<rparr>"
| "auth_http (Reset body) = (plain ''POST'' ''/auth/reset-password'')\<lparr>ht_body := B_pair body\<rparr>"
| "auth_http (Verify body) = (plain ''POST'' ''/auth/verify-email'')\<lparr>ht_body := B_string body\<rparr>"

fun account_http :: "account_call \<Rightarrow> http" where
  "account_http GetMe = plain ''GET'' ''/me''"
| "account_http (PutMe body) = (plain ''PUT'' ''/me'')\<lparr>ht_body := B_triple body\<rparr>"
| "account_http (PostPassword body) = (plain ''POST'' ''/auth/change-password'')\<lparr>ht_body := B_pair body\<rparr>"

fun catalog_http :: "catalog_call \<Rightarrow> http" where
  "catalog_http GetCategories = plain ''GET'' ''/categories''"
| "catalog_http (PostCategory body) = (plain ''POST'' ''/categories'')\<lparr>ht_body := B_pair body\<rparr>"
| "catalog_http (PutCategory i body) = (at_path ''PUT'' ''/categories/:id'' [(''id'', i)])\<lparr>ht_body := B_pair body\<rparr>"
| "catalog_http (DelCategory i) = at_path ''DELETE'' ''/categories/:id'' [(''id'', i)]"
| "catalog_http (GetProducts q) = (plain ''GET'' ''/products'')\<lparr>ht_query := q\<rparr>"
| "catalog_http (PostProduct body) = (plain ''POST'' ''/products'')\<lparr>ht_body := B_product body\<rparr>"
| "catalog_http (GetProductById i) = at_path ''GET'' ''/products/:id'' [(''id'', i)]"
| "catalog_http (PutProduct i body) = (at_path ''PUT'' ''/products/:id'' [(''id'', i)])\<lparr>ht_body := B_product body\<rparr>"
| "catalog_http (DelProduct i) = at_path ''DELETE'' ''/products/:id'' [(''id'', i)]"
| "catalog_http (PostImage i up) = (at_path ''POST'' ''/products/:id/image'' [(''id'', i)])\<lparr>ht_body := B_upload up\<rparr>"
| "catalog_http (GetBySku sku) = at_path ''GET'' ''/products/by-sku/:sku'' [(''sku'', sku)]"
| "catalog_http (GetLegacyProducts q) = (plain ''GET'' ''/api/products'')\<lparr>ht_query := q\<rparr>"
| "catalog_http GetLegacyCategory = plain ''GET'' ''/api/category''"

fun orders_http :: "orders_call \<Rightarrow> http" where
  "orders_http (GetOrders q) = (plain ''GET'' ''/orders'')\<lparr>ht_query := q\<rparr>"
| "orders_http (GetPending q) = (plain ''GET'' ''/pending_orders'')\<lparr>ht_query := q\<rparr>"
| "orders_http (PostOrder body) = (plain ''POST'' ''/orders'')\<lparr>ht_body := B_order body\<rparr>"
| "orders_http (GetOrder i) = at_path ''GET'' ''/orders/:id'' [(''id'', i)]"
| "orders_http (PutOrder i body) = (at_path ''PUT'' ''/orders/:id'' [(''id'', i)])\<lparr>ht_body := B_order body\<rparr>"
| "orders_http (PatchStatus i body) = (at_path ''PATCH'' ''/orders/:id/status'' [(''id'', i)])\<lparr>ht_body := B_string body\<rparr>"
| "orders_http (DelOrder i) = at_path ''DELETE'' ''/orders/:id'' [(''id'', i)]"
| "orders_http (GetInvoicePdf i) = at_path ''GET'' ''/orders/:id/invoice.pdf'' [(''id'', i)]"
| "orders_http (PatchPayment i body) = (at_path ''PATCH'' ''/payments/:pid/verify'' [(''pid'', i)])\<lparr>ht_body := B_bool body\<rparr>"

fun customers_http :: "customers_call \<Rightarrow> http" where
  "customers_http (GetCustomers q) = (plain ''GET'' ''/customers'')\<lparr>ht_query := q\<rparr>"
| "customers_http (PostCustomer body) = (plain ''POST'' ''/customers'')\<lparr>ht_body := B_customer body\<rparr>"
| "customers_http (GetCustomer i) = at_path ''GET'' ''/customers/:id'' [(''id'', i)]"
| "customers_http (PutCustomer i body) = (at_path ''PUT'' ''/customers/:id'' [(''id'', i)])\<lparr>ht_body := B_customer body\<rparr>"
| "customers_http (DelCustomer i) = at_path ''DELETE'' ''/customers/:id'' [(''id'', i)]"
| "customers_http (GetByLoyaltyCode c) = at_path ''GET'' ''/customers/by-loyalty/:code'' [(''code'', c)]"

fun coupons_http :: "coupons_call \<Rightarrow> http" where
  "coupons_http (GetCoupons q) = (plain ''GET'' ''/coupons'')\<lparr>ht_query := q\<rparr>"
| "coupons_http (PostCoupon body) = (plain ''POST'' ''/coupons'')\<lparr>ht_body := B_coupon body\<rparr>"
| "coupons_http (GetCoupon i) = at_path ''GET'' ''/coupons/:id'' [(''id'', i)]"
| "coupons_http (PutCoupon i body) = (at_path ''PUT'' ''/coupons/:id'' [(''id'', i)])\<lparr>ht_body := B_coupon body\<rparr>"
| "coupons_http (DelCoupon i) = at_path ''DELETE'' ''/coupons/:id'' [(''id'', i)]"

fun store_http :: "store_call \<Rightarrow> http" where
  "store_http (GetLanding u) = at_path ''GET'' ''/store/:username'' [(''username'', u)]"
| "store_http (GetSearch u q) = (at_path ''GET'' ''/store/:username/search'' [(''username'', u)])\<lparr>ht_query := q\<rparr>"
| "store_http (GetDetail u i) = at_path ''GET'' ''/store/:username/products/:id'' [(''username'', u), (''id'', i)]"
| "store_http (PostCheckout u body) = (at_path ''POST'' ''/store/:username/checkout'' [(''username'', u)])\<lparr>ht_body := B_order body\<rparr>"
| "store_http (GetSkuAlias u q) = (at_path ''GET'' ''/store/:username/get_product_by_sku'' [(''username'', u)])\<lparr>ht_query := q\<rparr>"

fun enh_http :: "enh_call \<Rightarrow> http" where
  "enh_http (PostExecute body) = (plain ''POST'' ''/copilot/execute'')\<lparr>ht_body := B_action body\<rparr>"
| "enh_http (PostContent body) = (plain ''POST'' ''/copilot/generate-content'')\<lparr>ht_body := B_content body\<rparr>"
| "enh_http GetInsights = plain ''GET'' ''/analytics/insights''"
| "enh_http (GetRecommendations q) = (plain ''GET'' ''/recommendations'')\<lparr>ht_query := q\<rparr>"
| "enh_http (PostCharge i q) = (at_path ''POST'' ''/orders/:id/charge'' [(''id'', i)])\<lparr>ht_query := q\<rparr>"
| "enh_http GetCurrencies = plain ''GET'' ''/currencies''"
| "enh_http (GetCandidates q) = (plain ''GET'' ''/fulfillment/chase-candidates'')\<lparr>ht_query := q\<rparr>"
| "enh_http (PostTrack body) = (plain ''POST'' ''/fulfillment/track'')\<lparr>ht_body := B_string body\<rparr>"
| "enh_http (PostSend body) = (plain ''POST'' ''/notifications/send'')\<lparr>ht_body := B_notification body\<rparr>"

fun enh_public_http :: "enh_public_call \<Rightarrow> http" where
  "enh_public_http (PostWebhook signature body) =
     (plain ''POST'' ''/payments/webhook'')\<lparr>ht_body := B_webhook body, ht_signature := signature\<rparr>"
| "enh_public_http (GetMockPage ref q) = (at_path ''GET'' ''/pay/mock/:ref'' [(''ref'', ref)])\<lparr>ht_query := q\<rparr>"

fun authed_http :: "authed_call \<Rightarrow> http" where
  "authed_http (Account c) = account_http c"
| "authed_http (Catalog_call c) = catalog_http c"
| "authed_http (Orders_call c) = orders_http c"
| "authed_http (Customers_call c) = customers_http c"
| "authed_http (Coupons_call c) = coupons_http c"
| "authed_http Get_counts = plain ''GET'' ''/dashboard/counts''"
| "authed_http (Assistant_search body) = (plain ''POST'' ''/assistant/search'')\<lparr>ht_body := B_string body\<rparr>"
| "authed_http (Interpret body) = (plain ''POST'' ''/copilot/interpret'')\<lparr>ht_body := B_string body\<rparr>"
| "authed_http (Enh_call c) = enh_http c"

fun limited_http :: "limited_call \<Rightarrow> http" where
  "limited_http (Store_call c) = store_http c"
| "limited_http (Ask u body) = (at_path ''POST'' ''/store/:username/ask'' [(''username'', u)])\<lparr>ht_body := B_string body\<rparr>"
| "limited_http (Invoice_page i q) = (at_path ''GET'' ''/invoice/:id'' [(''id'', i)])\<lparr>ht_query := q\<rparr>"
| "limited_http (Payment_upload i up) = (at_path ''POST'' ''/orders/:id/payment'' [(''id'', i)])\<lparr>ht_body := B_upload up\<rparr>"

definition under_api :: "http \<Rightarrow> http" where
  "under_api h = h\<lparr>ht_path := ''/api'' @ ht_path h\<rparr>"

fun http_of :: "request \<Rightarrow> http" where
  "http_of (Public c) = under_api (auth_http c)"
| "http_of (Authed authz c) = under_api (authed_http c)"
| "http_of (Operator authz) = plain ''GET'' ''/api/operator/tenants/count''"
| "http_of (Limited allowed c) = under_api (limited_http c)"
| "http_of (Enh_public c) = under_api (enh_public_http c)"
| "http_of (File key q) = (at_path ''GET'' ''/api/files/*'' [(''*'', key)])\<lparr>ht_query := q\<rparr>"
| "http_of Healthz = plain ''GET'' ''/healthz''"
| "http_of Readyz = plain ''GET'' ''/readyz''"

definition param_names :: "string \<Rightarrow> string list" where
  "param_names pattern =
     concat (map (\<lambda>p. if HasPrefix p '':'' then [drop 1 p] else if p = ''*'' then [p] else []) (Split pattern (CHR ''/'')))"


section \<open>Requests and their routes\<close>

text \<open>What the guards of a request look at, and the guards of a group around a handler.\<close>

fun authorization :: "request \<Rightarrow> string" where
  "authorization (Authed authz c) = authz"
| "authorization (Operator authz) = authz"
| "authorization req = ''''"

fun admitted :: "request \<Rightarrow> bool" where
  "admitted (Limited allowed c) = allowed"
| "admitted req = True"

fun guarded ::
  "'z server_env_scheme \<Rightarrow> app \<Rightarrow> string \<Rightarrow> bool \<Rightarrow> guard list \<Rightarrow>
     (identity option \<Rightarrow> 'r go) \<Rightarrow> identity option \<Rightarrow> 'r go" where
  "guarded E a authz allowed [] h ctx = h ctx"
| "guarded E a authz allowed (Visit # gs) h ctx = guarded E a authz allowed gs h ctx"
| "guarded E a authz allowed (Bearer # gs) h ctx =
     Authenticated E (ap_tokens a) authz (guarded E a authz allowed gs h)"
| "guarded E a authz allowed (Role role # gs) h ctx =
     RequireRole role ctx (guarded E a authz allowed gs h)"
| "guarded E a authz allowed (Limit # gs) h ctx = RateLimiter allowed (guarded E a authz allowed gs h ctx)"

lemma guarded_funs:
  "guarded E a authz allowed [] h = h"
  "guarded E a authz allowed (Role role # gs) h = (\<lambda>ctx. RequireRole role ctx (guarded E a authz allowed gs h))"
  by (rule ext; simp)+

text \<open>The route of the files exists with the local store only.\<close>

fun reachable :: "app \<Rightarrow> request \<Rightarrow> bool" where
  "reachable a (File key q) = (ap_local a \<noteq> None)"
| "reachable a req = True"

text \<open>A package serves its calls: the table has an entry for the request, and the handler that the entry names
  does what the package's constructor does.\<close>

definition serves :: "entry list \<Rightarrow> (string \<times> 'r endpoint) list \<Rightarrow> http \<Rightarrow> (identity option \<Rightarrow> 'r response go) \<Rightarrow> bool" where
  "serves table methods h f \<longleftrightarrow>
     (\<exists>name. (ht_method h, ht_path h, name) \<in> set table \<and> call methods name (under_api h) = f)
       \<and> param_names (''/api'' @ ht_path h) = map fst (ht_params h)"

abbreviation public_orders_table :: "entry list" where
  "public_orders_table \<equiv>
     [(''GET'', ''/invoice/:id'', ''PublicInvoice''), (''POST'', ''/orders/:id/payment'', ''PublicUploadPayment'')]"

lemmas serves_defs = serves_def call_def Param_def under_api_def plain_def param_names_def HasPrefix_def

lemma auth_serves: "serves auth_public_table (auth_methods E m) (auth_http c) (\<lambda>ctx. auth_public E m c)"
  by (cases c) (simp_all add: serves_defs auth_public_table_def auth_methods_def)

lemma catalog_serves: "serves catalog_table (catalog_methods E S) (catalog_http c) (\<lambda>ctx. catalog_routes E S ctx c)"
  by (cases c) (simp_all add: serves_defs catalog_table_def catalog_methods_def)


lemma account_serves: "serves account_table (auth_methods E m) (account_http c) (\<lambda>ctx. auth_authed E ctx c)"
  by (cases c) (simp_all add: serves_defs account_table_def auth_methods_def)

lemma orders_serves: "serves orders_table (orders_methods E S) (orders_http c) (\<lambda>ctx. orders_routes E S ctx c)"
  by (cases c) (simp_all add: serves_defs orders_table_def orders_methods_def)

lemma customers_serves: "serves customers_table (customers_methods E) (customers_http c) (\<lambda>ctx. customers_routes E ctx c)"
  by (cases c) (simp_all add: serves_defs customers_table_def customers_methods_def)

lemma coupons_serves: "serves coupons_table (coupons_methods E) (coupons_http c) (\<lambda>ctx. coupons_routes E ctx c)"
  by (cases c) (simp_all add: serves_defs coupons_table_def coupons_methods_def)

lemma storefront_serves: "serves storefront_table (storefront_methods E F S) (store_http c) (\<lambda>ctx. store_routes E F S c)"
  by (cases c) (simp_all add: serves_defs storefront_table_def storefront_methods_def)

lemma enh_serves:
  "serves enh_authed_table (enh_replies E a) (enh_http c) (\<lambda>ctx. via R_enh (enh_authed E (ap_store a) (ap_public_base a) ctx c))"
  by (cases c) (simp_all add: serves_defs enh_authed_table_def enh_replies_def enh_methods_def)

lemma enh_public_serves:
  "serves enh_public_table (enh_replies E a) (enh_public_http c) (\<lambda>ctx. via R_enh (enh_public E c))"
  by (cases c) (simp_all add: serves_defs enh_public_table_def enh_replies_def enh_methods_def)

lemma dashboard_serves:
  "serves dashboard_table [(''counts'', \<lambda>h ctx. dashboard_counts ctx)] (authed_http Get_counts) (\<lambda>ctx. dashboard_counts ctx)"
  by (simp add: serves_defs dashboard_table_def)

lemma search_serves:
  "serves assistant_admin_table (assistant_methods E a rid) (authed_http (Assistant_search body))
     (\<lambda>ctx. adminSearch E (e_rag E) (ap_rag_base a) rid ctx body)"
  by (simp add: serves_defs assistant_admin_table_def assistant_methods_def)

lemma ask_serves:
  "serves assistant_public_table (assistant_methods E a rid) (limited_http (Ask u body))
     (\<lambda>ctx. storefrontAsk E (e_rag E) (ap_rag_base a) rid u body)"
  by (simp add: serves_defs assistant_public_table_def assistant_methods_def)

lemma interpret_serves:
  "serves enh_authed_table (enh_replies E a) (authed_http (Interpret body))
     (\<lambda>ctx. via R_interpret (copilotInterpret (e_letnum E) (e_to_lower E) ctx body))"
  by (simp add: serves_defs enh_authed_table_def enh_replies_def)

lemma invoice_serves:
  "serves public_orders_table (orders_methods E S) (limited_http (Invoice_page i q)) (\<lambda>ctx. PublicInvoice E S i q)"
  "serves public_orders_table (orders_methods E S) (limited_http (Payment_upload i up)) (\<lambda>ctx. PublicUploadPayment E S i up)"
  by (simp_all add: serves_defs orders_methods_def)

text \<open>Where \<open>mounted\<close> puts the tables.\<close>

definition api_route :: "guard list \<Rightarrow> package \<Rightarrow> entry \<Rightarrow> route" where
  "api_route gs k e =
     \<lparr>rt_method = fst e, rt_path = ''/api'' @ fst (snd e), rt_guards = gs, rt_package = k, rt_handler = snd (snd e)\<rparr>"

lemma register_api: "set (register (Use (Group (Group root_group ''/api'') '''') gs) k es) = api_route gs k ` set es"
  by (simp add: register_def case_prod_unfold api_route_def Use_def Group_def root_group_def)

lemma store_group: "Use (Use g gs) hs = Use g (gs @ hs)"
  by (simp add: Use_def)

lemma mounted_groups:
  "e \<in> set auth_public_table \<Longrightarrow> api_route [Visit] Auth e \<in> set (mounted b)"
  "e \<in> set account_table \<Longrightarrow> api_route [Bearer] Auth e \<in> set (mounted b)"
  "e \<in> set catalog_table \<Longrightarrow> api_route [Bearer] Catalog e \<in> set (mounted b)"
  "e \<in> set orders_table \<Longrightarrow> api_route [Bearer] Orders e \<in> set (mounted b)"
  "e \<in> set customers_table \<Longrightarrow> api_route [Bearer] Customers e \<in> set (mounted b)"
  "e \<in> set coupons_table \<Longrightarrow> api_route [Bearer] Coupons e \<in> set (mounted b)"
  "e \<in> set dashboard_table \<Longrightarrow> api_route [Bearer] Dashboard e \<in> set (mounted b)"
  "e \<in> set assistant_admin_table \<Longrightarrow> api_route [Bearer] Assistant e \<in> set (mounted b)"
  "e \<in> set storefront_table \<Longrightarrow> api_route [Visit, Limit] Storefront e \<in> set (mounted b)"
  "e \<in> set assistant_public_table \<Longrightarrow> api_route [Visit, Limit] Assistant e \<in> set (mounted b)"
  "e \<in> set public_orders_table \<Longrightarrow> api_route [Visit, Limit] Orders e \<in> set (mounted b)"
  "e \<in> set enh_authed_table \<Longrightarrow> api_route [Bearer] Enhancements e \<in> set (mounted b)"
  "e \<in> set enh_public_table \<Longrightarrow> api_route [Visit] Enhancements e \<in> set (mounted b)"
  unfolding mounted_def Let_def store_group set_append register_api append.simps
  by (simp only: Un_iff imageI simp_thms)+

definition routed ::
  "'z server_env_scheme \<Rightarrow> app \<Rightarrow> string option \<Rightarrow> http \<Rightarrow> guard list \<Rightarrow> (identity option \<Rightarrow> api_reply response go) \<Rightarrow> bool" where
  "routed E a rid h gs f \<longleftrightarrow>
     (\<exists>r\<in>set (mounted (ap_local a \<noteq> None)). rt_method r = ht_method h \<and> rt_path r = ht_path h \<and> rt_guards r = gs
        \<and> param_names (rt_path r) = map fst (ht_params h) \<and> method_of E a rid (rt_package r) (rt_handler r) h = f)"

lemma routedI:
  assumes "serves table methods h f" and "\<And>e. e \<in> set table \<Longrightarrow> api_route gs k e \<in> set (mounted (ap_local a \<noteq> None))"
    and "\<And>name. method_of E a rid k name (under_api h) = (\<lambda>ctx. g (call methods name (under_api h) ctx))"
  shows "routed E a rid (under_api h) gs (\<lambda>ctx. g (f ctx))"
proof -
  from assms(1) obtain name where "(ht_method h, ht_path h, name) \<in> set table"
    and "call methods name (under_api h) = f" "param_names (''/api'' @ ht_path h) = map fst (ht_params h)"
    by (auto simp: serves_def)
  with assms(3) [of name] show ?thesis
    unfolding routed_def by (intro bexI [OF _ assms(2) [OF \<open>_ \<in> set table\<close>]]) (simp_all add: under_api_def api_route_def)
qed


text \<open>The handler of a request behind the guards of its group, and the guards of that group.\<close>

fun behind ::
  "'z server_env_scheme \<Rightarrow> app \<Rightarrow> string option \<Rightarrow> request \<Rightarrow> identity option \<Rightarrow> api_reply response go" where
  "behind E a rid (Public c) ctx = via R_auth (auth_public E (ap_tokens a) c)"
| "behind E a rid (Authed authz c) ctx = authed_routes E a rid c ctx"
| "behind E a rid (Operator authz) ctx = tenants_count ctx"
| "behind E a rid (Limited allowed c) ctx = limited_routes E a rid c"
| "behind E a rid (Enh_public c) ctx = via R_enh (enh_public E c)"
| "behind E a rid (File key q) ctx = serve_file E a key q"
| "behind E a rid Healthz ctx = ret (JSON 200 (R_health ''ok''))"
| "behind E a rid Readyz ctx = readyz"

fun guards_of :: "request \<Rightarrow> guard list" where
  "guards_of (Public c) = [Visit]"
| "guards_of (Authed authz c) = [Bearer]"
| "guards_of (Operator authz) = [Bearer, Role ''operator'']"
| "guards_of (Limited allowed c) = [Visit, Limit]"
| "guards_of (Enh_public c) = [Visit]"
| "guards_of req = []"

lemma behind_funs:
  "behind E a rid (Authed authz' c) = authed_routes E a rid c" "behind E a rid (Operator authz') = tenants_count"
  by (rule ext; simp)+

lemma serve_guarded:
  "serve E a rid req = guarded E a (authorization req) (admitted req) (guards_of req) (behind E a rid req) None"
  by (cases req) (simp_all add: guarded_funs behind_funs)

lemma public_routed: "routed E a rid (under_api (auth_http c)) [Visit] (\<lambda>ctx. via R_auth (auth_public E (ap_tokens a) c))"
  by (rule routedI [OF auth_serves mounted_groups(1)]) (auto intro: ext)

lemma enh_public_routed: "routed E a rid (under_api (enh_public_http c)) [Visit] (\<lambda>ctx. via R_enh (enh_public E c))"
  by (rule routedI [OF enh_public_serves mounted_groups(13)]) (auto intro: ext)

lemma authed_routed: "routed E a rid (under_api (authed_http c)) [Bearer] (\<lambda>ctx. authed_routes E a rid c ctx)"
proof (cases c)
  case (Account c)
  then show ?thesis
    by (simp only: authed_http.simps authed_routes.simps)
      (rule routedI [OF account_serves [where m = "ap_tokens a"] mounted_groups(2)]; simp add: fun_eq_iff)
next
  case (Catalog_call c)
  then show ?thesis
    by (simp only: authed_http.simps authed_routes.simps)
      (rule routedI [OF catalog_serves mounted_groups(3)]; simp add: fun_eq_iff)
next
  case (Orders_call c)
  then show ?thesis
    by (simp only: authed_http.simps authed_routes.simps)
      (rule routedI [OF orders_serves mounted_groups(4)]; simp add: fun_eq_iff)
next
  case (Customers_call c)
  then show ?thesis
    by (simp only: authed_http.simps authed_routes.simps)
      (rule routedI [OF customers_serves mounted_groups(5)]; simp add: fun_eq_iff)
next
  case (Coupons_call c)
  then show ?thesis
    by (simp only: authed_http.simps authed_routes.simps)
      (rule routedI [OF coupons_serves mounted_groups(6)]; simp add: fun_eq_iff)
next
  case Get_counts
  then show ?thesis
    by (simp only: authed_routes.simps)
      (rule routedI [OF dashboard_serves mounted_groups(7)]; simp add: fun_eq_iff)
next
  case (Assistant_search body)
  then show ?thesis
    by (simp only: authed_routes.simps)
      (rule routedI [OF search_serves mounted_groups(8)]; simp add: fun_eq_iff)
next
  case (Interpret body)
  then show ?thesis
    by (simp only: authed_routes.simps)
      (rule routedI [OF interpret_serves [where a = a] mounted_groups(12), where g = "\<lambda>x. x"]; simp add: fun_eq_iff)
next
  case (Enh_call c)
  then show ?thesis
    by (simp only: authed_http.simps authed_routes.simps)
      (rule routedI [OF enh_serves mounted_groups(12), where g = "\<lambda>x. x"]; simp add: fun_eq_iff)
qed

lemma limited_routed: "routed E a rid (under_api (limited_http c)) [Visit, Limit] (\<lambda>ctx. limited_routes E a rid c)"
proof (cases c)
  case (Store_call c)
  then show ?thesis
    by (simp only: limited_http.simps limited_routes.simps)
      (rule routedI [OF storefront_serves mounted_groups(9)]; simp add: fun_eq_iff)
next
  case (Ask u body)
  then show ?thesis
    by (simp only: limited_routes.simps)
      (rule routedI [OF ask_serves mounted_groups(10)]; simp add: fun_eq_iff)
next
  case (Invoice_page i q)
  then show ?thesis
    by (simp only: limited_routes.simps)
      (rule routedI [OF invoice_serves(1) mounted_groups(11)]; simp add: fun_eq_iff)
next
  case (Payment_upload i up)
  then show ?thesis
    by (simp only: limited_routes.simps)
      (rule routedI [OF invoice_serves(2) mounted_groups(11)]; simp add: fun_eq_iff)
qed

lemma root_mounted:
  "\<lparr>rt_method = ''GET'', rt_path = ''/healthz'', rt_guards = [], rt_package = Main, rt_handler = ''healthz''\<rparr> \<in> set (mounted b)"
  "\<lparr>rt_method = ''GET'', rt_path = ''/readyz'', rt_guards = [], rt_package = Main, rt_handler = ''readyz''\<rparr> \<in> set (mounted b)"
  "\<lparr>rt_method = ''GET'', rt_path = ''/api/operator/tenants/count'', rt_guards = [Bearer, Role ''operator''],
     rt_package = Server, rt_handler = ''tenants_count''\<rparr> \<in> set (mounted b)"
  "b \<Longrightarrow> \<lparr>rt_method = ''GET'', rt_path = ''/api/files/*'', rt_guards = [],
     rt_package = Server, rt_handler = ''localFileHandler''\<rparr> \<in> set (mounted b)"
  by (simp_all add: mounted_def Let_def probes_def root_group_def Group_def Use_def register_def)

lemma request_routed:
  assumes "reachable a req"
  shows "routed E a rid (http_of req) (guards_of req) (behind E a rid req)"
proof (cases req)
  case (Public c)
  then show ?thesis using public_routed by (auto simp: fun_eq_iff routed_def)
next
  case (Authed authz c)
  then show ?thesis using authed_routed by (simp add: behind_funs)
next
  case (Limited allowed c)
  then show ?thesis using limited_routed by (auto simp: fun_eq_iff routed_def)
next
  case (Enh_public c)
  then show ?thesis using enh_public_routed by (auto simp: fun_eq_iff routed_def)
next
  case (Operator authz)
  then show ?thesis unfolding routed_def
    by (intro bexI [OF _ root_mounted(3)]) (simp add: serves_defs behind_funs fun_eq_iff)
next
  case (File key q)
  with assms show ?thesis unfolding routed_def
    by (intro bexI [OF _ root_mounted(4)]) (simp_all add: serves_defs fun_eq_iff)
next
  case Healthz
  then show ?thesis unfolding routed_def
    by (intro bexI [OF _ root_mounted(1)]) (simp add: serves_defs fun_eq_iff)
next
  case Readyz
  then show ?thesis unfolding routed_def
    by (intro bexI [OF _ root_mounted(2)]) (simp add: serves_defs fun_eq_iff)
qed

lemma overlap_refl: "overlap ps ps"
  by (induction ps) simp_all

lemma visits_follow_guards: "visits_logged req = (Visit \<in> set (guards_of req))"
  by (cases req) simp_all

text \<open>C2: Every request that the server can receive is for exactly one of its routes, which takes the
  parameters that the request has. serve answers with the method of the package that the route names, looked up by
  its name and given the request as it came, behind the guards of the group the route is registered in. The access
  log of the shop is written for the routes of the groups that use it, and no others.\<close>

theorem requests_follow_routes:
  assumes "reachable a req"
  shows "\<exists>r. {s \<in> set (mounted (ap_local a \<noteq> None)). rt_method s = ht_method (http_of req) \<and> rt_path s = ht_path (http_of req)} = {r}
    \<and> param_names (rt_path r) = map fst (ht_params (http_of req))
    \<and> serve E a rid req = guarded E a (authorization req) (admitted req) (rt_guards r)
        (method_of E a rid (rt_package r) (rt_handler r) (http_of req)) None
    \<and> visits_logged req = (Visit \<in> set (rt_guards r))"
proof -
  obtain r where r: "r \<in> set (mounted (ap_local a \<noteq> None))" "rt_method r = ht_method (http_of req)"
      "rt_path r = ht_path (http_of req)" "rt_guards r = guards_of req"
      "param_names (rt_path r) = map fst (ht_params (http_of req))"
      "method_of E a rid (rt_package r) (rt_handler r) (http_of req) = behind E a rid req"
    using request_routed [OF assms, of E rid] unfolding routed_def by blast
  have "s = r" if "s \<in> set (mounted (ap_local a \<noteq> None))" "rt_method s = rt_method r" "rt_path s = rt_path r" for s
    by (rule same_route [OF that(1) r(1) that(2)]) (simp_all only: that(3) overlap_refl)
  then have "{s \<in> set (mounted (ap_local a \<noteq> None)). rt_method s = rt_method r \<and> rt_path s = rt_path r} = {r}"
    using r(1) by blast
  then have "{s \<in> set (mounted (ap_local a \<noteq> None)). rt_method s = ht_method (http_of req) \<and> rt_path s = ht_path (http_of req)} = {r}"
    by (simp only: r(2,3))
  with r(4-6) show ?thesis
    by (intro exI [of _ r]) (simp only: serve_guarded visits_follow_guards simp_thms)
qed

lemma sample_local: "ap_local sample_running \<noteq> None"
  by (simp add: sample_running_def Mount_def Let_def buildStorage_def NewLocal_def sample_config_def)

theorem requests_follow_routes_witness:
  "\<exists>r. {s \<in> set (mounted True). rt_method s = ''GET'' \<and> rt_path s = ''/api/customers/by-loyalty/:code''} = {r}
    \<and> serve sample_server sample_running None (Authed ''Bearer key'' (Customers_call (GetByLoyaltyCode ''17''))) =
        guarded sample_server sample_running ''Bearer key'' True (rt_guards r)
          (method_of sample_server sample_running None (rt_package r) (rt_handler r)
             (at_path ''GET'' ''/api/customers/by-loyalty/:code'' [(''code'', ''17'')])) None
    \<and> Visit \<notin> set (rt_guards r)"
  using requests_follow_routes [of sample_running "Authed ''Bearer key'' (Customers_call (GetByLoyaltyCode ''17''))" sample_server None]
  by (simp add: sample_local [simplified] under_api_def plain_def del: serve.simps) blast


text \<open>Every route but that of the metrics has a request, so the requests leave no handler out.\<close>

definition one_of_each :: "request list" where
  "one_of_each =
     (let q = (\<lambda>_. '''') in
      [Healthz, Readyz] @
      map Public [Register None, Login None, Refresh None, Logout None, Forgot None, Reset None, Verify None] @
      map (Authed '''' \<circ> Account) [GetMe, PutMe None, PostPassword None] @
      map (Authed '''' \<circ> Catalog_call)
        [GetCategories, PostCategory None, PutCategory '''' None, DelCategory '''', GetProducts q, PostProduct None,
         GetProductById '''', PutProduct '''' None, DelProduct '''', PostImage '''' None, GetBySku '''',
         GetLegacyProducts q, GetLegacyCategory] @
      map (Authed '''' \<circ> Orders_call)
        [GetOrders q, GetPending q, PostOrder None, GetOrder '''', PutOrder '''' None, PatchStatus '''' None, DelOrder '''',
         GetInvoicePdf '''', PatchPayment '''' None] @
      map (Authed '''' \<circ> Customers_call)
        [GetCustomers q, PostCustomer None, GetCustomer '''', PutCustomer '''' None, DelCustomer '''', GetByLoyaltyCode ''''] @
      map (Authed '''' \<circ> Coupons_call) [GetCoupons q, PostCoupon None, GetCoupon '''', PutCoupon '''' None, DelCoupon ''''] @
      [Authed '''' Get_counts, Authed '''' (Assistant_search None), Operator ''''] @
      map (Limited True \<circ> Store_call)
        [GetLanding '''', GetSearch '''' q, GetDetail '''' '''', PostCheckout '''' None, GetSkuAlias '''' q] @
      map (Limited True) [Ask '''' None, Invoice_page '''' q, Payment_upload '''' None] @
      [Authed '''' (Interpret None)] @
      map (Authed '''' \<circ> Enh_call)
        [PostExecute None, PostContent None, GetInsights, GetRecommendations q, PostCharge '''' q, GetCurrencies,
         GetCandidates q, PostTrack None, PostSend None] @
      map Enh_public [PostWebhook '''' None, GetMockPage '''' q] @
      [File '''' q])"

lemma every_route_requested:
  "map (\<lambda>r. (rt_method r, rt_path r)) (filter (\<lambda>r. rt_handler r \<noteq> ''promhttp'') (mounted True)) =
     map (\<lambda>req. (ht_method (http_of req), ht_path (http_of req))) one_of_each"
  by code_simp

section \<open>Cross-origin requests\<close>

text \<open>The methods that the configuration of the cross-origin middleware names, and a route with another one.\<close>

definition AllowMethods :: "string list" where
  "AllowMethods = [''GET'', ''POST'', ''PUT'', ''DELETE'', ''OPTIONS'']"

lemma cors_misses_patch:
  "filter (\<lambda>r. rt_method r \<notin> set AllowMethods) (mounted True) =
     [api_route [Bearer] Orders (''PATCH'', ''/orders/:id/status'', ''setStatus''),
      api_route [Bearer] Orders (''PATCH'', ''/payments/:pid/verify'', ''verifyPayment'')]"
  by code_simp

end
