(* ===== verification/Spec2Isabelle.thy ===== *)
theory Spec2Isabelle
  imports Runs Seed Races Routes
begin

text \<open>
  Verification of the back end of MUDAHURUS, a shop for many small sellers: the Go packages under
  \<open>src/api\<close>, whose paths below are relative to \<open>src/api/internal\<close>.

  \<^bold>\<open>How the program is put together.\<close> \<open>cmd/server/main.go\<close> reads the settings (\<open>config\<close>), connects
  and migrates the database (\<open>db\<close>), and mounts the application (\<open>server\<close>): the routes of the
  packages, in groups that carry the guards (\<open>auth/middleware.go\<close>), the rate limits and the access log
  (\<open>accesslog\<close>). A handler binds its input (\<open>httpx\<close>), takes the tenant from the token
  (\<open>tenancy\<close>), and calls a service, which calls a repository, whose methods are SQL statements that
  name the tenant. Sellers manage products (\<open>catalog\<close>), orders, customers and coupons; buyers without an
  account use \<open>storefront\<close>; \<open>enhancements\<close> adds a copilot, reminders, notifications and payments;
  \<open>events\<close> and \<open>notify\<close> tell other services and send mail; \<open>storage\<close> keeps images and proofs of
  payment.

  \<^bold>\<open>The state.\<close> \<open>world\<close> (theory World) holds the tables with a row record each, the clock, a supply of
  random numbers, the messages and events sent, the files, and for each coming statement whether the
  connection fails. A Go function that returns an error is an action of type \<open>'a go\<close>: a function
  from the world to the world after and an error or a value. A statement (\<open>sql\<close>) is atomic, and a
  write that would break a constraint of the migrations (\<open>db_ok\<close>) fails and changes nothing.

  \<^bold>\<open>Theories and sources.\<close>
  \<^item> Prelude: the combinators of actions and the locale \<open>transition\<close> (what composed actions keep);
    GoStrings, GoTime, Float64, ParseFloat: the parts of Go's library that the code uses (strings,
    numbers in text, durations, \<open>float64\<close> with its rounding).
  \<^item> World: tables, constraints, statements, transactions. Httpx: \<open>httpx\<close>. Tenancy: \<open>tenancy\<close>
    and the relation that isolates tenants. Events: \<open>events\<close>, \<open>notify\<close>.
  \<^item> AuthCrypto, Auth: \<open>auth\<close> (hashes of passwords, tokens, guard; store, service, handlers).
  \<^item> Storage: \<open>storage\<close> (keys, the local and the MinIO back end, signed links). What its clients rely on is the
    locale \<open>object_store\<close>, which both back ends interpret; \<open>lasting_store\<close> extends it with what the
    local one keeps. Scoped: the locale \<open>owned_table\<close> of the tables with a tenant column.
  \<^item> Catalog: \<open>catalog\<close>. Orders, Invoice, OrdersApi: \<open>orders\<close> (repository and service, the PDF writer,
    handlers); OrderLife and OrderCreation: what they do. Customers, Coupons: the packages of those names.
    Storefront: \<open>storefront\<close>, \<open>dashboard\<close>. ReadIsolation: what the reading handlers depend on.
  \<^item> Enhancements, EnhModule, Copilot: \<open>enhancements\<close> (agents, notifications, content, trend, currencies;
    handlers and background loop; the parser of seller commands with the regular expressions it uses).
    EnhFacts: what they do. Assistant: \<open>assistant\<close>.
  \<^item> Config: \<open>config\<close>. Migrate: \<open>db/migrate.go\<close>. AccessLog: \<open>accesslog\<close>.
  \<^item> Server: \<open>server\<close>, \<open>cmd/server\<close>, \<open>cmd/migratecheck\<close>: a datatype of calls per route group,
    the function that runs each, and \<open>serve\<close>, which answers a request with its guards. Routes: the table
    of routes that \<open>main\<close>, \<open>Mount\<close> and the \<open>Routes\<close> functions of the packages register. Seed: \<open>cmd/seed\<close>.
  \<^item> Service: promises of one request of the composed server. Runs: promises of all sequences of
    requests, background sweeps and steps of the access log. Threads, Races: requests whose statements
    interleave.

  \<^bold>\<open>What is shown.\<close>
  \<^item> Isolation: behind the bearer token a request changes rows of the token's tenant only
    (\<open>tenant_isolation\<close>, by the lemmas \<open>scoped_...\<close> of every handler), and reads depend on that
    tenant's rows only (\<open>read_isolation\<close>; the pages of products where they name categories of the tenant).
    The exceptions are stated and shown: deletes clear references of other tenants
    (\<open>category_delete_crosses_tenants\<close>), and a product shows the name of any category
    (\<open>foreign_category_visible\<close>).
  \<^item> Tokens: spent tokens are refused in every run (\<open>spent_tokens_refused\<close>), and under every
    interleaving a token is used at most once (\<open>tokens_at_most_once\<close>). Login, registration and reset
    are described on every branch; an issued token opens the guard until it expires.
  \<^item> Routes: whichever of the matching routes the router chooses, a method and a path meet the same guards, and
    only the listed routes are open (\<open>route_guards_determined\<close>); \<open>serve\<close> answers every request with the
    handler that its route names, behind the guards the route is registered with
    (\<open>requests_follow_routes\<close>), and every route but that of the metrics has a request
    (\<open>every_route_requested\<close>).
  \<^item> Orders: creation, payment proofs, expiry and status changes are described exactly; over every run of
    requests served one after the other, orders stay and follow the table of statuses
    (\<open>orders_follow_lifecycle\<close>); the web hook (\<open>webhook_ignores_transitions\<close>) and two interleaved
    changes (\<open>status_race\<close>) get past the table.
  \<^item> Refinement and equivalence: the access log refines a lossy queue and loses nothing while its worker keeps
    up, the reminder query selects what the decision function selects, a notification reads the same in every
    order of its variables where no value contains braces, a second run of the seeder changes hashes only.
    Termination: enough boots apply every migration.
  \<^item> Bounds, round trips and errors: pages, search limits, password and PDF encodings, refused inputs.
  Each property carries its number in the text before it; its witness applies it at a concrete state.

  \<^bold>\<open>Parameters.\<close> Code outside the repository is a field of \<open>env\<close> and its extensions \<open>auth_env\<close>,
  \<open>app_env\<close>, \<open>enh_env\<close> and \<open>server_env\<close>: UUIDs, the numeric columns and ILIKE of PostgreSQL, SHA-256, Argon2,
  random bytes, the JWT library, full-text search, the question answering service, the environment; and, where
  letters outside ASCII make a difference, the database's lower() on SKUs, \<open>strings.EqualFold\<close> on SKUs and
  \<open>strings.ToLower\<close> on the messages to the copilot. What
  a property needs of them is a named hypothesis (\<open>argon2_len\<close>, \<open>jwt_ok\<close>, \<open>minio_apart\<close>, ...),
  which the samples of the witnesses fulfil. No property supposes HMAC to be injective: \<open>signed_link_exact\<close>
  names the clash of two codes as a case. The router is a parameter, too, bounded by what \<open>may_match\<close> allows. The
  reader of PDF literals in Invoice follows the rules of ISO 32000. The MinIO client is the record \<open>minio\<close> of its calls;
  \<open>minio_apart\<close> says that they leave the tables, the clock and the outbox alone.

  \<^bold>\<open>Bounds and fuel.\<close> Recursion is structural or has a measure; nothing runs on fuel that could end early. A
  repetition in a regular expression is bounded by the characters that are left, which is enough since an
  iteration that consumes nothing is not repeated. The channel of the access log has the capacity of the
  source. An \<open>int\<close> of the source is an integer here: those that come from text have passed the range
  check of \<open>Atoi\<close>, those that go to a column are checked against its range, and prices are multiplied as
  \<open>float64\<close>, which is modelled with its rounding. Identifiers are words of 128 bits.

  \<^bold>\<open>Not modelled.\<close> The pool of connections (\<open>db/db.go\<close>), which only calls its library; the delivery of events and messages over HTTP after they are handed over; log lines and
  printed lines (\<open>logging\<close>); the counting of the rate limiter, which is a parameter that admits or
  refuses; CORS headers, measured durations and the text of the metrics page, signals and shutdown; JSON as bytes, where requests and
  answers are records. Requests are atomic in \<open>serve\<close>; the interleaving of statements is modelled for the
  token, status and product operations of Races only. The two zeros of \<open>float64\<close> are one value. But for the
  parameters above, \<open>ToLower\<close> and \<open>TrimSpace\<close> leave letters outside ASCII as they are. A
  connection that breaks while rows are read is an error of the statement; two loops of the source
  (\<open>loadChildren\<close>, \<open>Migrate\<close>) do not ask for that error and go on with the rows they have. A commit that fails has
  changed nothing. Argon2 panics for a stored hash with zero passes or threads, which \<open>HashPassword\<close> never
  writes; here it answers.
\<close>

end
